(* ===== verification/Prelude.thy ===== *)
theory Prelude
  imports Main "HOL-Library.State_Monad"
begin

text \<open>
  What every theory of the development shares: Go errors as values, computations that
  read and change the outside world (the \<open>state\<close> monad of HOL-Library over a world
  type that stays a parameter), the two loop shapes of the reconcilers (stop at the first
  error, collect all errors), and the collections of facts that carry the component proofs.
\<close>

named_theorems io_simps "unfolding of world computations"
named_theorems frame_intros "computations that leave a view of the world unchanged"

section \<open>Errors\<close>

text \<open>
  A Go \<open>error\<close>. \<open>ApiError\<close> is a status of the Kubernetes API with its reason,
  \<open>ErrorString\<close> a leaf made by \<open>fmt.Errorf\<close> without \<open>%w\<close>, \<open>WrapError p e\<close>
  is \<open>fmt.Errorf("p%w", e)\<close> (every use in the sources has \<open>%w\<close> last), and
  \<open>ErrReleaseNotFound\<close> is Helm's sentinel, which the sources compare by identity.
\<close>

datatype api_reason = NotFound | AlreadyExists | ReasonConflict | OtherReason

datatype error =
    ApiError api_reason string
  | ErrorString string
  | WrapError string error
  | ErrReleaseNotFound

fun Error :: "error \<Rightarrow> string" where
  "Error (ApiError r s) = s"
| "Error (ErrorString s) = s"
| "Error (WrapError p e) = p @ Error e"
| "Error ErrReleaseNotFound = ''release: not found''"

text \<open>\<open>apierrors.IsNotFound\<close> looks through wrapped errors.\<close>

fun IsNotFound :: "error \<Rightarrow> bool" where
  "IsNotFound (ApiError r s) = (r = NotFound)"
| "IsNotFound (WrapError p e) = IsNotFound e"
| "IsNotFound _ = False"

definition IgnoreNotFound :: "error \<Rightarrow> error option" where
  "IgnoreNotFound e = (if IsNotFound e then None else Some e)"

section \<open>Computations on the world\<close>

type_synonym ('w, 'a) io = "('w, 'a) state"

abbreviation ret :: "'a \<Rightarrow> ('w, 'a) io" where
  "ret \<equiv> State_Monad.return"

lemmas run_io [io_simps] = run_state_bind run_state_return

text \<open>A loop whose body returns on the first error: \<open>for ... { if err := f(x); err != nil { return err } }\<close>.\<close>

fun for_until_err :: "('a \<Rightarrow> ('w, error option) io) \<Rightarrow> 'a list \<Rightarrow> ('w, error option) io" where
  "for_until_err f [] = ret None"
| "for_until_err f (x # xs) =
     do { e \<leftarrow> f x; case e of Some err \<Rightarrow> ret (Some err) | None \<Rightarrow> for_until_err f xs }"

text \<open>A loop that runs its body for every element and appends what it reports.\<close>

fun for_collect :: "('a \<Rightarrow> ('w, 'b list) io) \<Rightarrow> 'a list \<Rightarrow> ('w, 'b list) io" where
  "for_collect f [] = ret []"
| "for_collect f (x # xs) = do { ys \<leftarrow> f x; zs \<leftarrow> for_collect f xs; ret (ys @ zs) }"

text \<open>A loop run for its effect only.\<close>

fun for_each :: "('a \<Rightarrow> ('w, unit) io) \<Rightarrow> 'a list \<Rightarrow> ('w, unit) io" where
  "for_each f [] = ret ()"
| "for_each f (x # xs) = do { u \<leftarrow> f x; for_each f xs }"

lemma for_until_err_append:
  "run_state (for_until_err f (xs @ ys)) w =
     (case run_state (for_until_err f xs) w of
        (Some err, w') \<Rightarrow> (Some err, w')
      | (None, w') \<Rightarrow> run_state (for_until_err f ys) w')"
  by (induction xs arbitrary: w) (auto split: prod.splits option.splits)

lemma for_until_err_None_Cons:
  "run_state (for_until_err f (x # xs)) w = (None, w') \<longleftrightarrow>
     (\<exists>w1. run_state (f x) w = (None, w1) \<and> run_state (for_until_err f xs) w1 = (None, w'))"
  by (auto split: prod.splits option.splits)

text \<open>
  The loop rule for a run that ended without error: a relation that every successful step
  establishes for its element, and that later steps keep, holds for all elements.
\<close>

lemma for_until_err_all:
  assumes run: "run_state (for_until_err f xs) w = (None, w')"
    and inv: "I w"
    and step: "\<And>x v v'. x \<in> set xs \<Longrightarrow> I v \<Longrightarrow> run_state (f x) v = (None, v') \<Longrightarrow> I v' \<and> Q x v'"
    and keep: "\<And>x y v v'. x \<in> set xs \<Longrightarrow> y \<in> set xs \<Longrightarrow> I v \<Longrightarrow> Q x v \<Longrightarrow>
                 run_state (f y) v = (None, v') \<Longrightarrow> Q x v'"
  shows "I w' \<and> (\<forall>x \<in> set xs. Q x w')"
proof -
  have "I w' \<and> (\<forall>x \<in> set ys. Q x w') \<and> (\<forall>x \<in> D. Q x w')"
    if "run_state (for_until_err f ys) w = (None, w')" and "set ys \<subseteq> set xs" and "I w"
      and "D \<subseteq> set xs" and "\<forall>x \<in> D. Q x w" for ys w D
    using that
  proof (induction ys arbitrary: w D)
    case Nil
    then show ?case by simp
  next
    case (Cons y ys)
    from Cons.prems(1) obtain w1 where y: "run_state (f y) w = (None, w1)"
      and r: "run_state (for_until_err f ys) w1 = (None, w')"
      unfolding for_until_err_None_Cons by blast
    from Cons.prems(2) have yin: "y \<in> set xs" by simp
    from step [OF yin Cons.prems(3) y] have I1: "I w1" and Q1: "Q y w1" by auto
    have "\<forall>x \<in> insert y D. Q x w1"
      using Q1 keep [OF _ yin Cons.prems(3) _ y] Cons.prems(4,5) by blast
    then show ?case
      using Cons.IH [OF r _ I1, of "insert y D"] Cons.prems(2,4) by auto
  qed
  from this [of xs w "{}"] show ?thesis using run inv by simp
qed

text \<open>The rule for a loop that may end at any step: an invariant of every step.\<close>

lemma for_until_err_inv:
  assumes "run_state (for_until_err f xs) w = (res, w')" and "I w"
    and "\<And>x v e v'. x \<in> set xs \<Longrightarrow> I v \<Longrightarrow> run_state (f x) v = (e, v') \<Longrightarrow> I v'"
  shows "I w'"
  using assms
proof (induction xs arbitrary: w)
  case (Cons x xs)
  obtain e w1 where e: "run_state (f x) w = (e, w1)" by force
  have "I w1" using Cons.prems(3) [OF _ Cons.prems(2) e] by simp
  show ?case
  proof (cases e)
    case None
    with Cons.prems(1) e have "run_state (for_until_err f xs) w1 = (res, w')" by simp
    from Cons.IH [OF this \<open>I w1\<close>] Cons.prems(3) show ?thesis by (meson list.set_intros(2))
  qed (use Cons.prems(1) e \<open>I w1\<close> in simp)
qed simp

text \<open>The rule for a loop that always runs to its end, and its special case of an invariant.\<close>

lemma for_each_all:
  assumes "run_state (for_each f xs) w = (u, w')" and "I w"
    and step: "\<And>x v v' y. x \<in> set xs \<Longrightarrow> I v \<Longrightarrow> run_state (f x) v = (y, v') \<Longrightarrow> I v' \<and> Q x v'"
    and keep: "\<And>x z v v' y. x \<in> set xs \<Longrightarrow> z \<in> set xs \<Longrightarrow> I v \<Longrightarrow> Q x v \<Longrightarrow> run_state (f z) v = (y, v') \<Longrightarrow> Q x v'"
  shows "I w' \<and> (\<forall>x \<in> set xs. Q x w')"
proof -
  have "I w' \<and> (\<forall>x \<in> D \<union> set ys. Q x w')"
    if "run_state (for_each f ys) w = (u, w')" and "I w" and "set ys \<subseteq> set xs" and "D \<subseteq> set xs" and "\<forall>x \<in> D. Q x w" for ys w D
    using that
  proof (induction ys arbitrary: w D)
    case (Cons z ys)
    obtain y v where v: "run_state (f z) w = (y, v)" by (metis surj_pair)
    with Cons.prems(1) have r: "run_state (for_each f ys) v = (u, w')" by simp
    have z: "z \<in> set xs" using Cons.prems(3) by simp
    from step [OF z Cons.prems(2) v] have "I v" "Q z v" by auto
    moreover have "\<forall>x \<in> insert z D. Q x v"
      using \<open>Q z v\<close> keep [OF _ z Cons.prems(2) _ v] Cons.prems(4,5) by blast
    ultimately show ?case using Cons.IH [OF r, of "insert z D"] Cons.prems(3,4) by auto
  qed simp
  from this [of xs w "{}"] assms(1,2) show ?thesis by simp
qed

lemma for_each_inv:
  assumes "run_state (for_each f xs) w = (u, w')" and "I w"
    and "\<And>x v v' y. x \<in> set xs \<Longrightarrow> I v \<Longrightarrow> run_state (f x) v = (y, v') \<Longrightarrow> I v'"
  shows "I w'"
  using for_each_all [where I = I and Q = "\<lambda>x v. True", OF assms(1,2)] assms(3) by blast

text \<open>What \<open>for_collect\<close> runs: every element once, in order, each from the state the one before left.\<close>

lemma for_collect_trace:
  "run_state (for_collect f xs) w = (ys, w') \<longleftrightarrow>
     (\<exists>ws zs. length ws = Suc (length xs) \<and> length zs = length xs \<and> ws ! 0 = w \<and> ws ! length xs = w' \<and> ys = concat zs
        \<and> (\<forall>i < length xs. run_state (f (xs ! i)) (ws ! i) = (zs ! i, ws ! Suc i)))"
proof (induction xs arbitrary: w ys)
  case Nil
  show ?case by (auto intro: exI [of _ "[w]"])
next
  case (Cons x xs)
  obtain z v where v: "run_state (f x) w = (z, v)" by force
  obtain y w2 where r: "run_state (for_collect f xs) v = (y, w2)" by force
  show ?case
  proof
    assume "run_state (for_collect f (x # xs)) w = (ys, w')"
    with v r have "ys = z @ y" "w' = w2" by simp_all
    from r Cons.IH [of v y] this(2) obtain ws zs where t: "length ws = Suc (length xs)" "length zs = length xs" "ws ! 0 = v"
      "ws ! length xs = w'" "y = concat zs" "\<forall>i < length xs. run_state (f (xs ! i)) (ws ! i) = (zs ! i, ws ! Suc i)" by blast
    then show "\<exists>ws zs. length ws = Suc (length (x # xs)) \<and> length zs = length (x # xs) \<and> ws ! 0 = w \<and> ws ! length (x # xs) = w' \<and> ys = concat zs
        \<and> (\<forall>i < length (x # xs). run_state (f ((x # xs) ! i)) (ws ! i) = (zs ! i, ws ! Suc i))"
      using v \<open>ys = z @ y\<close> by (intro exI [of _ "w # ws"] exI [of _ "z # zs"]) (auto simp: nth_Cons split: nat.splits)
  next
    assume "\<exists>ws zs. length ws = Suc (length (x # xs)) \<and> length zs = length (x # xs) \<and> ws ! 0 = w \<and> ws ! length (x # xs) = w' \<and> ys = concat zs
        \<and> (\<forall>i < length (x # xs). run_state (f ((x # xs) ! i)) (ws ! i) = (zs ! i, ws ! Suc i))"
    then obtain ws zs where t: "length ws = Suc (Suc (length xs))" "length zs = Suc (length xs)" "ws ! 0 = w" "ws ! Suc (length xs) = w'"
      "ys = concat zs" "\<And>i. i < Suc (length xs) \<Longrightarrow> run_state (f ((x # xs) ! i)) (ws ! i) = (zs ! i, ws ! Suc i)" by auto
    from t(6) [of 0] t(3) v have v1: "ws ! 1 = v" and z: "zs ! 0 = z" by auto
    have "run_state (for_collect f xs) v = (concat (tl zs), w')"
      unfolding Cons.IH using t v1 t(6) [of "Suc i" for i]
      by (intro exI [of _ "tl ws"] exI [of _ "tl zs"]) (simp add: nth_tl)
    moreover have "concat zs = z @ concat (tl zs)" using t(2) z by (cases zs) auto
    ultimately show "run_state (for_collect f (x # xs)) w = (ys, w')" using v t(5) by simp
  qed
qed

section \<open>Frames\<close>

text \<open>\<open>frame v m\<close>: whatever \<open>m\<close> does, the part \<open>v\<close> of the world is what it was.\<close>

definition frame :: "('w \<Rightarrow> 'v) \<Rightarrow> ('w, 'a) io \<Rightarrow> bool" where
  "frame v m \<longleftrightarrow> (\<forall>w. v (snd (run_state m w)) = v w)"

lemma frameD: "frame v m \<Longrightarrow> run_state m w = (r, w') \<Longrightarrow> v w' = v w"
  by (metis frame_def snd_conv)

lemma frame_return [frame_intros]: "frame v (ret x)"
  by (simp add: frame_def)

lemma frame_bind [frame_intros]:
  "frame v m \<Longrightarrow> (\<And>x. frame v (f x)) \<Longrightarrow> frame v (State_Monad.bind m f)"
  by (simp add: frame_def split: prod.splits) (metis snd_conv)

text \<open>The rest of a computation need only keep the view for the results its first part can have.\<close>

lemma frame_bind_run:
  "frame v m \<Longrightarrow> (\<And>x w w'. run_state m w = (x, w') \<Longrightarrow> frame v (f x)) \<Longrightarrow> frame v (State_Monad.bind m f)"
  by (simp add: frame_def split: prod.splits) (metis snd_conv)

lemma frame_comp: "frame v m \<Longrightarrow> frame (\<lambda>w. f (v w)) m"
  by (simp add: frame_def)

lemma frame_if [frame_intros]: "(b \<Longrightarrow> frame v m) \<Longrightarrow> (\<not> b \<Longrightarrow> frame v n) \<Longrightarrow> frame v (if b then m else n)"
  by simp

lemma frame_case_option [frame_intros]:
  "(opt = None \<Longrightarrow> frame v m) \<Longrightarrow> (\<And>x. opt = Some x \<Longrightarrow> frame v (f x)) \<Longrightarrow>
     frame v (case opt of None \<Rightarrow> m | Some x \<Rightarrow> f x)"
  by (cases opt) auto

lemma frame_case_sum [frame_intros]:
  "(\<And>x. s = Inl x \<Longrightarrow> frame v (f x)) \<Longrightarrow> (\<And>y. s = Inr y \<Longrightarrow> frame v (g y)) \<Longrightarrow>
     frame v (case s of Inl x \<Rightarrow> f x | Inr y \<Rightarrow> g y)"
  by (cases s) auto

lemma frame_for_until_err [frame_intros]:
  "(\<And>x. x \<in> set xs \<Longrightarrow> frame v (f x)) \<Longrightarrow> frame v (for_until_err f xs)"
  by (induction xs) (auto intro!: frame_intros)

lemma frame_for_each [frame_intros]:
  "(\<And>x. x \<in> set xs \<Longrightarrow> frame v (f x)) \<Longrightarrow> frame v (for_each f xs)"
  by (induction xs) (auto intro!: frame_intros)

lemma frame_for_collect [frame_intros]:
  "(\<And>x. x \<in> set xs \<Longrightarrow> frame v (f x)) \<Longrightarrow> frame v (for_collect f xs)"
  by (induction xs) (auto intro!: frame_intros)

section \<open>Options, lists and association lists\<close>

text \<open>The value of every element, or nothing when one of them has none.\<close>

fun those_of :: "('a \<Rightarrow> 'b option) \<Rightarrow> 'a list \<Rightarrow> 'b list option" where
  "those_of f [] = Some []"
| "those_of f (x # xs) =
     (case f x of None \<Rightarrow> None
      | Some y \<Rightarrow> (case those_of f xs of None \<Rightarrow> None | Some ys \<Rightarrow> Some (y # ys)))"

lemma those_of_Some_iff:
  "those_of f xs = Some ys \<longleftrightarrow> map f xs = map Some ys"
proof (induction xs arbitrary: ys)
  case Nil
  then show ?case by auto
next
  case (Cons x xs)
  then show ?case
    by (auto simp: Cons.IH [symmetric] Cons_eq_map_conv split: option.splits)
qed

lemma set_those_of:
  "those_of f xs = Some ys \<Longrightarrow> y \<in> set ys \<longleftrightarrow> (\<exists>x \<in> set xs. f x = Some y)"
  unfolding those_of_Some_iff by (metis (no_types, lifting) ex_map_conv image_iff list.set_map option.inject)

text \<open>A Go map built by assignments, in the order of the assignments.\<close>

fun upsert :: "'k \<Rightarrow> 'v \<Rightarrow> ('k \<times> 'v) list \<Rightarrow> ('k \<times> 'v) list" where
  "upsert k v [] = [(k, v)]"
| "upsert k v ((k', v') # ps) = (if k = k' then (k, v) # ps else (k', v') # upsert k v ps)"

lemma map_of_upsert [simp]: "map_of (upsert k v ps) = (map_of ps)(k \<mapsto> v)"
  by (induction ps) (auto simp: fun_eq_iff)

lemma set_keys_upsert [simp]: "fst ` set (upsert k v ps) = insert k (fst ` set ps)"
  by (induction k v ps rule: upsert.induct) (auto simp: image_Un)

lemma distinct_upsert [simp]: "distinct (map fst ps) \<Longrightarrow> distinct (map fst (upsert k v ps))"
proof (induction ps)
  case Nil
  then show ?case by simp
next
  case (Cons p ps)
  then show ?case
    using set_keys_upsert [of k v ps] by (cases p) (auto simp: image_iff)
qed

end
