(* ===== verification/Go_Strings.thy ===== *)
theory Go_Strings
  imports Prelude
begin

text \<open>
  The parts of the Go language and standard library the operator's text handling rests on:
  strings as byte lists with the UTF-8 decoding of \<open>range\<close>, decimal and hexadecimal
  printing (\<open>%d\<close>, \<open>%04d\<close>, \<open>%02x\<close>, \<open>%q\<close>), \<open>strconv.Atoi\<close> and
  \<open>ParseInt\<close>, \<open>fmt.Sscanf\<close> with the format \<open>%d.%d.%d.%d\<close>, and the functions of
  package \<open>strings\<close>. A Go \<open>string\<close> is a \<^typ>\<open>string\<close> (one \<^typ>\<open>char\<close> per
  byte), a Go \<open>int\<close> or \<open>int64\<close> is an \<^typ>\<open>int\<close> with its range checked where
  the library checks it.
\<close>

section \<open>Runes\<close>

definition RuneError :: int where
  "RuneError = 65533"

definition is_cont :: "int \<Rightarrow> bool" where
  "is_cont b \<longleftrightarrow> 128 \<le> b \<and> b \<le> 191"

text \<open>
  \<open>utf8.DecodeRune\<close>: the first code point of a byte sequence and its width; a byte that
  starts no well-formed sequence is the replacement character, one byte wide.
\<close>

definition decode_rune :: "int list \<Rightarrow> int \<times> nat" where
  "decode_rune bs = (case bs of
      [] \<Rightarrow> (RuneError, 0)
    | b0 # r \<Rightarrow>
       if b0 < 128 then (b0, 1)
       else if 194 \<le> b0 \<and> b0 \<le> 223 then
         (case r of b1 # _ \<Rightarrow>
            if is_cont b1 then ((b0 - 192) * 64 + (b1 - 128), 2) else (RuneError, 1)
          | _ \<Rightarrow> (RuneError, 1))
       else if 224 \<le> b0 \<and> b0 \<le> 239 then
         (case r of b1 # b2 # _ \<Rightarrow>
            if is_cont b1 \<and> (b0 = 224 \<longrightarrow> 160 \<le> b1) \<and> (b0 = 237 \<longrightarrow> b1 \<le> 159) \<and> is_cont b2
            then ((b0 - 224) * 4096 + (b1 - 128) * 64 + (b2 - 128), 3) else (RuneError, 1)
          | _ \<Rightarrow> (RuneError, 1))
       else if 240 \<le> b0 \<and> b0 \<le> 244 then
         (case r of b1 # b2 # b3 # _ \<Rightarrow>
            if is_cont b1 \<and> (b0 = 240 \<longrightarrow> 144 \<le> b1) \<and> (b0 = 244 \<longrightarrow> b1 \<le> 143) \<and> is_cont b2 \<and> is_cont b3
            then ((b0 - 240) * 262144 + (b1 - 128) * 4096 + (b2 - 128) * 64 + (b3 - 128), 4)
            else (RuneError, 1)
          | _ \<Rightarrow> (RuneError, 1))
       else (RuneError, 1))"

definition bytes :: "string \<Rightarrow> int list" where
  "bytes s = map of_char s"

text \<open>The code points of a string, each with the bytes it was decoded from.\<close>

function rune_chunks :: "string \<Rightarrow> (int \<times> string) list" where
  "rune_chunks s =
     (if s = [] then []
      else let (r, n) = decode_rune (bytes s); k = max 1 n in (r, take k s) # rune_chunks (drop k s))"
  by pat_completeness auto
termination
  by (relation "measure length") auto

declare rune_chunks.simps [simp del]

text \<open>What \<open>for _, c := range s\<close> iterates over.\<close>

definition runes :: "string \<Rightarrow> int list" where
  "runes s = map fst (rune_chunks s)"

lemma rune_chunks_Nil [simp]: "rune_chunks [] = []"
  by (simp add: rune_chunks.simps)

lemma runes_Nil [simp]: "runes [] = []"
  by (simp add: runes_def)

lemma decode_rune_ascii: "of_char c < (128 :: int) \<Longrightarrow> decode_rune (bytes (c # s)) = (of_char c, 1)"
  by (simp add: decode_rune_def bytes_def)

lemma rune_chunks_ascii:
  "of_char c < (128 :: int) \<Longrightarrow> rune_chunks (c # s) = (of_char c, [c]) # rune_chunks s"
  by (subst rune_chunks.simps) (simp add: decode_rune_ascii)

definition ascii :: "string \<Rightarrow> bool" where
  "ascii s \<longleftrightarrow> list_all (\<lambda>c. of_char c < (128 :: int)) s"

lemma ascii_simps [simp]:
  "ascii []" "ascii (c # s) \<longleftrightarrow> of_char c < (128 :: int) \<and> ascii s" "ascii (s @ t) \<longleftrightarrow> ascii s \<and> ascii t"
  by (simp_all add: ascii_def)

lemma runes_ascii_append: "ascii s \<Longrightarrow> runes (s @ t) = bytes s @ runes t"
  by (induction s) (auto simp: runes_def bytes_def rune_chunks_ascii)

lemma runes_ascii: "ascii s \<Longrightarrow> runes s = bytes s"
  using runes_ascii_append [of s "[]"] by simp

lemma decode_rune_bound:
  assumes "\<forall>b \<in> set bs. 0 \<le> b \<and> b < 256"
  shows "0 \<le> fst (decode_rune bs) \<and> fst (decode_rune bs) \<le> 1114111"
  using assms
  by (auto simp: decode_rune_def RuneError_def is_cont_def split: list.splits)

lemma of_char_int: "(of_char c :: int) = int (of_char c)"
  by (simp add: of_nat_of_char)

lemma bytes_range: "b \<in> set (bytes s) \<Longrightarrow> 0 \<le> b \<and> b < 256"
proof -
  have "int (of_char c) < 256" for c
    using nat_of_char_less_256 [of c] by linarith
  then show "b \<in> set (bytes s) \<Longrightarrow> 0 \<le> b \<and> b < 256"
    by (auto simp: bytes_def of_char_int)
qed

lemma runes_bound: "r \<in> set (runes s) \<Longrightarrow> 0 \<le> r \<and> r \<le> 1114111"
proof (induction s rule: rune_chunks.induct)
  case (1 s)
  show ?case
  proof (cases "s = []")
    case True
    with "1.prems" show ?thesis by simp
  next
    case False
    obtain c n where d: "decode_rune (bytes s) = (c, n)" by force
    have c: "0 \<le> c \<and> c \<le> 1114111"
      using decode_rune_bound [of "bytes s"] bytes_range [of _ s] d by auto
    from False d have "runes s = c # runes (drop (max 1 n) s)"
      by (simp add: runes_def rune_chunks.simps [of s] Let_def)
    with "1.prems" have "r = c \<or> r \<in> set (runes (drop (max 1 n) s))" by simp
    then show ?thesis
      using "1.IH" [OF False] c d by auto
  qed
qed

section \<open>Printing numbers\<close>

definition digit_char :: "nat \<Rightarrow> char" where
  "digit_char d = char_of (48 + d)"

text \<open>\<open>strconv.Itoa\<close> and \<open>%d\<close>.\<close>

fun nat_str :: "nat \<Rightarrow> string" where
  "nat_str n = (if n < 10 then [digit_char n] else nat_str (n div 10) @ [digit_char (n mod 10)])"

declare nat_str.simps [simp del]

definition itoa :: "int \<Rightarrow> string" where
  "itoa i = (if i < 0 then CHR ''-'' # nat_str (nat (- i)) else nat_str (nat i))"

text \<open>\<open>%04d\<close> of a number that is not negative, and \<open>%02x\<close> of a number in 0..255.\<close>

definition itoa_pad4 :: "nat \<Rightarrow> string" where
  "itoa_pad4 n = replicate (4 - length (nat_str n)) (CHR ''0'') @ nat_str n"

definition hex_char :: "nat \<Rightarrow> char" where
  "hex_char d = (if d < 10 then char_of (48 + d) else char_of (87 + d))"

definition hex02 :: "nat \<Rightarrow> string" where
  "hex02 n = [hex_char (n div 16 mod 16), hex_char (n mod 16)]"

text \<open>
  \<open>%q\<close>: \<open>strconv.Quote\<close>, exact on ASCII (a printable non-ASCII rune stays as it is,
  an unprintable one would be escaped).
\<close>

definition quote_char :: "char \<Rightarrow> string" where
  "quote_char c =
     (if c = CHR 0x22 then [CHR 0x5C, CHR 0x22]
      else if c = CHR 0x5C then [CHR 0x5C, CHR 0x5C]
      else if c = CHR 0x07 then [CHR 0x5C, CHR ''a'']
      else if c = CHR 0x08 then [CHR 0x5C, CHR ''b'']
      else if c = CHR 0x0C then [CHR 0x5C, CHR ''f'']
      else if c = CHR 0x0A then [CHR 0x5C, CHR ''n'']
      else if c = CHR 0x0D then [CHR 0x5C, CHR ''r'']
      else if c = CHR 0x09 then [CHR 0x5C, CHR ''t'']
      else if c = CHR 0x0B then [CHR 0x5C, CHR ''v'']
      else if of_char c < (32 :: nat) \<or> of_char c = (127 :: nat) then [CHR 0x5C, CHR ''x''] @ hex02 (of_char c)
      else [c])"

definition quote :: "string \<Rightarrow> string" where
  "quote s = [CHR 0x22] @ concat (map quote_char s) @ [CHR 0x22]"

text \<open>Characters between 0 and 9, and the value of a sequence of them.\<close>

definition is_digit :: "int \<Rightarrow> bool" where
  "is_digit r \<longleftrightarrow> 48 \<le> r \<and> r \<le> 57"

definition digits_val :: "int list \<Rightarrow> int" where
  "digits_val ds = foldl (\<lambda>v r. v * 10 + (r - 48)) 0 ds"

lemma of_char_digit_char [simp]: "d < 10 \<Longrightarrow> of_char (digit_char d) = (48 + int d :: int)"
  by (simp add: digit_char_def of_char_int)

lemma nat_str_digits: "list_all is_digit (bytes (nat_str n))"
proof (induction n rule: nat_str.induct)
  case (1 n)
  then show ?case
    by (subst nat_str.simps) (auto simp: bytes_def is_digit_def [abs_def] list_all_iff)
qed

lemma nat_str_nonempty [simp]: "nat_str n \<noteq> []"
  by (subst nat_str.simps) simp

lemma digits_val_nat_str [simp]: "digits_val (bytes (nat_str n)) = int n"
proof (induction n rule: nat_str.induct)
  case (1 n)
  show ?case
  proof (cases "n < 10")
    case True
    then show ?thesis by (subst nat_str.simps) (simp add: bytes_def digits_val_def)
  next
    case False
    with "1.IH" have "digits_val (bytes (nat_str (n div 10))) = int (n div 10)" by simp
    moreover have "int (n div 10) * 10 + int (n mod 10) = int n"
      by (metis div_mult_mod_eq of_nat_add of_nat_mult of_nat_numeral)
    ultimately show ?thesis
      using False by (subst nat_str.simps) (simp add: bytes_def digits_val_def)
  qed
qed

lemma nat_str_inj: "nat_str m = nat_str n \<longleftrightarrow> m = n"
  by (metis digits_val_nat_str of_nat_eq_iff)

lemma itoa_nonneg: "0 \<le> i \<Longrightarrow> itoa i = nat_str (nat i)"
  by (simp add: itoa_def)

lemma ascii_if_digits: "list_all is_digit (bytes s) \<Longrightarrow> ascii s"
  by (auto simp: ascii_def list_all_iff is_digit_def bytes_def)

lemma ascii_nat_str [simp]: "ascii (nat_str n)"
  by (rule ascii_if_digits [OF nat_str_digits])

end
