(* ===== verification/Go_Scan.thy ===== *)
theory Go_Scan
  imports Go_Strings
begin

text \<open>
  Reading numbers out of text the way the Go library does: \<open>strconv.ParseInt\<close> and
  \<open>Atoi\<close>, and \<open>fmt.Sscanf(s, "%d.%d.%d.%d", ...)\<close>, of which the operator uses the
  number of operands scanned and their values. The round trip with \<open>%d\<close> printing is
  proved here once and used by every component that reads back an address it wrote.
\<close>

section \<open>strconv\<close>

abbreviation MaxInt64 :: int where "MaxInt64 \<equiv> 9223372036854775807"
abbreviation MinInt64 :: int where "MinInt64 \<equiv> - 9223372036854775808"
abbreviation MaxUint64 :: int where "MaxUint64 \<equiv> 18446744073709551615"

datatype num_status = NumOk | NumSyntax | NumRange

definition digit_of :: "char \<Rightarrow> int option" where
  "digit_of c =
     (let r = (of_char c :: int) in
      if 48 \<le> r \<and> r \<le> 57 then Some (r - 48)
      else if 97 \<le> r \<and> r \<le> 122 then Some (r - 87)
      else if 65 \<le> r \<and> r \<le> 90 then Some (r - 55)
      else None)"

fun parse_uint :: "int \<Rightarrow> string \<Rightarrow> int \<Rightarrow> int \<times> num_status" where
  "parse_uint base [] n = (n, NumOk)"
| "parse_uint base (c # cs) n =
     (case digit_of c of
        None \<Rightarrow> (0, NumSyntax)
      | Some d \<Rightarrow>
          if base \<le> d then (0, NumSyntax)
          else if MaxUint64 < n * base + d then (MaxUint64, NumRange)
          else parse_uint base cs (n * base + d))"

text \<open>
  \<open>strconv.ParseInt(s, base, 64)\<close>, base 10 or 16: the value the call returns and how it
  went. On a syntax error the value is 0, on a range error the nearest 64-bit value.
\<close>

definition ParseInt :: "string \<Rightarrow> int \<Rightarrow> int \<times> num_status" where
  "ParseInt s base =
     (let neg = (s \<noteq> [] \<and> hd s = CHR ''-'');
          body = (if s \<noteq> [] \<and> (hd s = CHR ''-'' \<or> hd s = CHR ''+'') then tl s else s)
      in if body = [] then (0, NumSyntax)
         else case parse_uint base body 0 of
           (u, NumSyntax) \<Rightarrow> (0, NumSyntax)
         | (u, st) \<Rightarrow>
             if \<not> neg \<and> MaxInt64 < u then (MaxInt64, NumRange)
             else if neg \<and> - MinInt64 < u then (MinInt64, NumRange)
             else (if neg then - u else u, st))"

text \<open>\<open>strconv.Atoi\<close>: the number, or nothing on an error.\<close>

definition Atoi :: "string \<Rightarrow> int option" where
  "Atoi s = (case ParseInt s 10 of (v, NumOk) \<Rightarrow> Some v | _ \<Rightarrow> None)"

lemma parse_uint_nonneg: "0 \<le> base \<Longrightarrow> 0 \<le> n \<Longrightarrow> 0 \<le> fst (parse_uint base b n)"
  by (induction base b n rule: parse_uint.induct)
    (auto simp: digit_of_def Let_def split: option.splits if_splits)

lemma ParseInt_range:
  assumes "0 \<le> base"
  shows "MinInt64 \<le> fst (ParseInt s base) \<and> fst (ParseInt s base) \<le> MaxInt64"
proof -
  define body where "body = (if s \<noteq> [] \<and> (hd s = CHR ''-'' \<or> hd s = CHR ''+'') then tl s else s)"
  obtain u st where u: "parse_uint base body 0 = (u, st)" by force
  have "0 \<le> u" using parse_uint_nonneg [OF assms, of 0 body] u by simp
  then show ?thesis
    by (cases st) (simp_all add: ParseInt_def Let_def flip: body_def, simp_all add: u)
qed

section \<open>Sscanf\<close>

text \<open>\<open>fmt\<close>'s own table of space characters.\<close>

definition is_space :: "int \<Rightarrow> bool" where
  "is_space r \<longleftrightarrow> (9 \<le> r \<and> r \<le> 13) \<or> r = 32 \<or> r = 133 \<or> r = 160 \<or> r = 5760
     \<or> (8192 \<le> r \<and> r \<le> 8202) \<or> r = 8232 \<or> r = 8233 \<or> r = 8239 \<or> r = 8287 \<or> r = 12288"

text \<open>\<open>SkipSpace\<close> for \<open>Sscanf\<close>, where a newline is an error (\<open>None\<close>).\<close>

fun skip_space :: "int list \<Rightarrow> int list option" where
  "skip_space [] = Some []"
| "skip_space (r # rs) =
     (if r = 13 \<and> rs \<noteq> [] \<and> hd rs = 10 then skip_space rs
      else if r = 10 then None
      else if is_space r then skip_space rs
      else Some (r # rs))"

text \<open>
  One \<open>%d\<close> into an \<open>int\<close>: skip space, an optional sign, at least one decimal digit,
  and a value that fits 64 bits. \<open>None\<close>: the scan stops with an error.
\<close>

definition scan_int :: "int list \<Rightarrow> (int \<times> int list) option" where
  "scan_int s =
     (case skip_space s of
        None \<Rightarrow> None
      | Some s0 \<Rightarrow>
          let neg = (s0 \<noteq> [] \<and> hd s0 = 45);
              s1 = (if s0 \<noteq> [] \<and> (hd s0 = 45 \<or> hd s0 = 43) then tl s0 else s0);
              ds = takeWhile is_digit s1;
              v = (if neg then - digits_val ds else digits_val ds)
          in if ds = [] then None
             else if MinInt64 \<le> v \<and> v \<le> MaxInt64 then Some (v, dropWhile is_digit s1)
             else None)"

text \<open>The operands \<open>Sscanf\<close> fills for \<open>n\<close> verbs \<open>%d\<close> with a dot between them.\<close>

fun scan_dotted :: "nat \<Rightarrow> int list \<Rightarrow> int list" where
  "scan_dotted 0 s = []"
| "scan_dotted (Suc n) s =
     (case scan_int s of
        None \<Rightarrow> []
      | Some (v, s1) \<Rightarrow>
          v # (if n = 0 then []
               else case s1 of r # s2 \<Rightarrow> if r = 46 then scan_dotted n s2 else [] | [] \<Rightarrow> []))"

definition Sscanf4 :: "string \<Rightarrow> int list" where
  "Sscanf4 s = scan_dotted 4 (runes s)"

lemma length_scan_dotted: "length (scan_dotted n s) \<le> n"
  by (induction n s rule: scan_dotted.induct) (auto split: option.splits list.splits)

lemma length_Sscanf4: "length (Sscanf4 s) \<le> 4"
  unfolding Sscanf4_def by (rule length_scan_dotted)

section \<open>Printing and reading back\<close>

lemma skip_space_digit: "r = 45 \<or> is_digit r \<Longrightarrow> skip_space (r # rs) = Some (r # rs)"
  by (auto simp: is_space_def is_digit_def)

lemma takeWhile_digits:
  assumes "list_all is_digit ds" and "rest = [] \<or> \<not> is_digit (hd rest)"
  shows "takeWhile is_digit (ds @ rest) = ds" and "dropWhile is_digit (ds @ rest) = rest"
  using assms by (induction ds) (auto, (cases rest; simp)+)

text \<open>A printed number is scanned back, up to the first character that is no digit.\<close>

lemma scan_int_itoa:
  assumes v: "MinInt64 \<le> v" "v \<le> MaxInt64" and rest: "rest = [] \<or> \<not> is_digit (hd rest)"
  shows "scan_int (bytes (itoa v) @ rest) = Some (v, rest)"
proof -
  let ?ds = "bytes (nat_str (nat \<bar>v\<bar>))"
  have ds: "list_all is_digit ?ds" by (rule nat_str_digits)
  note tw = takeWhile_digits [OF ds rest]
  have ne: "?ds \<noteq> []" by (simp add: bytes_def)
  then obtain d r where dr: "?ds = d # r" by (cases ?ds) auto
  with ds have d: "is_digit d" by simp
  have val: "digits_val ?ds = \<bar>v\<bar>" by simp
  show ?thesis
  proof (cases "v < 0")
    case True
    then have "bytes (itoa v) @ rest = 45 # ?ds @ rest"
      by (simp add: itoa_def bytes_def)
    then show ?thesis
      using True tw ne val v by (simp add: scan_int_def is_space_def)
  next
    case False
    then have "bytes (itoa v) @ rest = ?ds @ rest"
      by (simp add: itoa_def)
    moreover have "skip_space (?ds @ rest) = Some (?ds @ rest)"
      using skip_space_digit [of d "r @ rest"] d by (simp only: dr append_Cons simp_thms)
    moreover have "hd ?ds \<noteq> 45" "hd ?ds \<noteq> 43"
      using dr d by (auto simp: is_digit_def)
    ultimately show ?thesis
      using False tw ne v by (simp add: scan_int_def Let_def)
  qed
qed

text \<open>Dotted printing, \<open>fmt.Sprintf("%d.%d...", ...)\<close>.\<close>

fun dotted :: "int list \<Rightarrow> string" where
  "dotted [] = []"
| "dotted [v] = itoa v"
| "dotted (v # vs) = itoa v @ CHR ''.'' # dotted vs"

lemma ascii_itoa [simp]: "ascii (itoa v)"
  by (simp add: itoa_def)

lemma ascii_dotted [simp]: "ascii (dotted vs)"
  by (induction vs rule: dotted.induct) auto

lemma scan_dotted_dotted:
  assumes "\<forall>v \<in> set vs. MinInt64 \<le> v \<and> v \<le> MaxInt64" and "rest = [] \<or> \<not> is_digit (hd rest)"
  shows "scan_dotted (length vs) (bytes (dotted vs) @ rest) = vs"
  using assms
proof (induction vs rule: dotted.induct)
  case 1
  then show ?case by simp
next
  case (2 v)
  then show ?case using scan_int_itoa [of v rest] by simp
next
  case (3 v u us)
  have "bytes (dotted (v # u # us)) @ rest = bytes (itoa v) @ 46 # bytes (dotted (u # us)) @ rest"
    by (simp add: bytes_def)
  moreover have "scan_int (bytes (itoa v) @ 46 # bytes (dotted (u # us)) @ rest)
      = Some (v, 46 # bytes (dotted (u # us)) @ rest)"
    by (rule scan_int_itoa) (use "3.prems" in \<open>auto simp: is_digit_def\<close>)
  ultimately show ?case
    using "3.IH" "3.prems" by simp
qed

lemma Sscanf4_dotted:
  assumes "length vs = 4" and "\<forall>v \<in> set vs. MinInt64 \<le> v \<and> v \<le> MaxInt64"
    and "rest = [] \<or> of_char (hd rest) < (48 :: int) \<or> (57 < (of_char (hd rest) :: int) \<and> of_char (hd rest) < (128 :: int))"
  shows "Sscanf4 (dotted vs @ rest) = vs"
proof -
  have "runes rest = [] \<or> \<not> is_digit (hd (runes rest))"
    using assms(3) by (cases rest) (auto simp: runes_def rune_chunks_ascii is_digit_def)
  then show ?thesis
    using scan_dotted_dotted [OF assms(2), of "runes rest"] assms(1)
    by (simp add: Sscanf4_def runes_ascii_append)
qed

section \<open>Printing and \<open>strconv\<close>\<close>

lemma digit_of_digit: "is_digit (of_char c) \<Longrightarrow> digit_of c = Some (of_char c - 48)"
  by (simp add: digit_of_def is_digit_def)

lemma foldl_digits_ge:
  "list_all is_digit ds \<Longrightarrow> 0 \<le> n \<Longrightarrow> n \<le> foldl (\<lambda>v r. v * 10 + (r - 48)) n ds"
proof (induction ds arbitrary: n)
  case (Cons d ds)
  then have "n \<le> n * 10 + (d - 48)" and "0 \<le> n * 10 + (d - 48)" by (auto simp: is_digit_def)
  with Cons.IH [of "n * 10 + (d - 48)"] Cons.prems show ?case by simp
qed simp

lemma parse_uint_digits:
  assumes "list_all is_digit (bytes s)" and "0 \<le> n"
    and "foldl (\<lambda>v r. v * 10 + (r - 48)) n (bytes s) \<le> MaxUint64"
  shows "parse_uint 10 s n = (foldl (\<lambda>v r. v * 10 + (r - 48)) n (bytes s), NumOk)"
  using assms
proof (induction s arbitrary: n)
  case (Cons c s)
  let ?d = "of_char c - 48 :: int"
  have c: "is_digit (of_char c)" and rest: "list_all is_digit (bytes s)" using Cons.prems(1) by (auto simp: bytes_def)
  have n': "0 \<le> n * 10 + ?d" "\<not> 10 \<le> ?d" using c Cons.prems(2) by (auto simp: is_digit_def)
  have "n * 10 + ?d \<le> MaxUint64"
    using foldl_digits_ge [OF rest n'(1)] Cons.prems(3) by (simp add: bytes_def)
  then show ?case
    using Cons.IH [OF rest n'(1)] Cons.prems(3) n' c by (simp add: digit_of_digit bytes_def)
qed (simp add: bytes_def)

lemma Atoi_itoa:
  assumes "0 \<le> v" and "v \<le> MaxInt64"
  shows "Atoi (itoa v) = Some v"
proof -
  let ?s = "nat_str (nat v)"
  have d: "list_all is_digit (bytes ?s)" by (rule nat_str_digits)
  have val: "foldl (\<lambda>v r. v * 10 + (r - 48)) 0 (bytes ?s) = v"
    using digits_val_nat_str [of "nat v"] assms(1) by (simp add: digits_val_def)
  have p: "parse_uint 10 ?s 0 = (v, NumOk)"
    using parse_uint_digits [OF d, of 0] val assms(2) by simp
  obtain c r where s: "?s = c # r" by (meson nat_str_nonempty neq_Nil_conv)
  with d have "c \<noteq> CHR ''-''" "c \<noteq> CHR ''+''" by (auto simp: bytes_def is_digit_def)
  then show ?thesis
    using p s assms by (simp add: Atoi_def ParseInt_def itoa_def Let_def)
qed

end
