(* ===== verification/Go_Text.thy ===== *)
theory Go_Text
  imports Go_Scan
begin

text \<open>
  The functions of package \<open>strings\<close> the operator calls, base64, and the small text
  helpers of the controllers themselves (\<open>orDefault\<close>, \<open>orInt\<close>, \<open>indent\<close>,
  \<open>atoiOr\<close>).
\<close>

section \<open>Package strings\<close>

abbreviation newline :: char where "newline \<equiv> CHR 0x0A"

definition HasPrefix :: "string \<Rightarrow> string \<Rightarrow> bool" where
  "HasPrefix s p \<longleftrightarrow> take (length p) s = p"

definition TrimPrefix :: "string \<Rightarrow> string \<Rightarrow> string" where
  "TrimPrefix s p = (if HasPrefix s p then drop (length p) s else s)"

fun Contains :: "string \<Rightarrow> string \<Rightarrow> bool" where
  "Contains [] sub = (sub = [])"
| "Contains (c # s) sub = (HasPrefix (c # s) sub \<or> Contains s sub)"

text \<open>\<open>strings.Split\<close> and \<open>strings.Join\<close> for a separator of one byte (Split) or any (Join).\<close>

fun Split :: "char \<Rightarrow> string \<Rightarrow> string list" where
  "Split sep [] = [[]]"
| "Split sep (c # s) =
     (if c = sep then [] # Split sep s
      else case Split sep s of [] \<Rightarrow> [[c]] | p # ps \<Rightarrow> (c # p) # ps)"

fun Join :: "string list \<Rightarrow> string \<Rightarrow> string" where
  "Join [] sep = []"
| "Join [x] sep = x"
| "Join (x # xs) sep = x @ sep @ Join xs sep"

text \<open>\<open>strings.ReplaceAll(s, old, new)\<close> for an \<open>old\<close> of one byte.\<close>

definition ReplaceAll :: "string \<Rightarrow> char \<Rightarrow> string \<Rightarrow> string" where
  "ReplaceAll s old new = concat (map (\<lambda>c. if c = old then new else [c]) s)"

text \<open>\<open>s[:strings.LastIndex(s, c)]\<close> for a byte that occurs in \<open>s\<close>.\<close>

definition before_last :: "string \<Rightarrow> char \<Rightarrow> string" where
  "before_last s c = rev (drop 1 (dropWhile (\<lambda>x. x \<noteq> c) (rev s)))"

text \<open>\<open>strings.TrimSpace\<close>: white space is \<open>unicode.IsSpace\<close>, the same set as \<open>fmt\<close>'s table.\<close>

definition TrimSpace :: "string \<Rightarrow> string" where
  "TrimSpace s =
     (let sp = (\<lambda>p. is_space (fst p)) in
      concat (map snd (rev (dropWhile sp (rev (dropWhile sp (rune_chunks s)))))))"

lemma HasPrefix_append [simp]: "HasPrefix (p @ s) p"
  by (simp add: HasPrefix_def)

lemma HasPrefix_iff: "HasPrefix s p \<longleftrightarrow> (\<exists>t. s = p @ t)"
  by (metis HasPrefix_def HasPrefix_append append_take_drop_id)

lemma Contains_iff: "Contains s sub \<longleftrightarrow> (\<exists>a b. s = a @ sub @ b)"
proof (induction s)
  case Nil
  then show ?case by auto
next
  case (Cons c s)
  show ?case
  proof
    assume "Contains (c # s) sub"
    then consider "HasPrefix (c # s) sub" | "Contains s sub" by auto
    then show "\<exists>a b. c # s = a @ sub @ b"
    proof cases
      case 1
      then show ?thesis unfolding HasPrefix_iff by (metis append_Nil)
    next
      case 2
      then show ?thesis using Cons.IH by (metis append_Cons)
    qed
  next
    assume "\<exists>a b. c # s = a @ sub @ b"
    then obtain a b where ab: "c # s = a @ sub @ b" by blast
    show "Contains (c # s) sub"
    proof (cases a)
      case Nil
      with ab have "HasPrefix (c # s) sub" unfolding HasPrefix_iff by auto
      then show ?thesis by simp
    next
      case (Cons d a')
      with ab have "s = a' @ sub @ b" by simp
      with Cons.IH show ?thesis by auto
    qed
  qed
qed

lemma Contains_append: "Contains s sub \<Longrightarrow> Contains (s @ t) sub" "Contains t sub \<Longrightarrow> Contains (s @ t) sub"
  unfolding Contains_iff by (metis append.assoc)+

lemma Split_nonempty [simp]: "Split sep s \<noteq> []"
  by (induction s) (auto split: list.splits)

lemma Join_Cons_char: "ps \<noteq> [] \<Longrightarrow> Join ((c # hd ps) # tl ps) sep = c # Join ps sep"
  by (cases ps; cases "tl ps") auto

lemma Join_Split: "Join (Split sep s) [sep] = s"
proof (induction s)
  case Nil
  then show ?case by simp
next
  case (Cons c s)
  obtain p ps where S: "Split sep s = p # ps" by (meson Split_nonempty neq_Nil_conv)
  with Cons Join_Cons_char [of "p # ps"] show ?case by auto
qed

lemma Split_no_sep: "sep \<notin> set s \<Longrightarrow> Split sep s = [s]"
  by (induction s) auto

lemma Split_append_sep: "sep \<notin> set a \<Longrightarrow> Split sep (a @ sep # b) = a # Split sep b"
  by (induction a) auto

section \<open>Base64\<close>

text \<open>\<open>base64.StdEncoding\<close>, on the byte values of a string.\<close>

definition b64_char :: "nat \<Rightarrow> char" where
  "b64_char n = (if n < 26 then char_of (65 + n) else if n < 52 then char_of (71 + n)
     else if n < 62 then char_of (n - 4) else if n = 62 then CHR ''+'' else CHR ''/'')"

fun b64_encode :: "nat list \<Rightarrow> string" where
  "b64_encode [] = []"
| "b64_encode [a] = [b64_char (a div 4), b64_char (a mod 4 * 16), CHR ''='', CHR ''='']"
| "b64_encode [a, b] = [b64_char (a div 4), b64_char (a mod 4 * 16 + b div 16), b64_char (b mod 16 * 4), CHR ''='']"
| "b64_encode (a # b # c # r) =
     b64_char (a div 4) # b64_char (a mod 4 * 16 + b div 16) # b64_char (b mod 16 * 4 + c div 64)
       # b64_char (c mod 64) # b64_encode r"

definition EncodeToString :: "string \<Rightarrow> string" where
  "EncodeToString s = b64_encode (map of_char s)"

text \<open>Decoding, as the reader of a Secret manifest does it; it inverts the encoding.\<close>

definition b64_val :: "char \<Rightarrow> nat" where
  "b64_val c = (let n = of_char c :: nat in
     if 65 \<le> n \<and> n \<le> 90 then n - 65 else if 97 \<le> n \<and> n \<le> 122 then n - 71
     else if 48 \<le> n \<and> n \<le> 57 then n + 4 else if n = 43 then 62 else 63)"

fun b64_decode :: "string \<Rightarrow> nat list" where
  "b64_decode (p # q # r # s # cs) =
     (let a = b64_val p; b = b64_val q; c = b64_val r; d = b64_val s in
      if s \<noteq> CHR ''='' then (a * 4 + b div 16) # (b mod 16 * 16 + c div 4) # (c mod 4 * 64 + d) # b64_decode cs
      else if r \<noteq> CHR ''='' then [a * 4 + b div 16, b mod 16 * 16 + c div 4]
      else [a * 4 + b div 16])"
| "b64_decode _ = []"

lemma b64_val_char [simp]: "n < 64 \<Longrightarrow> b64_val (b64_char n) = n"
  by (auto simp: b64_val_def b64_char_def Let_def)

lemma b64_char_pad [simp]: "n < 64 \<Longrightarrow> b64_char n \<noteq> CHR ''=''"
proof
  assume "n < 64" and "b64_char n = CHR ''=''"
  then have "(of_char (b64_char n) :: nat) = 61" by simp
  with \<open>n < 64\<close> show False by (auto simp: b64_char_def split: if_splits)
qed

lemma b64_decode_encode: "\<forall>b \<in> set bs. b < 256 \<Longrightarrow> b64_decode (b64_encode bs) = bs"
proof (induction bs rule: b64_encode.induct)
  case (2 a)
  then have "a div 4 < 64" "a mod 4 * 16 < 64" by auto
  then show ?case by (simp add: Let_def)
next
  case (3 a b)
  then have "a div 4 < 64" "a mod 4 * 16 + b div 16 < 64" "b mod 16 * 4 < 64" by auto
  moreover have "(a mod 4 * 16 + b div 16) div 16 = a mod 4" "(a mod 4 * 16 + b div 16) mod 16 = b div 16"
    using 3 by auto
  ultimately show ?case by (simp add: Let_def)
next
  case (4 a b c r)
  then have "a div 4 < 64" "a mod 4 * 16 + b div 16 < 64" "b mod 16 * 4 + c div 64 < 64" "c mod 64 < 64" by auto
  moreover have "(a mod 4 * 16 + b div 16) div 16 = a mod 4" "(a mod 4 * 16 + b div 16) mod 16 = b div 16"
    "(b mod 16 * 4 + c div 64) div 4 = b mod 16" "(b mod 16 * 4 + c div 64) mod 4 = c div 64"
    using 4 by auto
  ultimately show ?case using 4 by (simp add: Let_def)
qed simp

definition DecodeString :: "string \<Rightarrow> string" where
  "DecodeString s = map char_of (b64_decode s)"

lemma DecodeString_EncodeToString [simp]: "DecodeString (EncodeToString s) = s"
proof -
  have "\<forall>b \<in> set (map of_char s). b < (256 :: nat)" by (auto simp: nat_of_char_less_256)
  then show ?thesis
    by (simp add: DecodeString_def EncodeToString_def b64_decode_encode map_idI)
qed

lemma EncodeToString_inj: "EncodeToString s = EncodeToString t \<longleftrightarrow> s = t"
  by (metis DecodeString_EncodeToString)

section \<open>Helpers of the controllers\<close>

definition orDefault :: "string \<Rightarrow> string \<Rightarrow> string" where
  "orDefault v d = (if v = '''' \<or> v = ''null'' then d else v)"

definition orInt :: "int \<Rightarrow> int \<Rightarrow> int" where
  "orInt v d = (if v = 0 then d else v)"

definition indent :: "string \<Rightarrow> string \<Rightarrow> string" where
  "indent s pad =
     concat (map (\<lambda>line. if line = [] then [newline] else pad @ line @ [newline]) (Split newline s))"

definition atoiOr :: "string \<Rightarrow> int \<Rightarrow> int" where
  "atoiOr s d = (case Atoi s of Some n \<Rightarrow> n mod 256 | None \<Rightarrow> d)"

end
