(* ===== verification/Api_Types.thy ===== *)
theory Api_Types
  imports Go_Text
begin

text \<open>
  The data the controllers exchange with the API server. The custom resources are the structs
  of \<open>operator/api/v1alpha1\<close>, field by field: a pointer that may be nil is an option, a Go
  \<open>int\<close> an \<^typ>\<open>int\<close>, a slice a list, a \<open>map[string]string\<close> a map. Of
  Kubernetes' own types only the fields the sources read or write are kept (a condition has no
  \<open>LastTransitionTime\<close>, which no code here sets or reads).
\<close>

section \<open>Kubernetes metadata\<close>

record GVK =
  gvk_Group :: string
  gvk_Version :: string
  gvk_Kind :: string

record OwnerReference =
  or_APIVersion :: string
  or_Kind :: string
  or_Name :: string
  or_UID :: string
  or_Controller :: "bool option"
  or_BlockOwnerDeletion :: "bool option"

record ObjectMeta =
  om_Name :: string
  om_Namespace :: string
  om_UID :: string
  om_ResourceVersion :: string
  om_Generation :: int
  om_Labels :: "(string \<times> string) list"
  om_Annotations :: "(string \<times> string) list"
  om_OwnerReferences :: "OwnerReference list"
  om_Finalizers :: "string list"
  om_DeletionTimestamp :: "int option"
  om_CreationTimestamp :: int

text \<open>The zero value of a metadata struct with a name and a namespace set.\<close>

definition named_meta :: "string \<Rightarrow> string \<Rightarrow> ObjectMeta" where
  "named_meta ns name = \<lparr>om_Name = name, om_Namespace = ns, om_UID = [], om_ResourceVersion = [],
     om_Generation = 0, om_Labels = [], om_Annotations = [], om_OwnerReferences = [],
     om_Finalizers = [], om_DeletionTimestamp = None, om_CreationTimestamp = 0\<rparr>"

lemma named_meta_simps [simp]:
  "om_Name (named_meta ns n) = n" "om_Namespace (named_meta ns n) = ns"
  "om_OwnerReferences (named_meta ns n) = []" "om_Labels (named_meta ns n) = []"
  by (simp_all add: named_meta_def)

datatype ConditionStatus = ConditionTrue | ConditionFalse | ConditionUnknown

record Condition =
  cond_Type :: string
  cond_Status :: ConditionStatus
  cond_Reason :: string
  cond_Message :: string
  cond_ObservedGeneration :: int

text \<open>\<open>ctrl.Result\<close>: when to run again, in nanoseconds, 0 for not at all.\<close>

record Result =
  RequeueAfter :: int

definition NoRequeue :: Result where
  "NoRequeue = \<lparr>RequeueAfter = 0\<rparr>"

definition Seconds :: "int \<Rightarrow> int" where
  "Seconds n = n * 1000000000"

definition requeue_seconds :: "int \<Rightarrow> Result" where
  "requeue_seconds n = \<lparr>RequeueAfter = Seconds n\<rparr>"

section \<open>EdgeSite and MeshLink\<close>

record RANOfh =
  ofh_Interface :: string
  ofh_RuMac :: string
  ofh_DuMac :: string
  ofh_VlanTag :: int
  ofh_EalArgs :: string
  ofh_PrachPortId :: "int list"
  ofh_DlPortId :: "int list"
  ofh_UlPortId :: "int list"

record RANCell =
  cell_Band :: string
  cell_DlArfcn :: int
  cell_BandwidthMHz :: int
  cell_CommonScs :: int
  cell_Pci :: int
  cell_Antennas :: int

record RANSpec =
  ran_Stack :: string
  ran_Enabled :: "bool option"
  ran_Split :: string
  ran_Device :: string
  ran_Config :: string
  ran_LdLibraryPath :: string
  ran_Cpuset :: string
  ran_RadioAddr :: string
  ran_RadioNic :: string
  ran_Cell :: RANCell
  ran_Ofh :: "RANOfh option"

record EdgeSiteSpec =
  es_Server :: string
  es_User :: string
  es_Role :: string
  es_ControlPlane :: string
  es_Colocated :: bool
  es_PodCIDR :: string
  es_SliceSD :: string
  es_UEPool :: string
  es_AccessCIDR :: string
  es_CoreCIDR :: string
  es_AccessGw :: string
  es_CoreGw :: string
  es_CoreNextHop :: string
  es_GnbIP :: string
  es_RanSubnet :: string
  es_N2VIP :: string
  es_RanNic :: string
  es_EgressNic :: string
  es_RAN :: "RANSpec option"

record EdgeSiteStatus =
  ess_Phase :: string
  ess_Message :: string
  ess_Cluster :: string
  ess_ObservedGeneration :: int
  ess_Conditions :: "Condition list"

record EdgeSite =
  es_Meta :: ObjectMeta
  es_Spec :: EdgeSiteSpec
  es_Status :: EdgeSiteStatus

record MeshLinkSpec =
  ml_Edge :: string
  ml_ControlPlane :: string
  ml_UPFName :: string

record MeshLinkStatus =
  mls_Phase :: string
  mls_Message :: string
  mls_Conditions :: "Condition list"

record MeshLink =
  ml_Meta :: ObjectMeta
  ml_Spec :: MeshLinkSpec
  ml_Status :: MeshLinkStatus

section \<open>Subscriber and NetworkSlice\<close>

record SubscriberSpec =
  sub_IMSI :: string
  sub_Key :: string
  sub_Opc :: string
  sub_SliceRef :: string
  sub_SequenceNumber :: string

record SubscriberStatus =
  subs_Phase :: string
  subs_Message :: string
  subs_Conditions :: "Condition list"

record Subscriber =
  sub_Meta :: ObjectMeta
  sub_Spec :: SubscriberSpec
  sub_Status :: SubscriberStatus

record PlmnId =
  plmn_Mcc :: string
  plmn_Mnc :: string

record GnbRef =
  gnb_Name :: string
  gnb_Tac :: int

record SliceQos =
  qos_MbrUplink :: int
  qos_MbrDownlink :: int

record NetworkSliceSpec =
  ns_Sst :: string
  ns_Sd :: string
  ns_Dnn :: string
  ns_UePool :: string
  ns_UpfName :: string
  ns_Plmn :: PlmnId
  ns_Gnbs :: "GnbRef list"
  ns_Qos :: SliceQos

record NetworkSliceStatus =
  nss_Phase :: string
  nss_Message :: string
  nss_Provisioned :: string
  nss_Conditions :: "Condition list"

record NetworkSlice =
  ns_Meta :: ObjectMeta
  ns_Spec :: NetworkSliceSpec
  ns_Status :: NetworkSliceStatus

section \<open>Fleet, NetworkFabric and UPFDataPath\<close>

record FleetSite =
  fs_Server :: string
  fs_User :: string
  fs_Role :: string
  fs_Name :: string
  fs_RAN :: "RANSpec option"

record FleetStatus =
  fls_Sites :: int
  fls_Message :: string
  fls_Conditions :: "Condition list"

record Fleet =
  fl_Meta :: ObjectMeta
  fl_Sites :: "FleetSite list"
  fl_Status :: FleetStatus

record FabricPrefix =
  fp_Prefix :: string
  fp_Labels :: "(string \<times> string) list"

record NetworkFabricStatus =
  nfs_LastReconcile :: string
  nfs_Conditions :: "Condition list"

record NetworkFabric =
  nf_Meta :: ObjectMeta
  nf_Prefixes :: "FabricPrefix list"
  nf_Status :: NetworkFabricStatus

record UPFDataPathSpec =
  dp_UEPool :: string
  dp_AccessGateway :: string
  dp_CoreGateway :: string
  dp_CoreNextHop :: string
  dp_AccessBridge :: string
  dp_CoreBridge :: string
  dp_GnbIP :: string
  dp_EgressNic :: string
  dp_UPFLabel :: string

record UPFDataPathStatus =
  dps_LastReconcile :: string
  dps_Node :: string
  dps_Conditions :: "Condition list"

record UPFDataPath =
  dp_Meta :: ObjectMeta
  dp_Spec :: UPFDataPathSpec
  dp_Status :: UPFDataPathStatus

section \<open>SDCoreDeployment and NFDeployment\<close>

record SDCoreDeploymentSpec =
  sd_Component :: string
  sd_Values :: "string option"
  sd_TargetNamespace :: string

record SDCoreDeploymentStatus =
  sds_Phase :: string
  sds_Message :: string
  sds_ReleaseRevision :: int
  sds_ObservedGeneration :: int
  sds_Conditions :: "Condition list"

record SDCoreDeployment =
  sd_Meta :: ObjectMeta
  sd_Spec :: SDCoreDeploymentSpec
  sd_Status :: SDCoreDeploymentStatus

text \<open>Of Nephio's \<open>NFDeployment\<close>, the fields \<open>nfdeployment_controller.go\<close> reads.\<close>

record IPv4 =
  ip4_Address :: string
  ip4_Gateway :: "string option"

record InterfaceConfig =
  ic_Name :: string
  ic_IPv4 :: "IPv4 option"

record NetworkInstance =
  ni_Interfaces :: "string list"
  ni_DataNetworks :: "string list list"

record NFDeployment =
  nfd_Meta :: ObjectMeta
  nfd_Provider :: string
  nfd_Interfaces :: "InterfaceConfig list"
  nfd_NetworkInstances :: "NetworkInstance list"
  nfd_Conditions :: "Condition list"

section \<open>Unstructured objects\<close>

text \<open>
  The value of a field of an \<open>unstructured.Unstructured\<close> object: what
  \<open>map[string]interface\<close> trees hold. A Go map is a list of its entries; the order of the
  entries means nothing, and \<open>reflect.DeepEqual\<close> compares entry by entry.
\<close>

datatype json =
    JStr string
  | JInt int
  | JBool bool
  | JList "json list"
  | JObj "(string \<times> json) list"

lemma size_zip_left [termination_simp]:
  "(a, b) \<in> set (zip xs ys) \<Longrightarrow> size a < Suc (size_list size xs)"
  using size_list_estimation' [of a xs "size a" size] by (auto dest: set_zip_leftD simp: le_imp_less_Suc)

fun DeepEqual :: "json \<Rightarrow> json \<Rightarrow> bool" where
  "DeepEqual (JStr a) (JStr b) = (a = b)"
| "DeepEqual (JInt a) (JInt b) = (a = b)"
| "DeepEqual (JBool a) (JBool b) = (a = b)"
| "DeepEqual (JList xs) (JList ys) = (length xs = length ys \<and> list_all (\<lambda>(x, y). DeepEqual x y) (zip xs ys))"
| "DeepEqual (JObj ps) (JObj qs) =
     (list_all (\<lambda>(k, v). case map_of qs k of Some v' \<Rightarrow> DeepEqual v v' | None \<Rightarrow> False) ps
      \<and> list_all (\<lambda>(k, v). k \<in> fst ` set ps) qs)"
| "DeepEqual _ _ = False"

text \<open>No key twice, at any depth: what every Go map satisfies.\<close>

fun json_wf :: "json \<Rightarrow> bool" where
  "json_wf (JList xs) = list_all json_wf xs"
| "json_wf (JObj ps) = (distinct (map fst ps) \<and> list_all (\<lambda>(k, v). json_wf v) ps)"
| "json_wf _ = True"

lemma DeepEqual_refl: "json_wf j \<Longrightarrow> DeepEqual j j"
proof (induction j)
  case (JList xs)
  then show ?case by (auto simp: list_all_iff set_zip in_set_conv_nth)
next
  case (JObj ps)
  have "case map_of ps k of Some v' \<Rightarrow> DeepEqual v v' | None \<Rightarrow> False" if "(k, v) \<in> set ps" for k v
  proof -
    from JObj.prems that have "map_of ps k = Some v" by simp
    moreover have "DeepEqual v v"
      using JObj.IH [OF that, of v] JObj.prems that by (auto simp: list_all_iff)
    ultimately show ?thesis by simp
  qed
  then show ?case by (force simp: list_all_iff)
qed auto

record Unstructured =
  u_GVK :: GVK
  u_Meta :: ObjectMeta
  u_Spec :: json

section \<open>Kubernetes core types\<close>

record Node =
  node_Meta :: ObjectMeta
  node_Addresses :: "(string \<times> string) list"

record Secret =
  sec_Meta :: ObjectMeta
  sec_Data :: "(string \<times> string) list"

record ServicePort =
  sp_Name :: string
  sp_Protocol :: string
  sp_Port :: int
  sp_TargetPort :: int

record Service =
  svc_Meta :: ObjectMeta
  svc_Selector :: "(string \<times> string) list"
  svc_Ports :: "ServicePort list"
  svc_ClusterIP :: string
  svc_IngressIPs :: "string list"

record EndpointSlice =
  eps_Meta :: ObjectMeta
  eps_AddressType :: string
  eps_Addresses :: "string list"
  eps_Ready :: bool
  eps_PortName :: string
  eps_Protocol :: string
  eps_Port :: int

record ContainerStatus =
  cs_Name :: string
  cs_Started :: "bool option"
  cs_RestartCount :: int

record Pod =
  pod_Meta :: ObjectMeta
  pod_Phase :: string
  pod_IP :: string
  pod_Conditions :: "(string \<times> string) list"
  pod_ContainerStatuses :: "ContainerStatus list"
  pod_InitContainerStatuses :: "ContainerStatus list"

section \<open>Zero values\<close>

definition zero_EdgeSiteSpec :: EdgeSiteSpec where
  "zero_EdgeSiteSpec = \<lparr>es_Server = [], es_User = [], es_Role = [], es_ControlPlane = [], es_Colocated = False,
     es_PodCIDR = [], es_SliceSD = [], es_UEPool = [], es_AccessCIDR = [], es_CoreCIDR = [], es_AccessGw = [],
     es_CoreGw = [], es_CoreNextHop = [], es_GnbIP = [], es_RanSubnet = [], es_N2VIP = [], es_RanNic = [],
     es_EgressNic = [], es_RAN = None\<rparr>"

definition zero_EdgeSiteStatus :: EdgeSiteStatus where
  "zero_EdgeSiteStatus = \<lparr>ess_Phase = [], ess_Message = [], ess_Cluster = [], ess_ObservedGeneration = 0, ess_Conditions = []\<rparr>"

text \<open>An \<open>EdgeSite\<close> as a user writes it: a name, a server, a role, everything else left out.\<close>

definition new_EdgeSite :: "string \<Rightarrow> string \<Rightarrow> string \<Rightarrow> string \<Rightarrow> EdgeSite" where
  "new_EdgeSite ns name server role = \<lparr>es_Meta = named_meta ns name,
     es_Spec = zero_EdgeSiteSpec\<lparr>es_Server := server, es_Role := role\<rparr>, es_Status = zero_EdgeSiteStatus\<rparr>"

end
