(* ===== verification/Kube_Client.thy ===== *)
theory Kube_Client
  imports Api_Types
begin

text \<open>
  The outside world of the controllers. The controller-runtime client, the HTTP client and
  \<open>meta.SetStatusCondition\<close> are not code of the repository, so they are parameters: records
  of operations over a world type \<open>'w\<close>, any of which may fail at any call. What the
  controllers rely on is stated as the laws of the locales below; the in-memory API server
  at the end satisfies them and evaluates.
\<close>

section \<open>Objects and keys\<close>

datatype kobject =
    KEdgeSite EdgeSite
  | KMeshLink MeshLink
  | KNetworkSlice NetworkSlice
  | KSubscriber Subscriber
  | KFleet Fleet
  | KNetworkFabric NetworkFabric
  | KUPFDataPath UPFDataPath
  | KSDCoreDeployment SDCoreDeployment
  | KNFDeployment NFDeployment
  | KUnstructured Unstructured
  | KNode Node
  | KSecret Secret
  | KService Service
  | KPod Pod
  | KEndpointSlice EndpointSlice

definition SchemeGroupVersion :: string where
  "SchemeGroupVersion = ''sdcore.nephio.io/v1alpha1''"

definition sdcoreGVK :: "string \<Rightarrow> GVK" where
  "sdcoreGVK kind = \<lparr>gvk_Group = ''sdcore.nephio.io'', gvk_Version = ''v1alpha1'', gvk_Kind = kind\<rparr>"

definition coreGVK :: "string \<Rightarrow> GVK" where
  "coreGVK kind = \<lparr>gvk_Group = '''', gvk_Version = ''v1'', gvk_Kind = kind\<rparr>"

definition nfdGVK :: GVK where
  "nfdGVK = \<lparr>gvk_Group = ''workload.nephio.org'', gvk_Version = ''v1alpha1'', gvk_Kind = ''NFDeployment''\<rparr>"

definition epsGVK :: GVK where
  "epsGVK = \<lparr>gvk_Group = ''discovery.k8s.io'', gvk_Version = ''v1'', gvk_Kind = ''EndpointSlice''\<rparr>"

fun gvk_of :: "kobject \<Rightarrow> GVK" where
  "gvk_of (KEdgeSite x) = sdcoreGVK ''EdgeSite''"
| "gvk_of (KMeshLink x) = sdcoreGVK ''MeshLink''"
| "gvk_of (KNetworkSlice x) = sdcoreGVK ''NetworkSlice''"
| "gvk_of (KSubscriber x) = sdcoreGVK ''Subscriber''"
| "gvk_of (KFleet x) = sdcoreGVK ''Fleet''"
| "gvk_of (KNetworkFabric x) = sdcoreGVK ''NetworkFabric''"
| "gvk_of (KUPFDataPath x) = sdcoreGVK ''UPFDataPath''"
| "gvk_of (KSDCoreDeployment x) = sdcoreGVK ''SDCoreDeployment''"
| "gvk_of (KNFDeployment x) = nfdGVK"
| "gvk_of (KUnstructured x) = u_GVK x"
| "gvk_of (KNode x) = coreGVK ''Node''"
| "gvk_of (KSecret x) = coreGVK ''Secret''"
| "gvk_of (KService x) = coreGVK ''Service''"
| "gvk_of (KPod x) = coreGVK ''Pod''"
| "gvk_of (KEndpointSlice x) = epsGVK"

fun meta_of :: "kobject \<Rightarrow> ObjectMeta" where
  "meta_of (KEdgeSite x) = es_Meta x"
| "meta_of (KMeshLink x) = ml_Meta x"
| "meta_of (KNetworkSlice x) = ns_Meta x"
| "meta_of (KSubscriber x) = sub_Meta x"
| "meta_of (KFleet x) = fl_Meta x"
| "meta_of (KNetworkFabric x) = nf_Meta x"
| "meta_of (KUPFDataPath x) = dp_Meta x"
| "meta_of (KSDCoreDeployment x) = sd_Meta x"
| "meta_of (KNFDeployment x) = nfd_Meta x"
| "meta_of (KUnstructured x) = u_Meta x"
| "meta_of (KNode x) = node_Meta x"
| "meta_of (KSecret x) = sec_Meta x"
| "meta_of (KService x) = svc_Meta x"
| "meta_of (KPod x) = pod_Meta x"
| "meta_of (KEndpointSlice x) = eps_Meta x"

fun map_meta :: "(ObjectMeta \<Rightarrow> ObjectMeta) \<Rightarrow> kobject \<Rightarrow> kobject" where
  "map_meta f (KEdgeSite x) = KEdgeSite (x\<lparr>es_Meta := f (es_Meta x)\<rparr>)"
| "map_meta f (KMeshLink x) = KMeshLink (x\<lparr>ml_Meta := f (ml_Meta x)\<rparr>)"
| "map_meta f (KNetworkSlice x) = KNetworkSlice (x\<lparr>ns_Meta := f (ns_Meta x)\<rparr>)"
| "map_meta f (KSubscriber x) = KSubscriber (x\<lparr>sub_Meta := f (sub_Meta x)\<rparr>)"
| "map_meta f (KFleet x) = KFleet (x\<lparr>fl_Meta := f (fl_Meta x)\<rparr>)"
| "map_meta f (KNetworkFabric x) = KNetworkFabric (x\<lparr>nf_Meta := f (nf_Meta x)\<rparr>)"
| "map_meta f (KUPFDataPath x) = KUPFDataPath (x\<lparr>dp_Meta := f (dp_Meta x)\<rparr>)"
| "map_meta f (KSDCoreDeployment x) = KSDCoreDeployment (x\<lparr>sd_Meta := f (sd_Meta x)\<rparr>)"
| "map_meta f (KNFDeployment x) = KNFDeployment (x\<lparr>nfd_Meta := f (nfd_Meta x)\<rparr>)"
| "map_meta f (KUnstructured x) = KUnstructured (x\<lparr>u_Meta := f (u_Meta x)\<rparr>)"
| "map_meta f (KNode x) = KNode (x\<lparr>node_Meta := f (node_Meta x)\<rparr>)"
| "map_meta f (KSecret x) = KSecret (x\<lparr>sec_Meta := f (sec_Meta x)\<rparr>)"
| "map_meta f (KService x) = KService (x\<lparr>svc_Meta := f (svc_Meta x)\<rparr>)"
| "map_meta f (KPod x) = KPod (x\<lparr>pod_Meta := f (pod_Meta x)\<rparr>)"
| "map_meta f (KEndpointSlice x) = KEndpointSlice (x\<lparr>eps_Meta := f (eps_Meta x)\<rparr>)"

lemma meta_of_map_meta [simp]: "meta_of (map_meta f x) = f (meta_of x)"
  by (cases x) auto

lemma gvk_of_map_meta [simp]: "gvk_of (map_meta f x) = gvk_of x"
  by (cases x) auto

text \<open>The declared part of an object: what its author writes, and the server stores as written.\<close>

datatype kspec =
    SEdgeSite EdgeSiteSpec
  | SMeshLink MeshLinkSpec
  | SNetworkSlice NetworkSliceSpec
  | SSubscriber SubscriberSpec
  | SFleet "FleetSite list"
  | SNetworkFabric "FabricPrefix list"
  | SUPFDataPath UPFDataPathSpec
  | SSDCoreDeployment SDCoreDeploymentSpec
  | SUnstructured json
  | SService "(string \<times> string) list" "ServicePort list"
  | SEndpointSlice string "string list" bool string string int
  | SOther

fun spec_of :: "kobject \<Rightarrow> kspec" where
  "spec_of (KEdgeSite x) = SEdgeSite (es_Spec x)"
| "spec_of (KMeshLink x) = SMeshLink (ml_Spec x)"
| "spec_of (KNetworkSlice x) = SNetworkSlice (ns_Spec x)"
| "spec_of (KSubscriber x) = SSubscriber (sub_Spec x)"
| "spec_of (KFleet x) = SFleet (fl_Sites x)"
| "spec_of (KNetworkFabric x) = SNetworkFabric (nf_Prefixes x)"
| "spec_of (KUPFDataPath x) = SUPFDataPath (dp_Spec x)"
| "spec_of (KSDCoreDeployment x) = SSDCoreDeployment (sd_Spec x)"
| "spec_of (KUnstructured x) = SUnstructured (u_Spec x)"
| "spec_of (KService x) = SService (svc_Selector x) (svc_Ports x)"
| "spec_of (KEndpointSlice x) = SEndpointSlice (eps_AddressType x) (eps_Addresses x) (eps_Ready x) (eps_PortName x) (eps_Protocol x) (eps_Port x)"
| "spec_of _ = SOther"

lemma spec_of_map_meta [simp]: "spec_of (map_meta f x) = spec_of x"
  by (cases x) auto

record ObjectKey =
  key_GVK :: GVK
  key_Namespace :: string
  key_Name :: string

definition key_of :: "kobject \<Rightarrow> ObjectKey" where
  "key_of x = \<lparr>key_GVK = gvk_of x, key_Namespace = om_Namespace (meta_of x), key_Name = om_Name (meta_of x)\<rparr>"

definition mk_key :: "GVK \<Rightarrow> string \<Rightarrow> string \<Rightarrow> ObjectKey" where
  "mk_key g ns n = \<lparr>key_GVK = g, key_Namespace = ns, key_Name = n\<rparr>"

lemma mk_key_eq [simp]: "mk_key g ns n = mk_key g' ns' n' \<longleftrightarrow> g = g' \<and> ns = ns' \<and> n = n'"
  by (auto simp: mk_key_def)

lemma key_of_mk_key: "key_of x = mk_key (gvk_of x) (om_Namespace (meta_of x)) (om_Name (meta_of x))"
  by (simp add: key_of_def mk_key_def)

text \<open>Same object and same declared content: key, declared fields, labels, annotations, owners.\<close>

definition same_intent :: "kobject \<Rightarrow> kobject \<Rightarrow> bool" where
  "same_intent a b \<longleftrightarrow> key_of a = key_of b \<and> spec_of a = spec_of b
     \<and> om_Labels (meta_of a) = om_Labels (meta_of b) \<and> om_Annotations (meta_of a) = om_Annotations (meta_of b)
     \<and> om_OwnerReferences (meta_of a) = om_OwnerReferences (meta_of b)"

lemma same_intent_refl [simp]: "same_intent a a"
  by (simp add: same_intent_def)

lemma same_intent_key: "same_intent a b \<Longrightarrow> key_of b = key_of a"
  by (simp add: same_intent_def)

lemma same_intentD:
  assumes "same_intent a b"
  shows "spec_of b = spec_of a" and "om_OwnerReferences (meta_of b) = om_OwnerReferences (meta_of a)" and "key_of b = key_of a"
  using assms unfolding same_intent_def by simp_all

section \<open>The client\<close>

text \<open>\<open>LabelSelector\<close> is a parsed \<open>labels.Selector\<close>, as the predicate on label sets it stands for.\<close>

datatype ListOption =
    InNamespace string
  | MatchingLabels "(string \<times> string) list"
  | LabelSelector "(string \<times> string) list \<Rightarrow> bool"

fun matches_option :: "ListOption \<Rightarrow> kobject \<Rightarrow> bool" where
  "matches_option (InNamespace ns) x = (om_Namespace (meta_of x) = ns)"
| "matches_option (MatchingLabels ls) x = list_all (\<lambda>(k, v). map_of (om_Labels (meta_of x)) k = Some v) ls"
| "matches_option (LabelSelector sel) x = sel (om_Labels (meta_of x))"

record 'w kclient =
  kGet :: "ObjectKey \<Rightarrow> ('w, error + kobject) io"
  kList :: "GVK \<Rightarrow> ListOption list \<Rightarrow> ('w, error + kobject list) io"
  kCreate :: "kobject \<Rightarrow> ('w, error + kobject) io"
  kUpdate :: "kobject \<Rightarrow> ('w, error + kobject) io"
  kStatusUpdate :: "kobject \<Rightarrow> ('w, error + kobject) io"
  kDelete :: "kobject \<Rightarrow> ('w, error option) io"

text \<open>The error part of a write, when the object the server returns is not used.\<close>

fun err_of :: "error + 'a \<Rightarrow> error option" where
  "err_of (Inl e) = Some e"
| "err_of (Inr x) = None"

text \<open>Reading into a typed object: an answer of another kind is a decoding error.\<close>

definition decode_error :: error where
  "decode_error = ErrorString ''unable to decode response into the requested type''"

fun as_EdgeSite :: "kobject \<Rightarrow> EdgeSite option" where
  "as_EdgeSite (KEdgeSite x) = Some x" | "as_EdgeSite _ = None"
fun as_MeshLink :: "kobject \<Rightarrow> MeshLink option" where
  "as_MeshLink (KMeshLink x) = Some x" | "as_MeshLink _ = None"
fun as_NetworkSlice :: "kobject \<Rightarrow> NetworkSlice option" where
  "as_NetworkSlice (KNetworkSlice x) = Some x" | "as_NetworkSlice _ = None"
fun as_Subscriber :: "kobject \<Rightarrow> Subscriber option" where
  "as_Subscriber (KSubscriber x) = Some x" | "as_Subscriber _ = None"
fun as_Fleet :: "kobject \<Rightarrow> Fleet option" where
  "as_Fleet (KFleet x) = Some x" | "as_Fleet _ = None"
fun as_NetworkFabric :: "kobject \<Rightarrow> NetworkFabric option" where
  "as_NetworkFabric (KNetworkFabric x) = Some x" | "as_NetworkFabric _ = None"
fun as_UPFDataPath :: "kobject \<Rightarrow> UPFDataPath option" where
  "as_UPFDataPath (KUPFDataPath x) = Some x" | "as_UPFDataPath _ = None"
fun as_Unstructured :: "kobject \<Rightarrow> Unstructured option" where
  "as_Unstructured (KUnstructured x) = Some x" | "as_Unstructured _ = None"
fun as_Node :: "kobject \<Rightarrow> Node option" where
  "as_Node (KNode x) = Some x" | "as_Node _ = None"
fun as_Secret :: "kobject \<Rightarrow> Secret option" where
  "as_Secret (KSecret x) = Some x" | "as_Secret _ = None"

fun as_Service :: "kobject \<Rightarrow> Service option" where
  "as_Service (KService x) = Some x" | "as_Service _ = None"
fun as_Pod :: "kobject \<Rightarrow> Pod option" where
  "as_Pod (KPod x) = Some x" | "as_Pod _ = None"
fun as_EndpointSlice :: "kobject \<Rightarrow> EndpointSlice option" where
  "as_EndpointSlice (KEndpointSlice x) = Some x" | "as_EndpointSlice _ = None"
fun as_SDCoreDeployment :: "kobject \<Rightarrow> SDCoreDeployment option" where
  "as_SDCoreDeployment (KSDCoreDeployment x) = Some x" | "as_SDCoreDeployment _ = None"
fun as_NFDeployment :: "kobject \<Rightarrow> NFDeployment option" where
  "as_NFDeployment (KNFDeployment x) = Some x" | "as_NFDeployment _ = None"

definition decode_as :: "(kobject \<Rightarrow> 'a option) \<Rightarrow> error + kobject \<Rightarrow> error + 'a" where
  "decode_as f r = (case r of Inl e \<Rightarrow> Inl e
     | Inr x \<Rightarrow> (case f x of None \<Rightarrow> Inl decode_error | Some y \<Rightarrow> Inr y))"

definition decode_list :: "(kobject \<Rightarrow> 'a option) \<Rightarrow> error + kobject list \<Rightarrow> error + 'a list" where
  "decode_list f r = (case r of Inl e \<Rightarrow> Inl e
     | Inr xs \<Rightarrow> (case those_of f xs of None \<Rightarrow> Inl decode_error | Some ys \<Rightarrow> Inr ys))"

definition get_as :: "'w kclient \<Rightarrow> (kobject \<Rightarrow> 'a option) \<Rightarrow> ObjectKey \<Rightarrow> ('w, error + 'a) io" where
  "get_as c f k = do { r \<leftarrow> kGet c k; ret (decode_as f r) }"

definition list_as :: "'w kclient \<Rightarrow> (kobject \<Rightarrow> 'a option) \<Rightarrow> GVK \<Rightarrow> ListOption list \<Rightarrow> ('w, error + 'a list) io" where
  "list_as c f g os = do { r \<leftarrow> kList c g os; ret (decode_list f r) }"

lemma as_simps:
  "as_EdgeSite x = Some es \<longleftrightarrow> x = KEdgeSite es"
  "as_Fleet x = Some fl \<longleftrightarrow> x = KFleet fl"
  "as_MeshLink x = Some ml \<longleftrightarrow> x = KMeshLink ml"
  "as_Secret x = Some sec \<longleftrightarrow> x = KSecret sec"
  "as_Node x = Some nd \<longleftrightarrow> x = KNode nd"
  "as_Unstructured x = Some u \<longleftrightarrow> x = KUnstructured u"
  "as_NetworkFabric x = Some nf \<longleftrightarrow> x = KNetworkFabric nf"
  "as_NetworkSlice x = Some sl \<longleftrightarrow> x = KNetworkSlice sl"
  "as_Subscriber x = Some sb \<longleftrightarrow> x = KSubscriber sb"
  "as_UPFDataPath x = Some dp \<longleftrightarrow> x = KUPFDataPath dp"
  "as_Service x = Some sv \<longleftrightarrow> x = KService sv"
  "as_Pod x = Some pd \<longleftrightarrow> x = KPod pd"
  "as_EndpointSlice x = Some ep \<longleftrightarrow> x = KEndpointSlice ep"
  "as_SDCoreDeployment x = Some sd \<longleftrightarrow> x = KSDCoreDeployment sd"
  "as_NFDeployment x = Some nd' \<longleftrightarrow> x = KNFDeployment nd'"
  by (cases x; auto)+

lemma decode_as_Inr: "decode_as f r = Inr y \<longleftrightarrow> (\<exists>x. r = Inr x \<and> f x = Some y)"
  by (auto simp: decode_as_def split: sum.splits option.splits)

lemma decode_list_Inr: "decode_list f r = Inr ys \<longleftrightarrow> (\<exists>xs. r = Inr xs \<and> those_of f xs = Some ys)"
  by (auto simp: decode_list_def split: sum.splits option.splits)

section \<open>HTTP and the apimachinery helpers\<close>

text \<open>
  A request carries the JSON value of its body; a response the status code, the text of its
  body, and the JSON value the text decodes to (\<open>None\<close> when it is malformed).
\<close>

record HttpRequest =
  rq_Verb :: string
  rq_URL :: string
  rq_User :: string
  rq_Pass :: string
  rq_Body :: "json option"

record HttpResponse =
  rs_StatusCode :: int
  rs_Body :: string
  rs_Json :: "json option"

text \<open>
  \<open>url_check\<close> is the check of the URL that \<open>http.NewRequestWithContext\<close> makes,
  \<open>now_rfc3339\<close> is \<open>time.Now().UTC().Format(time.RFC3339)\<close>.
\<close>

record 'w env =
  httpDo :: "HttpRequest \<Rightarrow> ('w, error + HttpResponse) io"
  url_check :: "string \<Rightarrow> error option"
  SetStatusCondition :: "Condition list \<Rightarrow> Condition \<Rightarrow> Condition list"
  now_rfc3339 :: "('w, string) io"

definition setCondition ::
    "'w env \<Rightarrow> Condition list \<Rightarrow> string \<Rightarrow> ConditionStatus \<Rightarrow> string \<Rightarrow> string \<Rightarrow> int \<Rightarrow> Condition list" where
  "setCondition E conds condType status reason message generation =
     SetStatusCondition E conds \<lparr>cond_Type = condType, cond_Status = status, cond_Reason = reason,
       cond_Message = message, cond_ObservedGeneration = generation\<rparr>"

definition find_cond :: "string \<Rightarrow> Condition list \<Rightarrow> Condition option" where
  "find_cond t cs = find (\<lambda>c. cond_Type c = t) cs"

end
