(* ===== verification/Kube_Laws.thy ===== *)
theory Kube_Laws
  imports Kube_Client
begin

text \<open>
  What the controllers rely on of the API server and of \<open>meta.SetStatusCondition\<close>, as
  locales, with an in-memory API server that satisfies them. Every law is conditional on the
  call having succeeded: any call may fail instead, and a call that failed changed nothing.
\<close>

section \<open>Conditions\<close>

text \<open>\<open>meta.SetStatusCondition\<close>: the condition of that type becomes the given one, the others stay.\<close>

locale status_conditions =
  fixes set_cond :: "Condition list \<Rightarrow> Condition \<Rightarrow> Condition list"
  assumes set_cond_found: "find_cond (cond_Type c) (set_cond cs c) = Some c"
    and set_cond_other: "t \<noteq> cond_Type c \<Longrightarrow> find_cond t (set_cond cs c) = find_cond t cs"
begin

lemma set_cond_twice: "find_cond t (set_cond (set_cond cs c) c) = find_cond t (set_cond cs c)"
  by (cases "t = cond_Type c") (simp_all add: set_cond_found set_cond_other)

end

fun put_condition :: "Condition list \<Rightarrow> Condition \<Rightarrow> Condition list" where
  "put_condition [] c = [c]"
| "put_condition (d # ds) c = (if cond_Type d = cond_Type c then c # ds else d # put_condition ds c)"

interpretation put_condition: status_conditions put_condition
proof
  fix c cs
  show "find_cond (cond_Type c) (put_condition cs c) = Some c"
    by (induction cs) (auto simp: find_cond_def)
next
  fix t cs and c :: Condition
  assume "t \<noteq> cond_Type c"
  then show "find_cond t (put_condition cs c) = find_cond t cs"
    by (induction cs) (auto simp: find_cond_def)
qed

lemma setCondition_found:
  assumes "status_conditions (SetStatusCondition E)"
  shows "find_cond t (setCondition E cs t st reason msg g) = Some \<lparr>cond_Type = t, cond_Status = st,
    cond_Reason = reason, cond_Message = msg, cond_ObservedGeneration = g\<rparr>"
  using status_conditions.set_cond_found [OF assms, of "\<lparr>cond_Type = t, cond_Status = st, cond_Reason = reason,
    cond_Message = msg, cond_ObservedGeneration = g\<rparr>" cs] by (simp add: setCondition_def)

section \<open>The API server\<close>

text \<open>
  \<open>view w k\<close> is the object the server holds under a key. The declared content of an object
  is stored as it was sent; the status is written through its own sub-resource and changes
  nothing else. An object marked for deletion exists as long as it has finalizers: an update
  that takes the last one away removes it. The laws describe a server whose objects are changed
  by the calls of one reconciler at a time, which is what the sources rely on between a read
  and the write that follows it.
\<close>

definition live :: "kobject \<Rightarrow> bool" where
  "live x \<longleftrightarrow> om_DeletionTimestamp (meta_of x) = None \<or> om_Finalizers (meta_of x) \<noteq> []"

text \<open>What only its author and the server's deletion change: declared part, finalizers, owners, deletion mark.\<close>

definition lasting :: "kobject \<Rightarrow> kspec \<times> string list \<times> OwnerReference list \<times> int option" where
  "lasting x = (spec_of x, om_Finalizers (meta_of x), om_OwnerReferences (meta_of x), om_DeletionTimestamp (meta_of x))"

text \<open>\<open>put_status a b\<close>: the object \<open>a\<close> with the status of \<open>b\<close>, for the kinds with a status sub-resource.\<close>

definition put_status :: "kobject \<Rightarrow> kobject \<Rightarrow> kobject" where
  "put_status a b = (case a of
      KEdgeSite x \<Rightarrow> (case b of KEdgeSite y \<Rightarrow> KEdgeSite (x\<lparr>es_Status := es_Status y\<rparr>) | _ \<Rightarrow> a)
    | KMeshLink x \<Rightarrow> (case b of KMeshLink y \<Rightarrow> KMeshLink (x\<lparr>ml_Status := ml_Status y\<rparr>) | _ \<Rightarrow> a)
    | KNetworkSlice x \<Rightarrow> (case b of KNetworkSlice y \<Rightarrow> KNetworkSlice (x\<lparr>ns_Status := ns_Status y\<rparr>) | _ \<Rightarrow> a)
    | KSubscriber x \<Rightarrow> (case b of KSubscriber y \<Rightarrow> KSubscriber (x\<lparr>sub_Status := sub_Status y\<rparr>) | _ \<Rightarrow> a)
    | KFleet x \<Rightarrow> (case b of KFleet y \<Rightarrow> KFleet (x\<lparr>fl_Status := fl_Status y\<rparr>) | _ \<Rightarrow> a)
    | KNetworkFabric x \<Rightarrow> (case b of KNetworkFabric y \<Rightarrow> KNetworkFabric (x\<lparr>nf_Status := nf_Status y\<rparr>) | _ \<Rightarrow> a)
    | KUPFDataPath x \<Rightarrow> (case b of KUPFDataPath y \<Rightarrow> KUPFDataPath (x\<lparr>dp_Status := dp_Status y\<rparr>) | _ \<Rightarrow> a)
    | KSDCoreDeployment x \<Rightarrow> (case b of KSDCoreDeployment y \<Rightarrow> KSDCoreDeployment (x\<lparr>sd_Status := sd_Status y\<rparr>) | _ \<Rightarrow> a)
    | KNFDeployment x \<Rightarrow> (case b of KNFDeployment y \<Rightarrow> KNFDeployment (x\<lparr>nfd_Conditions := nfd_Conditions y\<rparr>) | _ \<Rightarrow> a)
    | _ \<Rightarrow> a)"

lemma put_status_simps [simp]:
  "meta_of (put_status a b) = meta_of a" "gvk_of (put_status a b) = gvk_of a" "spec_of (put_status a b) = spec_of a"
  by (cases a; cases b; simp add: put_status_def)+

locale kube_api =
  fixes c :: "'w kclient" and view :: "'w \<Rightarrow> ObjectKey \<Rightarrow> kobject option"
  assumes view_key: "view w k = Some x \<Longrightarrow> key_of x = k"
    and view_live: "view w k = Some x \<Longrightarrow> live x"
    and get_ok: "run_state (kGet c k) w = (Inr x, w') \<Longrightarrow> view w k = Some x"
    and get_missing: "run_state (kGet c k) w = (Inl e, w') \<Longrightarrow> IsNotFound e \<Longrightarrow> view w k = None"
    and get_frame: "frame view (kGet c k)"
    and list_ok: "run_state (kList c g os) w = (Inr xs, w') \<Longrightarrow>
      set xs = {x. gvk_of x = g \<and> view w (key_of x) = Some x \<and> (\<forall>opt \<in> set os. matches_option opt x)}"
    and list_frame: "frame view (kList c g os)"
    and create_ok: "run_state (kCreate c x) w = (Inr y, w') \<Longrightarrow>
      view w (key_of x) = None \<and> same_intent x y \<and> om_DeletionTimestamp (meta_of y) = None
      \<and> om_Finalizers (meta_of y) = om_Finalizers (meta_of x) \<and> view w' = (view w)(key_of x \<mapsto> y)"
    and create_err: "run_state (kCreate c x) w = (Inl e, w') \<Longrightarrow> view w' = view w"
    and update_ok: "run_state (kUpdate c x) w = (Inr y, w') \<Longrightarrow>
      same_intent x y \<and> om_Finalizers (meta_of y) = om_Finalizers (meta_of x)
      \<and> (\<exists>z. view w (key_of x) = Some z \<and> om_DeletionTimestamp (meta_of y) = om_DeletionTimestamp (meta_of z))
      \<and> view w' = (view w)(key_of x := (if live y then Some y else None))"
    and update_err: "run_state (kUpdate c x) w = (Inl e, w') \<Longrightarrow> view w' = view w"
    and status_ok: "run_state (kStatusUpdate c x) w = (Inr y, w') \<Longrightarrow>
      (\<exists>z. view w (key_of x) = Some z \<and> same_intent z y \<and> om_Finalizers (meta_of y) = om_Finalizers (meta_of z)
         \<and> om_DeletionTimestamp (meta_of y) = om_DeletionTimestamp (meta_of z)) \<and> put_status y x = y \<and> view w' = (view w)(key_of x \<mapsto> y)"
    and status_err: "run_state (kStatusUpdate c x) w = (Inl e, w') \<Longrightarrow> view w' = view w"
    and delete_ok: "run_state (kDelete c x) w = (None, w') \<Longrightarrow>
      (\<forall>k. k \<noteq> key_of x \<longrightarrow> view w' k = view w k) \<and>
      (\<forall>y. view w' (key_of x) = Some y \<longrightarrow> om_DeletionTimestamp (meta_of y) \<noteq> None
         \<and> (\<exists>z. view w (key_of x) = Some z \<and> same_intent z y))"
    and delete_err: "run_state (kDelete c x) w = (Some e, w') \<Longrightarrow> view w' = view w"
    and delete_missing: "run_state (kDelete c x) w = (Some e, w') \<Longrightarrow> IsNotFound e \<Longrightarrow> view w (key_of x) = None"
begin

lemma get_as_frame: "frame view (get_as c f k)"
  unfolding get_as_def by (intro frame_intros get_frame)

lemma list_as_frame: "frame view (list_as c f g os)"
  unfolding list_as_def by (intro frame_intros list_frame)

lemma get_as_ok:
  assumes "run_state (get_as c f k) w = (Inr y, w')"
  shows "\<exists>x. view w k = Some x \<and> f x = Some y"
proof -
  obtain r w1 where r: "run_state (kGet c k) w = (r, w1)" by force
  with assms have "decode_as f r = Inr y" by (simp add: get_as_def)
  then obtain x where "r = Inr x" and "f x = Some y" unfolding decode_as_Inr by blast
  with r get_ok show ?thesis by blast
qed

lemma get_as_missing:
  assumes "run_state (get_as c f k) w = (Inl e, w')" and "IsNotFound e"
  shows "view w k = None"
proof -
  obtain r w1 where r: "run_state (kGet c k) w = (r, w1)" by force
  with assms have d: "decode_as f r = Inl e" by (simp add: get_as_def)
  have "r = Inl e"
    using d assms(2) by (auto simp: decode_as_def decode_error_def split: sum.splits option.splits)
  with r get_missing [OF _ assms(2)] show ?thesis by blast
qed

lemma list_as_ok:
  assumes "run_state (list_as c f g os) w = (Inr ys, w')"
  shows "y \<in> set ys \<longleftrightarrow> (\<exists>x. gvk_of x = g \<and> view w (key_of x) = Some x
    \<and> (\<forall>opt \<in> set os. matches_option opt x) \<and> f x = Some y)"
proof -
  obtain r w1 where r: "run_state (kList c g os) w = (r, w1)" by force
  with assms have "decode_list f r = Inr ys" by (simp add: list_as_def)
  then obtain xs where xs: "r = Inr xs" and t: "those_of f xs = Some ys"
    unfolding decode_list_Inr by blast
  show ?thesis
    unfolding set_those_of [OF t] using list_ok [of g os w xs w1] r xs by auto
qed

text \<open>An update that keeps the finalizers of the stored object is stored.\<close>

lemma update_live:
  assumes "run_state (kUpdate c x) w = (Inr y, w')" and "view w (key_of x) = Some z"
    and "om_Finalizers (meta_of x) = om_Finalizers (meta_of z)"
  shows "same_intent x y \<and> view w' = (view w)(key_of x \<mapsto> y)"
  using update_ok [OF assms(1)] view_live [OF assms(2)] assms(2,3) by (auto simp: live_def)

text \<open>A status write changes one object and there the status only, or nothing.\<close>

lemma status_other:
  assumes "run_state (kStatusUpdate c x) w = (res, w')" and "k \<noteq> key_of x"
  shows "view w' k = view w k"
  using assms status_ok [of x w _ w'] status_err [of x w _ w'] by (cases res) auto

lemma status_written:
  assumes "run_state (kStatusUpdate c x) w = (res, w')" and "view w (key_of x) = Some z"
  shows "view w' (key_of x) = Some z \<or> (\<exists>y. view w' (key_of x) = Some y \<and> same_intent z y \<and> put_status y x = y
      \<and> om_Finalizers (meta_of y) = om_Finalizers (meta_of z))"
proof (cases res)
  case (Inl e)
  with assms status_err show ?thesis by auto
next
  case (Inr y)
  with assms status_ok [of x w y w'] show ?thesis by auto
qed

text \<open>A status write changes nothing of what lasts, whether it succeeded or not.\<close>

lemma status_lasting: "frame (\<lambda>w. map_option lasting (view w k)) (kStatusUpdate c x)"
  unfolding frame_def
proof
  fix w
  obtain r w' where r: "run_state (kStatusUpdate c x) w = (r, w')" by force
  show "map_option lasting (view (snd (run_state (kStatusUpdate c x) w)) k) = map_option lasting (view w k)"
  proof (cases r)
    case (Inl e)
    with r status_err show ?thesis by simp
  next
    case (Inr y)
    with r status_ok [of x w y w'] show ?thesis by (auto simp: lasting_def same_intent_def)
  qed
qed

text \<open>A status write changes no declared content, whether it succeeded or not.\<close>

lemma status_keeps_intent:
  assumes "run_state (kStatusUpdate c x) w = (r, w')" and "view w k = Some y"
  shows "\<exists>z. view w' k = Some z \<and> same_intent y z"
proof (cases r)
  case (Inl e)
  with assms status_err show ?thesis by auto
next
  case (Inr z)
  with assms status_ok [of x w z w'] show ?thesis
    by (cases "k = key_of x") (auto simp: same_intent_def)
qed

end

section \<open>An in-memory API server\<close>

text \<open>
  A store of objects with a revision counter: \<open>Create\<close> refuses an existing key, \<open>Update\<close>
  refuses a missing one and a stale resource version and keeps the stored status, the status
  sub-resource replaces the status only, \<open>Delete\<close> removes an object without finalizers
  and marks one that has some.
\<close>

record cluster =
  cl_objects :: "kobject list"
  cl_revision :: nat

definition cl_view :: "'x cluster_scheme \<Rightarrow> ObjectKey \<Rightarrow> kobject option" where
  "cl_view w k = find (\<lambda>x. key_of x = k \<and> live x) (cl_objects w)"

definition stamp :: "nat \<Rightarrow> kobject \<Rightarrow> kobject" where
  "stamp n x = map_meta (\<lambda>m. m\<lparr>om_ResourceVersion := nat_str n\<rparr>) x"

lemma stamp_simps [simp]:
  "gvk_of (stamp n x) = gvk_of x" "spec_of (stamp n x) = spec_of x"
  "om_Name (meta_of (stamp n x)) = om_Name (meta_of x)"
  "om_Namespace (meta_of (stamp n x)) = om_Namespace (meta_of x)"
  "om_Labels (meta_of (stamp n x)) = om_Labels (meta_of x)"
  "om_Annotations (meta_of (stamp n x)) = om_Annotations (meta_of x)"
  "om_OwnerReferences (meta_of (stamp n x)) = om_OwnerReferences (meta_of x)"
  "om_Finalizers (meta_of (stamp n x)) = om_Finalizers (meta_of x)"
  "om_DeletionTimestamp (meta_of (stamp n x)) = om_DeletionTimestamp (meta_of x)"
  "live (stamp n x) = live x"
  by (simp_all add: live_def stamp_def)

lemma key_of_stored [simp]: "key_of (stamp n x) = key_of x" "key_of (put_status a b) = key_of a"
  by (simp_all add: key_of_def)

lemma same_intent_stored [simp]:
  "same_intent x (stamp n x)" "same_intent x (stamp n (put_status x b))"
  by (simp_all add: same_intent_def)

text \<open>The deletion mark belongs to the server: what a client sends there is ignored.\<close>

definition set_deleted :: "int option \<Rightarrow> kobject \<Rightarrow> kobject" where
  "set_deleted d x = map_meta (\<lambda>m. m\<lparr>om_DeletionTimestamp := d\<rparr>) x"

lemma set_deleted_simps [simp]:
  "gvk_of (set_deleted d x) = gvk_of x" "spec_of (set_deleted d x) = spec_of x"
  "key_of (set_deleted d x) = key_of x" "same_intent x (stamp n (set_deleted d x))"
  "om_DeletionTimestamp (meta_of (set_deleted d x)) = d"
  "om_Finalizers (meta_of (set_deleted d x)) = om_Finalizers (meta_of x)"
  "same_intent x (stamp n (set_deleted d (put_status x b)))"
  by (simp_all add: set_deleted_def key_of_def same_intent_def stamp_def)

definition notFound :: error where
  "notFound = ApiError NotFound ''not found''"

definition replace_key :: "kobject \<Rightarrow> kobject list \<Rightarrow> kobject list" where
  "replace_key y xs = map (\<lambda>x. if key_of x = key_of y then y else x) xs"

definition mem_write :: "kobject list \<Rightarrow> 'x cluster_scheme \<Rightarrow> 'x cluster_scheme" where
  "mem_write xs w = w\<lparr>cl_objects := xs, cl_revision := Suc (cl_revision w)\<rparr>"

definition mem_get :: "ObjectKey \<Rightarrow> ('x cluster_scheme, error + kobject) io" where
  "mem_get k = State (\<lambda>w. (case cl_view w k of Some x \<Rightarrow> Inr x | None \<Rightarrow> Inl notFound, w))"

definition mem_list :: "GVK \<Rightarrow> ListOption list \<Rightarrow> ('x cluster_scheme, error + kobject list) io" where
  "mem_list g os = State (\<lambda>w. (Inr (filter (\<lambda>x. gvk_of x = g \<and> cl_view w (key_of x) = Some x
     \<and> list_all (\<lambda>opt. matches_option opt x) os) (cl_objects w)), w))"

definition mem_create :: "kobject \<Rightarrow> ('x cluster_scheme, error + kobject) io" where
  "mem_create x = State (\<lambda>w. case cl_view w (key_of x) of
       Some y \<Rightarrow> (Inl (ApiError AlreadyExists ''already exists''), w)
     | None \<Rightarrow> let y = stamp (cl_revision w) (set_deleted None x) in (Inr y, mem_write (cl_objects w @ [y]) w))"

definition mem_update :: "kobject \<Rightarrow> ('x cluster_scheme, error + kobject) io" where
  "mem_update x = State (\<lambda>w. case cl_view w (key_of x) of
       None \<Rightarrow> (Inl notFound, w)
     | Some old \<Rightarrow>
         if om_ResourceVersion (meta_of x) \<noteq> '''' \<and> om_ResourceVersion (meta_of x) \<noteq> om_ResourceVersion (meta_of old)
         then (Inl (ApiError ReasonConflict ''the object has been modified''), w)
         else let y = stamp (cl_revision w) (set_deleted (om_DeletionTimestamp (meta_of old)) (put_status x old))
              in (Inr y, mem_write (replace_key y (cl_objects w)) w))"

definition mem_status :: "kobject \<Rightarrow> ('x cluster_scheme, error + kobject) io" where
  "mem_status x = State (\<lambda>w. case cl_view w (key_of x) of
       None \<Rightarrow> (Inl notFound, w)
     | Some old \<Rightarrow> let y = stamp (cl_revision w) (put_status old x) in (Inr y, mem_write (replace_key y (cl_objects w)) w))"

definition mem_delete :: "kobject \<Rightarrow> ('x cluster_scheme, error option) io" where
  "mem_delete x = State (\<lambda>w. case cl_view w (key_of x) of
       None \<Rightarrow> (Some notFound, w)
     | Some old \<Rightarrow>
         if om_Finalizers (meta_of old) = [] then (None, mem_write (filter (\<lambda>y. key_of y \<noteq> key_of x) (cl_objects w)) w)
         else let y = stamp (cl_revision w) (set_deleted (Some 0) old)
              in (None, mem_write (replace_key y (cl_objects w)) w))"

definition mem_client :: "'x cluster_scheme kclient" where
  "mem_client = \<lparr>kGet = mem_get, kList = mem_list, kCreate = mem_create, kUpdate = mem_update,
     kStatusUpdate = mem_status, kDelete = mem_delete\<rparr>"

lemmas mem_client_defs = mem_client_def mem_get_def mem_list_def mem_create_def mem_update_def
  mem_status_def mem_delete_def mem_write_def

text \<open>An environment whose HTTP requests go unanswered.\<close>

definition quiet_env :: "'w env" where
  "quiet_env = \<lparr>httpDo = (\<lambda>q. ret (Inl (ErrorString ''connection refused''))), url_check = (\<lambda>u. None),
     SetStatusCondition = put_condition, now_rfc3339 = ret ''2025-01-01T00:00:00Z''\<rparr>"

lemma find_replace_other:
  "k \<noteq> key_of y \<Longrightarrow> find (\<lambda>x. key_of x = k \<and> live x) (replace_key y xs) = find (\<lambda>x. key_of x = k \<and> live x) xs"
  by (induction xs) (auto simp: replace_key_def)

lemma find_replace_same:
  "find (\<lambda>x. key_of x = key_of y \<and> live x) xs = Some z \<Longrightarrow>
     find (\<lambda>x. key_of x = key_of y \<and> live x) (replace_key y xs) = (if live y then Some y else None)"
proof (induction xs)
  case (Cons a xs)
  have "find (\<lambda>x. key_of x = key_of y \<and> live x) (replace_key y ys) = None" if "\<not> live y" for ys
    using that by (induction ys) (auto simp: replace_key_def)
  with Cons show ?case by (auto simp: replace_key_def split: if_splits)
qed simp

lemma cl_view_key: "cl_view w k = Some x \<Longrightarrow> key_of x = k \<and> live x"
  by (auto simp: cl_view_def find_Some_iff)

lemma cl_view_replace:
  "cl_view w (key_of y) = Some z \<Longrightarrow>
     cl_view (w\<lparr>cl_objects := replace_key y (cl_objects w), cl_revision := n\<rparr>) =
     (cl_view w)(key_of y := (if live y then Some y else None))"
  by (auto simp: cl_view_def fun_eq_iff find_replace_other find_replace_same)

lemma find_append: "find P (xs @ ys) = (case find P xs of Some x \<Rightarrow> Some x | None \<Rightarrow> find P ys)"
  by (induction xs) auto

lemma cl_view_add:
  "cl_view w (key_of y) = None \<Longrightarrow> live y \<Longrightarrow>
     cl_view (w\<lparr>cl_objects := cl_objects w @ [y], cl_revision := n\<rparr>) = (cl_view w)(key_of y \<mapsto> y)"
  by (auto simp: cl_view_def fun_eq_iff find_append split: option.splits)

lemma find_filter_key:
  "find (\<lambda>x. key_of x = k \<and> live x) (filter (\<lambda>y. key_of y \<noteq> k') xs) =
     (if k = k' then None else find (\<lambda>x. key_of x = k \<and> live x) xs)"
  by (induction xs) auto

lemma cl_view_set: "cl_view w (key_of x) = Some x \<Longrightarrow> x \<in> set (cl_objects w)"
  by (auto simp: cl_view_def find_Some_iff)

interpretation mem: kube_api mem_client cl_view
proof
  fix w k x
  assume "cl_view w k = Some x"
  then show "key_of x = k" and "live x" by (simp_all add: cl_view_key)
next
  fix k w x w'
  assume "run_state (kGet mem_client k) w = (Inr x, w')"
  then show "cl_view w k = Some x" by (auto simp: mem_client_defs split: option.splits)
next
  fix k w e w'
  assume "run_state (kGet mem_client k) w = (Inl e, w')"
  then show "cl_view w k = None" by (auto simp: mem_client_defs split: option.splits)
next
  show "frame cl_view (kGet mem_client k)" for k by (simp add: frame_def mem_client_defs)
next
  fix g os w xs w'
  assume "run_state (kList mem_client g os) w = (Inr xs, w')"
  then show "set xs = {x. gvk_of x = g \<and> cl_view w (key_of x) = Some x \<and> (\<forall>opt \<in> set os. matches_option opt x)}"
    by (auto simp: mem_client_defs list_all_iff intro: cl_view_set)
next
  show "frame cl_view (kList mem_client g os)" for g os by (simp add: frame_def mem_client_defs)
next
  fix x w y w'
  assume "run_state (kCreate mem_client x) w = (Inr y, w')"
  then show "cl_view w (key_of x) = None \<and> same_intent x y \<and> om_DeletionTimestamp (meta_of y) = None
      \<and> om_Finalizers (meta_of y) = om_Finalizers (meta_of x) \<and> cl_view w' = (cl_view w)(key_of x \<mapsto> y)"
    using cl_view_add [of w "stamp (cl_revision w) (set_deleted None x)"]
    by (auto simp: mem_client_defs Let_def live_def split: option.splits)
next
  fix x w e w'
  assume "run_state (kCreate mem_client x) w = (Inl e, w')"
  then show "cl_view w' = cl_view w" by (auto simp: mem_client_defs Let_def split: option.splits)
next
  fix x w y w'
  assume "run_state (kUpdate mem_client x) w = (Inr y, w')"
  then obtain z where z: "cl_view w (key_of x) = Some z"
    and y: "y = stamp (cl_revision w) (set_deleted (om_DeletionTimestamp (meta_of z)) (put_status x z))"
    and w': "w' = mem_write (replace_key y (cl_objects w)) w"
    by (auto simp: mem_client_def mem_update_def Let_def split: option.splits if_splits)
  show "same_intent x y \<and> om_Finalizers (meta_of y) = om_Finalizers (meta_of x)
      \<and> (\<exists>z. cl_view w (key_of x) = Some z \<and> om_DeletionTimestamp (meta_of y) = om_DeletionTimestamp (meta_of z))
      \<and> cl_view w' = (cl_view w)(key_of x := (if live y then Some y else None))"
    using z cl_view_replace [of w y z] unfolding w' y mem_write_def by simp
next
  fix x w e w'
  assume "run_state (kUpdate mem_client x) w = (Inl e, w')"
  then show "cl_view w' = cl_view w" by (auto simp: mem_client_defs Let_def split: option.splits if_splits)
next
  fix x w y w'
  assume "run_state (kStatusUpdate mem_client x) w = (Inr y, w')"
  then obtain z where z: "cl_view w (key_of x) = Some z" and y: "y = stamp (cl_revision w) (put_status z x)"
    and w': "w' = mem_write (replace_key y (cl_objects w)) w"
    by (auto simp: mem_client_def mem_status_def Let_def split: option.splits)
  have "key_of y = key_of x" "live y" using cl_view_key [OF z] y by (simp_all add: live_def)
  moreover have "put_status y x = y"
    unfolding y by (cases z; cases x) (simp_all add: put_status_def stamp_def)
  ultimately show "(\<exists>z. cl_view w (key_of x) = Some z \<and> same_intent z y \<and> om_Finalizers (meta_of y) = om_Finalizers (meta_of z)
         \<and> om_DeletionTimestamp (meta_of y) = om_DeletionTimestamp (meta_of z)) \<and> put_status y x = y
      \<and> cl_view w' = (cl_view w)(key_of x \<mapsto> y)"
    using z y w' cl_view_replace [of w y z] by (auto simp: mem_write_def)
next
  fix x w e w'
  assume "run_state (kStatusUpdate mem_client x) w = (Inl e, w')"
  then show "cl_view w' = cl_view w" by (auto simp: mem_client_defs Let_def split: option.splits)
next
  fix x w w'
  assume d: "run_state (kDelete mem_client x) w = (None, w')"
  then obtain z where z: "cl_view w (key_of x) = Some z"
    by (auto simp: mem_client_defs split: option.splits)
  let ?y = "stamp (cl_revision w) (set_deleted (Some 0) z)"
  have k: "key_of ?y = key_of x" using cl_view_key [OF z] by simp
  show "(\<forall>k. k \<noteq> key_of x \<longrightarrow> cl_view w' k = cl_view w k) \<and>
      (\<forall>y. cl_view w' (key_of x) = Some y \<longrightarrow> om_DeletionTimestamp (meta_of y) \<noteq> None
         \<and> (\<exists>z. cl_view w (key_of x) = Some z \<and> same_intent z y))"
  proof (cases "om_Finalizers (meta_of z) = []")
    case True
    with d z have "w' = mem_write (filter (\<lambda>y. key_of y \<noteq> key_of x) (cl_objects w)) w"
      by (simp add: mem_client_def mem_delete_def)
    then show ?thesis by (auto simp: cl_view_def mem_write_def find_filter_key)
  next
    case False
    with d z have "w' = mem_write (replace_key ?y (cl_objects w)) w"
      by (simp add: mem_client_def mem_delete_def)
    then have "cl_view w' = (cl_view w)(key_of ?y \<mapsto> ?y)"
      using cl_view_replace [of w ?y z] k z False by (simp add: mem_write_def live_def)
    then show ?thesis unfolding k using z by auto
  qed
next
  fix x w e w'
  assume d: "run_state (kDelete mem_client x) w = (Some e, w')"
  then show "cl_view w' = cl_view w" by (auto simp: mem_client_defs Let_def split: option.splits if_splits)
  from d show "cl_view w (key_of x) = None" by (auto simp: mem_client_defs Let_def split: option.splits if_splits)
qed

section \<open>A client for a part of the world\<close>

text \<open>
  A computation on a component of the world, as one on the world: \<open>get\<close> reads the component and
  \<open>put\<close> replaces it. A client of the component becomes a client of the world with the same laws.
\<close>

definition zoom :: "('w \<Rightarrow> 'v) \<Rightarrow> ('v \<Rightarrow> 'w \<Rightarrow> 'w) \<Rightarrow> ('v, 'a) io \<Rightarrow> ('w, 'a) io" where
  "zoom get put m = State (\<lambda>w. case run_state m (get w) of (x, v) \<Rightarrow> (x, put v w))"

lemma run_zoom [simp]: "run_state (zoom get put m) w = (case run_state m (get w) of (x, v) \<Rightarrow> (x, put v w))"
  by (simp add: zoom_def)

definition zoom_client :: "('w \<Rightarrow> 'v) \<Rightarrow> ('v \<Rightarrow> 'w \<Rightarrow> 'w) \<Rightarrow> 'v kclient \<Rightarrow> 'w kclient" where
  "zoom_client get put c = \<lparr>kGet = (\<lambda>k. zoom get put (kGet c k)), kList = (\<lambda>g os. zoom get put (kList c g os)),
     kCreate = (\<lambda>x. zoom get put (kCreate c x)), kUpdate = (\<lambda>x. zoom get put (kUpdate c x)),
     kStatusUpdate = (\<lambda>x. zoom get put (kStatusUpdate c x)), kDelete = (\<lambda>x. zoom get put (kDelete c x))\<rparr>"

lemma frame_zoom: "frame v m \<Longrightarrow> (\<And>x w. get (put x w) = x) \<Longrightarrow> frame (\<lambda>w. v (get w)) (zoom get put m)"
  unfolding frame_def by (auto split: prod.splits) (metis snd_conv)

lemma frame_zoom_other: "(\<And>x w. v (put x w) = v w) \<Longrightarrow> frame v (zoom get put m)"
  unfolding frame_def by (auto split: prod.splits)

lemma zoom_run: "run_state (zoom get put m) w = (x, w') \<Longrightarrow> (\<And>v w. get (put v w) = v) \<Longrightarrow> run_state m (get w) = (x, get w')"
  by (auto split: prod.splits)

lemma kube_api_zoom:
  assumes api: "kube_api c view" and lens: "\<And>v w. get (put v w) = v"
  shows "kube_api (zoom_client get put c) (\<lambda>w. view (get w))"
proof -
  let ?c = "zoom_client get put c"
  have g: "run_state (kGet ?c k) w = (r, w') \<Longrightarrow> run_state (kGet c k) (get w) = (r, get w')" for k w r w'
    by (rule zoom_run [where get = get and put = put]) (simp_all add: zoom_client_def lens)
  have l: "run_state (kList ?c gk os) w = (r, w') \<Longrightarrow> run_state (kList c gk os) (get w) = (r, get w')" for gk os w r w'
    by (rule zoom_run [where get = get and put = put]) (simp_all add: zoom_client_def lens)
  have n: "run_state (kCreate ?c x) w = (r, w') \<Longrightarrow> run_state (kCreate c x) (get w) = (r, get w')" for x w r w'
    by (rule zoom_run [where get = get and put = put]) (simp_all add: zoom_client_def lens)
  have u: "run_state (kUpdate ?c x) w = (r, w') \<Longrightarrow> run_state (kUpdate c x) (get w) = (r, get w')" for x w r w'
    by (rule zoom_run [where get = get and put = put]) (simp_all add: zoom_client_def lens)
  have t: "run_state (kStatusUpdate ?c x) w = (r, w') \<Longrightarrow> run_state (kStatusUpdate c x) (get w) = (r, get w')" for x w r w'
    by (rule zoom_run [where get = get and put = put]) (simp_all add: zoom_client_def lens)
  have d: "run_state (kDelete ?c x) w = (r, w') \<Longrightarrow> run_state (kDelete c x) (get w) = (r, get w')" for x w r w'
    by (rule zoom_run [where get = get and put = put]) (simp_all add: zoom_client_def lens)
  have f: "frame (\<lambda>w. view (get w)) (kGet ?c k)" "frame (\<lambda>w. view (get w)) (kList ?c gk os)" for k gk os
    using frame_zoom [OF kube_api.get_frame [OF api], where get = get and put = put]
      frame_zoom [OF kube_api.list_frame [OF api], where get = get and put = put] by (simp_all add: zoom_client_def lens)
  show ?thesis
    by (rule kube_api.intro)
      (rule f kube_api.view_key [OF api] kube_api.view_live [OF api] kube_api.get_ok [OF api, OF g] kube_api.get_missing [OF api, OF g]
        kube_api.list_ok [OF api, OF l] kube_api.create_ok [OF api, OF n] kube_api.create_err [OF api, OF n]
        kube_api.update_ok [OF api, OF u] kube_api.update_err [OF api, OF u] kube_api.status_ok [OF api, OF t]
        kube_api.status_err [OF api, OF t] kube_api.delete_ok [OF api, OF d] kube_api.delete_err [OF api, OF d]
        kube_api.delete_missing [OF api, OF d]; assumption)+
qed

end
