(* ===== verification/Upsert.thy ===== *)
theory Upsert
  imports Kube_Laws
begin

text \<open>
  The contract of a create-or-update, which several controllers have in their own form
  (\<open>applyOwned\<close> of the EdgeSite controller, \<open>applyEdgeSite\<close> of the Fleet controller,
  \<open>ensure\<close> of the NetworkFabric controller). What a run of them leaves is proved once here,
  from the contract alone.
\<close>

text \<open>An object that is being deleted is not created again, and an update may remove it.\<close>

definition terminating :: "('w \<Rightarrow> ObjectKey \<Rightarrow> kobject option) \<Rightarrow> 'w \<Rightarrow> ObjectKey \<Rightarrow> bool" where
  "terminating view w k \<longleftrightarrow> (\<exists>x. view w k = Some x \<and> om_DeletionTimestamp (meta_of x) \<noteq> None)"

text \<open>
  \<open>put x\<close> settles the object with key \<open>key x\<close>: afterwards the server holds one that \<open>good x\<close>
  accepts, unless the old one was being deleted; nothing else changes, and a call that failed
  changed nothing.
\<close>

locale upsert_contract =
  fixes view :: "'w \<Rightarrow> ObjectKey \<Rightarrow> kobject option" and put :: "'a \<Rightarrow> ('w, error option) io"
    and key :: "'a \<Rightarrow> ObjectKey" and good :: "'a \<Rightarrow> kobject \<Rightarrow> bool"
  assumes put_ok: "run_state (put x) w = (None, w') \<Longrightarrow> \<not> terminating view w (key x) \<Longrightarrow>
      \<exists>y. view w' (key x) = Some y \<and> good x y"
    and put_frame: "run_state (put x) w = (res, w') \<Longrightarrow> k \<noteq> key x \<Longrightarrow> view w' k = view w k"
    and put_err: "run_state (put x) w = (Some e, w') \<Longrightarrow> view w' = view w"
begin

lemma put_all_frame:
  "run_state (for_until_err put xs) w = (res, w') \<Longrightarrow> k \<notin> key ` set xs \<Longrightarrow> view w' k = view w k"
proof (induction xs arbitrary: w)
  case (Cons x xs)
  obtain e w1 where e: "run_state (put x) w = (e, w1)" by force
  have "view w1 k = view w k" using put_frame [OF e] Cons.prems(2) by auto
  then show ?case using Cons e by (cases e) auto
qed simp

lemma put_all_ok:
  assumes "run_state (for_until_err put xs) w = (None, w')" and "distinct (map key xs)"
    and "\<And>x. x \<in> set xs \<Longrightarrow> \<not> terminating view w (key x)"
  shows "\<forall>x \<in> set xs. \<exists>y. view w' (key x) = Some y \<and> good x y"
  using assms
proof (induction xs arbitrary: w)
  case (Cons x xs)
  from Cons.prems(1) obtain w1 where x: "run_state (put x) w = (None, w1)"
    and rest: "run_state (for_until_err put xs) w1 = (None, w')"
    unfolding for_until_err_None_Cons by blast
  have same: "view w1 (key y) = view w (key y)" if "y \<in> set xs" for y
    using put_frame [OF x, of "key y"] Cons.prems(2) imageI [OF that, of key] by (cases "key y = key x") auto
  have "\<forall>y \<in> set xs. \<exists>z. view w' (key y) = Some z \<and> good y z"
    using Cons.IH [OF rest] Cons.prems(2,3) same by (auto simp: terminating_def)
  moreover have "view w' (key x) = view w1 (key x)"
    using put_all_frame [OF rest] Cons.prems(2) by auto
  ultimately show ?case using put_ok [OF x] Cons.prems(3) by auto
qed simp

text \<open>
  The loop that goes on after an error and collects reports: every object is settled or its
  failure reported, whatever happened to the others.
\<close>

lemma put_collect_frame:
  "run_state (for_collect (\<lambda>x. do { e \<leftarrow> put x; ret (report x e) }) xs) w = (es, w') \<Longrightarrow> k \<notin> key ` set xs \<Longrightarrow> view w' k = view w k"
proof (induction xs arbitrary: w es w')
  case (Cons x xs)
  obtain e w1 where e: "run_state (put x) w = (e, w1)" by force
  obtain es1 w2 where r: "run_state (for_collect (\<lambda>x. do { e \<leftarrow> put x; ret (report x e) }) xs) w1 = (es1, w2)" by force
  from Cons.prems(1) e r have "w' = w2" by simp
  with Cons.IH [OF r] put_frame [OF e] Cons.prems(2) show ?case by simp
qed simp

lemma put_collect_ok:
  assumes "run_state (for_collect (\<lambda>x. do { e \<leftarrow> put x; ret (report x e) }) xs) w = (es, w')" and "distinct (map key xs)"
  shows "\<forall>x \<in> set xs. terminating view w (key x) \<or> (\<exists>e. set (report x (Some e)) \<subseteq> set es) \<or> (\<exists>y. view w' (key x) = Some y \<and> good x y)"
  using assms
proof (induction xs arbitrary: w es w')
  case (Cons x xs)
  obtain e w1 where e: "run_state (put x) w = (e, w1)" by force
  obtain es1 w2 where r: "run_state (for_collect (\<lambda>x. do { e \<leftarrow> put x; ret (report x e) }) xs) w1 = (es1, w2)" by force
  from Cons.prems(1) e r have es: "es = report x e @ es1" "w' = w2" by auto
  have same: "view w1 (key y) = view w (key y)" if "y \<in> set xs" for y
    using put_frame [OF e, of "key y"] Cons.prems(2) imageI [OF that, of key] by (cases "key y = key x") auto
  have tl: "\<forall>y \<in> set xs. terminating view w (key y) \<or> (\<exists>e. set (report y (Some e)) \<subseteq> set es1) \<or> (\<exists>z. view w' (key y) = Some z \<and> good y z)"
    using Cons.IH [OF r] Cons.prems(2) same es by (auto simp: terminating_def)
  have "terminating view w (key x) \<or> (\<exists>e. set (report x (Some e)) \<subseteq> set es) \<or> (\<exists>y. view w' (key x) = Some y \<and> good x y)"
  proof (cases e)
    case (Some err)
    with es show ?thesis by auto
  next
    case None
    have "view w' (key x) = view w1 (key x)" using put_collect_frame [OF r] Cons.prems(2) es by auto
    with put_ok [OF e [unfolded None]] show ?thesis by auto
  qed
  with tl es show ?case by fastforce
qed simp

end

section \<open>Create, or update when the spec differs\<close>

text \<open>
  The shape \<open>applyOwned\<close> of the EdgeSite controller and \<open>ensure\<close> of the NetworkFabric controller
  share: the specs are compared as \<open>reflect.DeepEqual\<close> compares the maps of two unstructured
  objects (a spec that is missing or is no map is any value but an object), typed objects are
  always written.
\<close>

text \<open>The comparison of the spec maps, for unstructured children only.\<close>

definition spec_unchanged :: "kobject \<Rightarrow> kobject \<Rightarrow> bool" where
  "spec_unchanged obj cur = (case (obj, cur) of
      (KUnstructured u, KUnstructured v) \<Rightarrow> DeepEqual (u_Spec u) (u_Spec v) | _ \<Rightarrow> False)"

definition set_version :: "string \<Rightarrow> kobject \<Rightarrow> kobject" where
  "set_version v obj = map_meta (\<lambda>m. m\<lparr>om_ResourceVersion := v\<rparr>) obj"

definition put_changed :: "'w kclient \<Rightarrow> kobject \<Rightarrow> ('w, error option) io" where
  "put_changed c obj = do {
     g \<leftarrow> kGet c (key_of obj);
     case g of
       Inl err \<Rightarrow> if IsNotFound err then do { n \<leftarrow> kCreate c obj; ret (err_of n) } else ret (Some err)
     | Inr cur \<Rightarrow>
         if spec_unchanged obj cur then ret None
         else do { u \<leftarrow> kUpdate c (set_version (om_ResourceVersion (meta_of cur)) obj); ret (err_of u) } }"

lemma set_version_simps [simp]:
  "key_of (set_version v x) = key_of x"
  "om_Finalizers (meta_of (set_version v x)) = om_Finalizers (meta_of x)"
  "same_intent (set_version v x) y = same_intent x y"
  by (simp_all add: set_version_def key_of_def same_intent_def)

context kube_api
begin

lemma put_changed_found:
  assumes run: "run_state (put_changed c x) w = (res, w')" and cur: "view w (key_of x) = Some cur"
  shows "(res = None \<and> spec_unchanged x cur \<and> view w' = view w)
    \<or> (res \<noteq> None \<and> view w' = view w)
    \<or> (\<exists>y. res = None \<and> \<not> spec_unchanged x cur \<and> same_intent x y
          \<and> om_Finalizers (meta_of y) = om_Finalizers (meta_of x)
          \<and> om_DeletionTimestamp (meta_of y) = om_DeletionTimestamp (meta_of cur)
          \<and> view w' = (view w)(key_of x := (if live y then Some y else None)))"
proof -
  obtain g w1 where g: "run_state (kGet c (key_of x)) w = (g, w1)" by force
  have v1: "view w1 = view w" using frameD [OF get_frame g] .
  show ?thesis
  proof (cases g)
    case (Inl e)
    have "\<not> IsNotFound e" using get_missing [OF g [unfolded Inl]] cur by auto
    with run g Inl v1 show ?thesis by (auto simp: put_changed_def)
  next
    case (Inr c0)
    then have c0: "c0 = cur" using get_ok [OF g [unfolded Inr]] cur by simp
    show ?thesis
    proof (cases "spec_unchanged x cur")
      case True
      with run g Inr c0 v1 show ?thesis by (auto simp: put_changed_def)
    next
      case False
      obtain u w2 where u: "run_state (kUpdate c (set_version (om_ResourceVersion (meta_of cur)) x)) w1 = (u, w2)" by force
      from run g Inr c0 False u have res: "res = err_of u" "w' = w2" by (auto simp: put_changed_def)
      show ?thesis
      proof (cases u)
        case (Inl e)
        with res update_err [OF u [unfolded Inl]] v1 show ?thesis by simp
      next
        case (Inr y)
        from update_ok [OF u [unfolded Inr]] cur v1 have "same_intent x y"
          "om_Finalizers (meta_of y) = om_Finalizers (meta_of x)"
          "om_DeletionTimestamp (meta_of y) = om_DeletionTimestamp (meta_of cur)"
          "view w2 = (view w)(key_of x := (if live y then Some y else None))" by auto
        with res Inr False show ?thesis by auto
      qed
    qed
  qed
qed

lemma put_changed_missing:
  assumes run: "run_state (put_changed c x) w = (res, w')" and none: "view w (key_of x) = None"
  shows "(res \<noteq> None \<and> view w' = view w)
    \<or> (\<exists>y. res = None \<and> same_intent x y \<and> om_DeletionTimestamp (meta_of y) = None
          \<and> om_Finalizers (meta_of y) = om_Finalizers (meta_of x) \<and> view w' = (view w)(key_of x \<mapsto> y))"
proof -
  obtain g w1 where g: "run_state (kGet c (key_of x)) w = (g, w1)" by force
  have v1: "view w1 = view w" using frameD [OF get_frame g] .
  from get_ok none g obtain e where e: "g = Inl e" by (cases g) auto
  show ?thesis
  proof (cases "IsNotFound e")
    case False
    with run g e v1 show ?thesis by (auto simp: put_changed_def)
  next
    case True
    obtain u w2 where u: "run_state (kCreate c x) w1 = (u, w2)" by force
    from run g e True u have res: "res = err_of u" "w' = w2" by (auto simp: put_changed_def)
    show ?thesis
    proof (cases u)
      case (Inl err)
      with res create_err [OF u [unfolded Inl]] v1 show ?thesis by simp
    next
      case (Inr y)
      with res create_ok [OF u [unfolded Inr]] v1 show ?thesis by auto
    qed
  qed
qed

text \<open>What is there after a \<open>put_changed\<close>: the wanted object, or the one that had the wanted spec already.\<close>

lemma put_changed_effect:
  assumes run: "run_state (put_changed c x) w = (res, w')"
  shows "(res = None \<longrightarrow> \<not> terminating view w (key_of x) \<longrightarrow>
      (\<exists>y. view w' (key_of x) = Some y \<and> (same_intent x y \<or> spec_unchanged x y) \<and> om_DeletionTimestamp (meta_of y) = None))
    \<and> (\<forall>k. k \<noteq> key_of x \<longrightarrow> view w' k = view w k) \<and> (res \<noteq> None \<longrightarrow> view w' = view w)"
proof (cases "view w (key_of x)")
  case None
  from put_changed_missing [OF run None] show ?thesis by auto
next
  case (Some cur)
  from put_changed_found [OF run Some] Some show ?thesis
    by (auto simp: terminating_def live_def)
qed

end

sublocale kube_api \<subseteq> changed: upsert_contract view "put_changed c" key_of
    "\<lambda>x y. (same_intent x y \<or> spec_unchanged x y) \<and> om_DeletionTimestamp (meta_of y) = None"
  by unfold_locales (use put_changed_effect in blast)+

end
