(* ===== verification/Addressing.thy ===== *)
theory Addressing
  imports Kube_Laws
begin

text \<open>
  The addressing of a site: the parts of \<open>operator/internal/controller/edgesite_controller.go\<close>
  that derive a site's networks from its name (\<open>siteIndex\<close>, \<open>deriveAddressing\<close>), find
  the L2 the RAN lives on (\<open>netBase\<close>, \<open>ranBase\<close>, \<open>mgmtNodeIP\<close>) and allocate the
  address of the site's AMF on it (\<open>allocateRanVIP\<close>). The lemmas show the range of the
  index, what each derived field becomes, and that the allocation stays in its pool, is
  stable, and takes no address another site holds while one is free.
\<close>

section \<open>Definitions\<close>

record 'w EdgeSiteReconciler =
  esr_Client :: "'w kclient"
  esr_Env :: "'w env"
  BlueprintRepo :: string
  MgmtRepo :: string

definition siteIndex :: "string \<Rightarrow> int" where
  "siteIndex name = foldl (\<lambda>h c. (h * 31 + c) mod 197) 0 (runes name) + 2"

definition netBase :: "string \<Rightarrow> string" where
  "netBase s = (case Sscanf4 s of a # b # c # _ \<Rightarrow> dotted [a, b, c] | _ \<Rightarrow> '''')"

text \<open>The first address of type InternalIP (the inner loop of \<open>mgmtNodeIP\<close> breaks there).\<close>

definition internal_ip :: "Node \<Rightarrow> string" where
  "internal_ip n = (case find (\<lambda>a. fst a = ''InternalIP'') (node_Addresses n) of Some a \<Rightarrow> snd a | None \<Rightarrow> '''')"

fun pick_node :: "string \<Rightarrow> Node list \<Rightarrow> string" where
  "pick_node pick [] = pick"
| "pick_node pick (n # ns) =
     (let ip = internal_ip n in
      if ip = '''' then pick_node pick ns
      else if map_of (om_Labels (node_Meta n)) ''node-role.kubernetes.io/control-plane'' \<noteq> None then ip
      else pick_node ip ns)"

definition mgmtNodeIP :: "'w EdgeSiteReconciler \<Rightarrow> ('w, string) io" where
  "mgmtNodeIP r = do {
     l \<leftarrow> list_as (esr_Client r) as_Node (coreGVK ''Node'') [];
     ret (case l of Inl e \<Rightarrow> '''' | Inr nodes \<Rightarrow> pick_node '''' nodes) }"

definition ranBase :: "'w EdgeSiteReconciler \<Rightarrow> EdgeSite \<Rightarrow> ('w, string) io" where
  "ranBase r es =
     (let b = netBase (es_RanSubnet (es_Spec es)) in
      if b \<noteq> '''' then ret b
      else do {
        n \<leftarrow> (if es_Colocated (es_Spec es) then mgmtNodeIP r else ret '''');
        let ip = (if n \<noteq> '''' then n else es_Server (es_Spec es));
        let b' = netBase ip;
        ret (if b' \<noteq> '''' then b' else ''192.168.4'') })"

text \<open>The last octet of a dotted quad, when all four are read.\<close>

definition vip_octet :: "string \<Rightarrow> int option" where
  "vip_octet s = (case Sscanf4 s of [a, b, c, d] \<Rightarrow> Some d | _ \<Rightarrow> None)"

text \<open>The keys of the map \<open>taken\<close>.\<close>

definition taken_octets :: "string \<Rightarrow> EdgeSite list \<Rightarrow> int list" where
  "taken_octets name items = 240 # List.map_filter
     (\<lambda>s. if om_Name (es_Meta s) = name \<or> es_N2VIP (es_Spec s) = '''' then None
          else vip_octet (es_N2VIP (es_Spec s))) items"

text \<open>The probe: fourteen slots from \<open>start\<close>, the first that is not taken.\<close>

definition probe_octet :: "int list \<Rightarrow> int \<Rightarrow> int option" where
  "probe_octet taken start = find (\<lambda>i. i \<notin> set taken) (map (\<lambda>k. 241 + (start + k) mod 14) [0..13])"

definition pool_vip :: "string \<Rightarrow> bool" where
  "pool_vip s = (case vip_octet s of Some d \<Rightarrow> 241 \<le> d \<and> d \<le> 254 | None \<Rightarrow> False)"

definition allocateRanVIP :: "'w EdgeSiteReconciler \<Rightarrow> EdgeSite \<Rightarrow> string \<Rightarrow> ('w, string) io" where
  "allocateRanVIP r es base =
     (if es_N2VIP (es_Spec es) \<noteq> '''' \<and> pool_vip (es_N2VIP (es_Spec es)) then ret (es_N2VIP (es_Spec es))
      else do {
        l \<leftarrow> list_as (esr_Client r) as_EdgeSite (sdcoreGVK ''EdgeSite'') [];
        let taken = (case l of Inl e \<Rightarrow> [240] | Inr items \<Rightarrow> taken_octets (om_Name (es_Meta es)) items);
        ret (case probe_octet taken (siteIndex (om_Name (es_Meta es)) mod 14) of
               Some i \<Rightarrow> base @ ''.'' @ itoa i
             | None \<Rightarrow> base @ ''.254'') })"

text \<open>The closure \<open>set\<close>: fill an empty field and note the change.\<close>

definition set_field ::
    "(EdgeSiteSpec \<Rightarrow> string) \<Rightarrow> ((string \<Rightarrow> string) \<Rightarrow> EdgeSiteSpec \<Rightarrow> EdgeSiteSpec) \<Rightarrow> string
       \<Rightarrow> EdgeSiteSpec \<times> bool \<Rightarrow> EdgeSiteSpec \<times> bool" where
  "set_field get upd v p = (if get (fst p) = '''' then (upd (\<lambda>_. v) (fst p), True) else p)"

text \<open>
  \<open>deriveAddressing\<close> changes the site in place; the model returns the site it leaves, which
  after a successful \<open>Update\<close> is the one the server answered with.
\<close>

definition derive_site :: "string \<Rightarrow> EdgeSiteSpec \<times> bool \<Rightarrow> EdgeSiteSpec \<times> bool" where
  "derive_site idx p =
     (let p = set_field es_PodCIDR es_PodCIDR_update (''10.'' @ idx @ ''.0.0/16'') p;
          p = set_field es_UEPool es_UEPool_update (''172.'' @ idx @ ''.0.0/16'') p;
          p = set_field es_SliceSD es_SliceSD_update ''102030'' p;
          p = set_field es_EgressNic es_EgressNic_update ''eth0'' p;
          p = set_field es_AccessCIDR es_AccessCIDR_update (''10.200.'' @ idx @ ''.10/24'') p;
          p = set_field es_CoreCIDR es_CoreCIDR_update (''10.201.'' @ idx @ ''.10/24'') p;
          p = set_field es_AccessGw es_AccessGw_update (''10.200.'' @ idx @ ''.1'') p;
          p = set_field es_CoreGw es_CoreGw_update (''10.201.'' @ idx @ ''.1'') p;
          p = set_field es_CoreNextHop es_CoreNextHop_update (''10.201.'' @ idx @ ''.10'') p
      in set_field es_GnbIP es_GnbIP_update (''10.200.'' @ idx @ ''.20'') p)"

definition deriveAddressing :: "'w EdgeSiteReconciler \<Rightarrow> EdgeSite \<Rightarrow> ('w, error option \<times> EdgeSite) io" where
  "deriveAddressing r es = do {
     let p = derive_site (itoa (siteIndex (om_Name (es_Meta es)))) (es_Spec es, False);
     base \<leftarrow> ranBase r (es\<lparr>es_Spec := fst p\<rparr>);
     let p = set_field es_RanSubnet es_RanSubnet_update (base @ ''.240/28'') p;
     vip \<leftarrow> (if es_Colocated (fst p) then ret (base @ ''.240'')
             else allocateRanVIP r (es\<lparr>es_Spec := fst p\<rparr>) base);
     let p = set_field es_N2VIP es_N2VIP_update vip p;
     let p = set_field es_RanNic es_RanNic_update ''eth0'' p;
     let es' = es\<lparr>es_Spec := fst p\<rparr>;
     if snd p then do {
       u \<leftarrow> kUpdate (esr_Client r) (KEdgeSite es');
       ret (case decode_as as_EdgeSite u of Inl e \<Rightarrow> (Some e, es') | Inr s \<Rightarrow> (None, s)) }
     else ret (None, es') }"

text \<open>\<open>upfdatapath_controller.go\<close>: which /32 of the RAN interface the operator may remove.\<close>

definition isRanVIPCandidate :: "string \<Rightarrow> bool" where
  "isRanVIPCandidate ip = (case Sscanf4 ip of [a, b, c, d] \<Rightarrow> d \<ge> 240 \<and> d \<le> 254 | _ \<Rightarrow> False)"

section \<open>The site index\<close>

lemma foldl_mod_range: "0 \<le> h \<Longrightarrow> h < 197 \<Longrightarrow>
    0 \<le> foldl (\<lambda>h c. (h * 31 + c) mod 197) h rs \<and> foldl (\<lambda>h c. (h * 31 + c) mod 197) h rs < (197 :: int)"
  by (induction rs arbitrary: h) auto

lemma siteIndex_bounds: "2 \<le> siteIndex name" "siteIndex name \<le> 198"
  using foldl_mod_range [of 0 "runes name"] by (auto simp: siteIndex_def)

text \<open>The hash with the reduction at the end instead of at every step.\<close>

lemma foldl_mod_poly:
  "foldl (\<lambda>h c. (h * 31 + c) mod 197) (h mod 197) rs = foldl (\<lambda>h c. h * 31 + c) h rs mod (197 :: int)"
proof (induction rs arbitrary: h)
  case (Cons c rs)
  have "(h mod 197 * 31 + c) mod 197 = (h * 31 + c) mod (197 :: int)"
    by (metis mod_add_left_eq mod_mult_left_eq)
  with Cons.IH [of "h * 31 + c"] show ?case by simp
qed simp

lemma siteIndex_poly: "siteIndex name = foldl (\<lambda>h c. h * 31 + c) 0 (runes name) mod 197 + 2"
  using foldl_mod_poly [of 0 "runes name"] by (simp add: siteIndex_def)

lemma siteIndex_step_bound:
  assumes "c \<in> set (runes name)" and "0 \<le> h" "h < 197"
  shows "0 \<le> h * 31 + c" "h * 31 + c \<le> MaxInt64"
  using runes_bound [OF assms(1)] assms(2,3) by auto

section \<open>Reading and printing addresses\<close>

abbreviation in64 :: "int \<Rightarrow> bool" where
  "in64 v \<equiv> MinInt64 \<le> v \<and> v \<le> MaxInt64"

lemma itoa_inj [simp]: "itoa a = itoa b \<longleftrightarrow> a = b"
proof
  assume eq: "itoa a = itoa b"
  have no_minus: "nat_str n \<noteq> CHR ''-'' # s" for n s
    using nat_str_digits [of n] by (auto simp: bytes_def is_digit_def)
  show "a = b"
    using eq no_minus no_minus [symmetric]
    by (auto simp: itoa_def nat_str_inj split: if_splits)
qed simp

lemma scan_int_range: "scan_int s = Some (v, t) \<Longrightarrow> in64 v"
  by (auto simp: scan_int_def Let_def split: option.splits if_splits)

lemma scan_dotted_range: "v \<in> set (scan_dotted n s) \<Longrightarrow> in64 v"
proof (induction n arbitrary: s)
  case (Suc n)
  then obtain u t where u: "scan_int s = Some (u, t)" by (cases "scan_int s") auto
  with Suc.prems have "v = u \<or> (\<exists>t'. v \<in> set (scan_dotted n t'))"
    by (auto split: if_splits list.splits)
  then show ?case using scan_int_range [OF u] Suc.IH by blast
qed simp

lemma Sscanf4_range: "v \<in> set (Sscanf4 s) \<Longrightarrow> in64 v"
  unfolding Sscanf4_def by (rule scan_dotted_range)

text \<open>A base is three printed numbers; with a fourth it reads back.\<close>

definition is_base :: "string \<Rightarrow> bool" where
  "is_base b \<longleftrightarrow> (\<exists>x y z. b = dotted [x, y, z] \<and> in64 x \<and> in64 y \<and> in64 z)"

lemma netBase_is_base: "netBase s \<noteq> '''' \<Longrightarrow> is_base (netBase s)"
proof -
  assume "netBase s \<noteq> ''''"
  then obtain a b c r where S: "Sscanf4 s = a # b # c # r"
    by (auto simp: netBase_def split: list.splits)
  then have "netBase s = dotted [a, b, c]" by (simp add: netBase_def)
  moreover have "in64 a" "in64 b" "in64 c"
    using Sscanf4_range [of _ s] S by auto
  ultimately show ?thesis unfolding is_base_def by blast
qed

lemma is_base_lab: "is_base ''192.168.4''"
proof -
  have "''192.168.4'' = dotted [192, 168, 4]" by code_simp
  then show ?thesis unfolding is_base_def by (intro exI [of _ 192] exI [of _ 168] exI [of _ 4]) simp
qed

lemma Sscanf4_base:
  assumes "is_base b" and "in64 d"
  shows "\<exists>x y z. Sscanf4 (b @ ''.'' @ itoa d) = [x, y, z, d] \<and> b = dotted [x, y, z]"
proof -
  from assms(1) obtain x y z where b: "b = dotted [x, y, z]" and r: "in64 x" "in64 y" "in64 z"
    unfolding is_base_def by blast
  have "b @ ''.'' @ itoa d = dotted [x, y, z, d] @ []" by (simp add: b)
  with Sscanf4_dotted [of "[x, y, z, d]" "[]"] r assms(2) b show ?thesis by auto
qed

lemma vip_octet_base [simp]: "is_base b \<Longrightarrow> in64 d \<Longrightarrow> vip_octet (b @ CHR ''.'' # itoa d) = Some d"
  using Sscanf4_base [of b d] by (auto simp: vip_octet_def)

lemma netBase_vip [simp]: "is_base b \<Longrightarrow> in64 d \<Longrightarrow> netBase (b @ CHR ''.'' # itoa d) = b"
  using Sscanf4_base [of b d] by (auto simp: netBase_def)

lemma vip_octet_nonempty: "vip_octet s = Some d \<Longrightarrow> s \<noteq> ''''"
  by (auto simp: vip_octet_def Sscanf4_def scan_int_def eval_nat_numeral)

lemma isRanVIPCandidate_octet: "isRanVIPCandidate s \<longleftrightarrow> (\<exists>d. vip_octet s = Some d \<and> 240 \<le> d \<and> d \<le> 254)"
  by (auto simp: isRanVIPCandidate_def vip_octet_def split: list.splits)

lemma ranBase_is_base: "run_state (ranBase r es) w = (b, w') \<Longrightarrow> is_base b"
  by (auto simp: ranBase_def Let_def netBase_is_base is_base_lab split: if_splits prod.splits)

section \<open>The probe\<close>

lemma probe_slots: "set (map (\<lambda>k. 241 + (start + k) mod 14) [0..13]) = {241 .. 254 :: int}"
proof -
  have "\<exists>k. 0 \<le> k \<and> k \<le> 13 \<and> j = 241 + (start + k) mod 14" if "241 \<le> j" "j \<le> 254" for j
  proof (intro exI conjI)
    let ?k = "(j - 241 - start) mod 14"
    show "0 \<le> ?k" by simp
    show "?k \<le> 13" using pos_mod_bound [of 14 "j - 241 - start"] by linarith
    have "(start + ?k) mod 14 = (j - 241) mod 14" by (simp add: mod_add_right_eq)
    then show "j = 241 + (start + ?k) mod 14" using that by simp
  qed
  moreover have "241 + (start + k) mod 14 \<in> {241..254}" for k
    using pos_mod_bound [of 14 "start + k"] pos_mod_sign [of 14 "start + k"] by auto
  ultimately show ?thesis by force
qed

lemma find_SomeD: "find P xs = Some x \<Longrightarrow> x \<in> set xs \<and> P x"
  by (induction xs) (auto split: if_splits)

lemma probe_octet_Some:
  assumes "probe_octet taken start = Some i"
  shows "241 \<le> i" "i \<le> 254" "i \<notin> set taken"
  using find_SomeD [OF assms [unfolded probe_octet_def]] unfolding probe_slots by auto

lemma probe_octet_None: "probe_octet taken start = None \<longleftrightarrow> {241..254} \<subseteq> set taken"
proof -
  have "probe_octet taken start = None \<longleftrightarrow>
      (\<forall>i \<in> set (map (\<lambda>k. 241 + (start + k) mod 14) [0..13]). i \<in> set taken)"
    unfolding probe_octet_def find_None_iff by blast
  then show ?thesis unfolding probe_slots by auto
qed

lemma taken_octets_iff:
  "d \<in> set (taken_octets name items) \<longleftrightarrow> d = 240 \<or>
     (\<exists>s \<in> set items. om_Name (es_Meta s) \<noteq> name \<and> vip_octet (es_N2VIP (es_Spec s)) = Some d)"
  by (auto simp: taken_octets_def List.map_filter_def image_iff dest: vip_octet_nonempty split: if_splits)

section \<open>Allocation\<close>

lemma itoa_254: "itoa 254 = ''254''" and itoa_240: "itoa 240 = ''240''"
  by code_simp+

text \<open>The sites the server holds.\<close>

definition is_site :: "('w \<Rightarrow> ObjectKey \<Rightarrow> kobject option) \<Rightarrow> 'w \<Rightarrow> EdgeSite \<Rightarrow> bool" where
  "is_site view w s \<longleftrightarrow> view w (key_of (KEdgeSite s)) = Some (KEdgeSite s)"

text \<open>How an allocation can end: the site's own address, a slot the probe found, or the last slot.\<close>

lemma allocateRanVIP_result:
  assumes run: "run_state (allocateRanVIP r es base) w = (vip, w')"
  obtains (kept) "pool_vip (es_N2VIP (es_Spec es))" "vip = es_N2VIP (es_Spec es)"
  | (chosen) l d where "\<not> pool_vip (es_N2VIP (es_Spec es))"
      "run_state (list_as (esr_Client r) as_EdgeSite (sdcoreGVK ''EdgeSite'') []) w = (l, w')"
      "vip = base @ ''.'' @ itoa d" "241 \<le> d" "d \<le> 254"
      "d \<notin> set (case l of Inl e \<Rightarrow> [240] | Inr items \<Rightarrow> taken_octets (om_Name (es_Meta es)) items)
       \<or> {241..254} \<subseteq> set (case l of Inl e \<Rightarrow> [240] | Inr items \<Rightarrow> taken_octets (om_Name (es_Meta es)) items)"
proof (cases "pool_vip (es_N2VIP (es_Spec es))")
  case True
  then have "es_N2VIP (es_Spec es) \<noteq> ''''"
    by (auto simp: pool_vip_def dest: vip_octet_nonempty split: option.splits)
  with True run show ?thesis by (intro kept) (auto simp: allocateRanVIP_def)
next
  case False
  obtain l w1 where l: "run_state (list_as (esr_Client r) as_EdgeSite (sdcoreGVK ''EdgeSite'') []) w = (l, w1)"
    by force
  define t where "t = (case l of Inl e \<Rightarrow> [240] | Inr items \<Rightarrow> taken_octets (om_Name (es_Meta es)) items)"
  define p where "p = probe_octet t (siteIndex (om_Name (es_Meta es)) mod 14)"
  from run False l have v: "vip = (case p of Some i \<Rightarrow> base @ ''.'' @ itoa i | None \<Rightarrow> base @ ''.254'')" and w: "w1 = w'"
    by (simp_all add: allocateRanVIP_def Let_def t_def p_def)
  show ?thesis
  proof (cases p)
    case None
    with v have "vip = base @ ''.'' @ itoa 254" by (simp add: itoa_254)
    moreover have "{241..254} \<subseteq> set t" using None unfolding p_def probe_octet_None .
    ultimately show ?thesis using chosen [OF False l [unfolded w]] by (simp add: t_def)
  next
    case (Some i)
    with v probe_octet_Some [OF Some [unfolded p_def]] show ?thesis
      using chosen [OF False l [unfolded w]] by (simp add: t_def)
  qed
qed

lemma allocateRanVIP_pool:
  assumes "run_state (allocateRanVIP r es base) w = (vip, w')" and "is_base base"
  shows "pool_vip vip"
  using assms(1) by (cases rule: allocateRanVIP_result) (auto simp: pool_vip_def assms(2))

locale edgesite_world = kube_api "esr_Client r" view
  for r :: "'w EdgeSiteReconciler" and view
begin

lemma mgmtNodeIP_frame: "frame view (mgmtNodeIP r)"
  unfolding mgmtNodeIP_def by (intro frame_intros list_as_frame)

lemma ranBase_frame: "frame view (ranBase r es)"
  unfolding ranBase_def Let_def by (intro frame_intros mgmtNodeIP_frame)

lemma allocateRanVIP_frame: "frame view (allocateRanVIP r es base)"
  unfolding allocateRanVIP_def Let_def by (intro frame_intros list_as_frame)

text \<open>The sites a list of all \<open>EdgeSite\<close>s returns.\<close>

lemma list_sites:
  assumes "run_state (list_as (esr_Client r) as_EdgeSite (sdcoreGVK ''EdgeSite'') []) w = (Inr items, w')"
  shows "s \<in> set items \<longleftrightarrow> is_site view w s"
  using list_as_ok [OF assms, of s] by (auto simp: as_simps is_site_def)

lemma allocateRanVIP_list_error:
  assumes "run_state (allocateRanVIP r es base) w = (vip, w')"
    and "run_state (list_as (esr_Client r) as_EdgeSite (sdcoreGVK ''EdgeSite'') []) w = (Inl e, w1)"
    and "\<not> pool_vip (es_N2VIP (es_Spec es))"
  shows "vip = base @ ''.'' @ itoa (241 + siteIndex (om_Name (es_Meta es)) mod 14)"
proof -
  have "241 + (siteIndex n mod 14 + 0) mod 14 \<notin> set [240]" for n
    using pos_mod_sign [of 14 "siteIndex n"] by auto
  then have "probe_octet [240] (siteIndex n mod 14) = Some (241 + siteIndex n mod 14)" for n
    by (simp add: probe_octet_def upto_rec1)
  with assms show ?thesis by (simp add: allocateRanVIP_def Let_def)
qed

end

section \<open>Deriving the addresses of a site\<close>

text \<open>
  The specification of \<open>deriveAddressing\<close>: a field the user wrote stays, an empty one gets
  its default; the site is written back exactly when something was empty.
\<close>

definition or_else :: "string \<Rightarrow> string \<Rightarrow> string" where
  "or_else v d = (if v = '''' then d else v)"

lemma or_else_simps [simp]:
  "v \<noteq> '''' \<Longrightarrow> or_else v d = v" "or_else '''' d = d" "d \<noteq> '''' \<Longrightarrow> or_else v d \<noteq> ''''"
  by (simp_all add: or_else_def)

definition fill_site :: "string \<Rightarrow> EdgeSiteSpec \<Rightarrow> EdgeSiteSpec" where
  "fill_site idx s = s\<lparr>
     es_PodCIDR := or_else (es_PodCIDR s) (''10.'' @ idx @ ''.0.0/16''),
     es_UEPool := or_else (es_UEPool s) (''172.'' @ idx @ ''.0.0/16''),
     es_SliceSD := or_else (es_SliceSD s) ''102030'',
     es_EgressNic := or_else (es_EgressNic s) ''eth0'',
     es_AccessCIDR := or_else (es_AccessCIDR s) (''10.200.'' @ idx @ ''.10/24''),
     es_CoreCIDR := or_else (es_CoreCIDR s) (''10.201.'' @ idx @ ''.10/24''),
     es_AccessGw := or_else (es_AccessGw s) (''10.200.'' @ idx @ ''.1''),
     es_CoreGw := or_else (es_CoreGw s) (''10.201.'' @ idx @ ''.1''),
     es_CoreNextHop := or_else (es_CoreNextHop s) (''10.201.'' @ idx @ ''.10''),
     es_GnbIP := or_else (es_GnbIP s) (''10.200.'' @ idx @ ''.20'')\<rparr>"

definition fill_ran :: "string \<Rightarrow> string \<Rightarrow> EdgeSiteSpec \<Rightarrow> EdgeSiteSpec" where
  "fill_ran base vip s = s\<lparr>
     es_RanSubnet := or_else (es_RanSubnet s) (base @ ''.240/28''),
     es_N2VIP := or_else (es_N2VIP s) vip,
     es_RanNic := or_else (es_RanNic s) ''eth0''\<rparr>"

definition fill_spec :: "string \<Rightarrow> string \<Rightarrow> string \<Rightarrow> EdgeSiteSpec \<Rightarrow> EdgeSiteSpec" where
  "fill_spec idx base vip s = fill_ran base vip (fill_site idx s)"

definition needs_fill :: "EdgeSiteSpec \<Rightarrow> bool" where
  "needs_fill s = list_ex (\<lambda>v. v = '''') [es_PodCIDR s, es_UEPool s, es_SliceSD s, es_EgressNic s, es_AccessCIDR s,
     es_CoreCIDR s, es_AccessGw s, es_CoreGw s, es_CoreNextHop s, es_GnbIP s, es_RanSubnet s, es_N2VIP s, es_RanNic s]"

lemma set_field_eqs:
  "set_field es_PodCIDR es_PodCIDR_update v (s, b) = (s\<lparr>es_PodCIDR := or_else (es_PodCIDR s) v\<rparr>, b \<or> es_PodCIDR s = '''')"
  "set_field es_UEPool es_UEPool_update v (s, b) = (s\<lparr>es_UEPool := or_else (es_UEPool s) v\<rparr>, b \<or> es_UEPool s = '''')"
  "set_field es_SliceSD es_SliceSD_update v (s, b) = (s\<lparr>es_SliceSD := or_else (es_SliceSD s) v\<rparr>, b \<or> es_SliceSD s = '''')"
  "set_field es_EgressNic es_EgressNic_update v (s, b) = (s\<lparr>es_EgressNic := or_else (es_EgressNic s) v\<rparr>, b \<or> es_EgressNic s = '''')"
  "set_field es_AccessCIDR es_AccessCIDR_update v (s, b) = (s\<lparr>es_AccessCIDR := or_else (es_AccessCIDR s) v\<rparr>, b \<or> es_AccessCIDR s = '''')"
  "set_field es_CoreCIDR es_CoreCIDR_update v (s, b) = (s\<lparr>es_CoreCIDR := or_else (es_CoreCIDR s) v\<rparr>, b \<or> es_CoreCIDR s = '''')"
  "set_field es_AccessGw es_AccessGw_update v (s, b) = (s\<lparr>es_AccessGw := or_else (es_AccessGw s) v\<rparr>, b \<or> es_AccessGw s = '''')"
  "set_field es_CoreGw es_CoreGw_update v (s, b) = (s\<lparr>es_CoreGw := or_else (es_CoreGw s) v\<rparr>, b \<or> es_CoreGw s = '''')"
  "set_field es_CoreNextHop es_CoreNextHop_update v (s, b) = (s\<lparr>es_CoreNextHop := or_else (es_CoreNextHop s) v\<rparr>, b \<or> es_CoreNextHop s = '''')"
  "set_field es_GnbIP es_GnbIP_update v (s, b) = (s\<lparr>es_GnbIP := or_else (es_GnbIP s) v\<rparr>, b \<or> es_GnbIP s = '''')"
  "set_field es_RanSubnet es_RanSubnet_update v (s, b) = (s\<lparr>es_RanSubnet := or_else (es_RanSubnet s) v\<rparr>, b \<or> es_RanSubnet s = '''')"
  "set_field es_N2VIP es_N2VIP_update v (s, b) = (s\<lparr>es_N2VIP := or_else (es_N2VIP s) v\<rparr>, b \<or> es_N2VIP s = '''')"
  "set_field es_RanNic es_RanNic_update v (s, b) = (s\<lparr>es_RanNic := or_else (es_RanNic s) v\<rparr>, b \<or> es_RanNic s = '''')"
  by (simp_all add: set_field_def or_else_def)

lemma ranBase_cong:
  assumes "es_RanSubnet (es_Spec a) = es_RanSubnet (es_Spec b)" "es_Server (es_Spec a) = es_Server (es_Spec b)"
    "es_Colocated (es_Spec a) = es_Colocated (es_Spec b)"
  shows "ranBase r a = ranBase r b"
  unfolding ranBase_def assms ..

lemma allocateRanVIP_cong:
  assumes "es_N2VIP (es_Spec a) = es_N2VIP (es_Spec b)" "om_Name (es_Meta a) = om_Name (es_Meta b)"
  shows "allocateRanVIP r a base = allocateRanVIP r b base"
  unfolding allocateRanVIP_def assms ..

definition derive_spec :: "'w EdgeSiteReconciler \<Rightarrow> EdgeSite \<Rightarrow> ('w, error option \<times> EdgeSite) io" where
  "derive_spec r es = do {
     base \<leftarrow> ranBase r es;
     vip \<leftarrow> (if es_Colocated (es_Spec es) then ret (base @ ''.240'') else allocateRanVIP r es base);
     let es' = es\<lparr>es_Spec := fill_spec (itoa (siteIndex (om_Name (es_Meta es)))) base vip (es_Spec es)\<rparr>;
     if needs_fill (es_Spec es) then do {
       u \<leftarrow> kUpdate (esr_Client r) (KEdgeSite es');
       ret (case decode_as as_EdgeSite u of Inl e \<Rightarrow> (Some e, es') | Inr s \<Rightarrow> (None, s)) }
     else ret (None, es') }"

lemma derive_site_eq:
  "derive_site idx (s, b) = (fill_site idx s, b \<or> list_ex (\<lambda>v. v = '''') [es_PodCIDR s, es_UEPool s, es_SliceSD s,
     es_EgressNic s, es_AccessCIDR s, es_CoreCIDR s, es_AccessGw s, es_CoreGw s, es_CoreNextHop s, es_GnbIP s])"
  unfolding derive_site_def Let_def fill_site_def by (simp add: set_field_eqs)

lemma deriveAddressing_eq: "deriveAddressing r es = derive_spec r es"
proof -
  let ?f = "fill_site (itoa (siteIndex (om_Name (es_Meta es)))) (es_Spec es)"
  have 1: "ranBase r (es\<lparr>es_Spec := ?f\<rparr>) = ranBase r es"
    by (rule ranBase_cong) (simp_all add: fill_site_def)
  have 2: "allocateRanVIP r (es\<lparr>es_Spec := ?f\<lparr>es_RanSubnet := v\<rparr>\<rparr>) base = allocateRanVIP r es base" for v base
    by (rule allocateRanVIP_cong) (simp_all add: fill_site_def)
  have 3: "es_Colocated ?f = es_Colocated (es_Spec es)" "es_RanSubnet ?f = es_RanSubnet (es_Spec es)"
    "es_N2VIP ?f = es_N2VIP (es_Spec es)" "es_RanNic ?f = es_RanNic (es_Spec es)"
    by (simp_all add: fill_site_def)
  show ?thesis
    unfolding derive_spec_def deriveAddressing_def Let_def derive_site_eq set_field_eqs fst_conv snd_conv
      fill_spec_def fill_ran_def needs_fill_def 1 2 3 EdgeSiteSpec.simps
    by (simp add: 3 cong: if_cong sum.case_cong)
qed

section \<open>The effect of deriving\<close>

lemma spec_of_EdgeSite: "spec_of y = SEdgeSite s \<Longrightarrow> \<exists>x. y = KEdgeSite x \<and> es_Spec x = s"
  by (cases y) auto

lemma same_intent_EdgeSite:
  "same_intent (KEdgeSite a) y \<Longrightarrow> \<exists>b. y = KEdgeSite b \<and> es_Spec b = es_Spec a \<and> om_Name (es_Meta b) = om_Name (es_Meta a)
     \<and> om_Namespace (es_Meta b) = om_Namespace (es_Meta a)"
  using spec_of_EdgeSite [of y "es_Spec a"] by (fastforce simp: same_intent_def key_of_def)

lemma fill_spec_no_op: "\<not> needs_fill s \<Longrightarrow> fill_spec idx base vip s = s"
  by (simp add: fill_spec_def fill_ran_def fill_site_def needs_fill_def)

lemma is_base_nonempty: "is_base b \<Longrightarrow> b \<noteq> ''''"
  by (auto simp: is_base_def)

lemma filled: "vip \<noteq> '''' \<Longrightarrow> \<not> needs_fill (fill_spec idx base vip s)"
  by (simp add: fill_spec_def fill_ran_def fill_site_def needs_fill_def)

context edgesite_world
begin

lemma derive_effect:
  assumes site: "is_site view w es" and run: "run_state (deriveAddressing r es) w = ((e, es'), w')"
  obtains (complete) "\<not> needs_fill (es_Spec es)" "e = None" "es' = es" "view w' = view w"
  | (failed) err where "needs_fill (es_Spec es)" "e = Some err" "view w' = view w"
  | (stored) base vip w1 w2 where "needs_fill (es_Spec es)" "e = None"
      "run_state (ranBase r es) w = (base, w1)" "view w1 = view w"
      "run_state (if es_Colocated (es_Spec es) then ret (base @ ''.240'') else allocateRanVIP r es base) w1 = (vip, w2)"
      "es_Spec es' = fill_spec (itoa (siteIndex (om_Name (es_Meta es)))) base vip (es_Spec es)"
      "om_Name (es_Meta es') = om_Name (es_Meta es)" "key_of (KEdgeSite es') = key_of (KEdgeSite es)"
      "view w' = (view w)(key_of (KEdgeSite es) \<mapsto> KEdgeSite es')"
proof -
  define vipM where "vipM base = (if es_Colocated (es_Spec es) then ret (base @ ''.240'') else allocateRanVIP r es base)" for base
  obtain base w1 where b: "run_state (ranBase r es) w = (base, w1)" by force
  obtain vip w2 where v: "run_state (vipM base) w1 = (vip, w2)" by force
  define f where "f = fill_spec (itoa (siteIndex (om_Name (es_Meta es)))) base vip (es_Spec es)"
  have v1: "view w1 = view w" using frameD [OF ranBase_frame b] .
  have "frame view (vipM base)" unfolding vipM_def by (intro frame_intros allocateRanVIP_frame)
  from frameD [OF this v] v1 have v2: "view w2 = view w" by simp
  note u = run [unfolded deriveAddressing_eq derive_spec_def, folded vipM_def]
  show ?thesis
  proof (cases "needs_fill (es_Spec es)")
    case False
    with u b v have "((e, es'), w') = ((None, es\<lparr>es_Spec := es_Spec es\<rparr>), w2)"
      by (simp add: fill_spec_no_op)
    with False v2 show ?thesis by (intro complete) simp_all
  next
    case True
    obtain res w3 where k: "run_state (kUpdate (esr_Client r) (KEdgeSite (es\<lparr>es_Spec := f\<rparr>))) w2 = (res, w3)" by force
    from u b v True k
    have "((e, es'), w') = (case decode_as as_EdgeSite res of Inl err \<Rightarrow> (Some err, es\<lparr>es_Spec := f\<rparr>) | Inr s \<Rightarrow> (None, s), w3)"
      unfolding f_def Let_def by simp
    then have out: "(e, es') = (case decode_as as_EdgeSite res of Inl err \<Rightarrow> (Some err, es\<lparr>es_Spec := f\<rparr>) | Inr s \<Rightarrow> (None, s))"
      and w3: "w3 = w'" by simp_all
    have key: "key_of (KEdgeSite (es\<lparr>es_Spec := f\<rparr>)) = key_of (KEdgeSite es)" by (simp add: key_of_def)
    show ?thesis
    proof (cases res)
      case (Inl err)
      with k w3 update_err have "view w' = view w2" by blast
      with Inl out v2 True show ?thesis by (intro failed) (auto simp: decode_as_def)
    next
      case (Inr y)
      from update_live [OF k [unfolded Inr], of "KEdgeSite es"] key site v2
      have si: "same_intent (KEdgeSite (es\<lparr>es_Spec := f\<rparr>)) y" and vw: "view w3 = (view w2)(key_of (KEdgeSite es) \<mapsto> y)"
        by (auto simp: is_site_def)
      from same_intent_EdgeSite [OF si] obtain x where x: "y = KEdgeSite x" "es_Spec x = f"
        "om_Name (es_Meta x) = om_Name (es_Meta es)" "om_Namespace (es_Meta x) = om_Namespace (es_Meta es)" by auto
      with out Inr have "e = None" "es' = x" by (auto simp: decode_as_def)
      then show ?thesis
        using stored [of base w1 vip w2] True b v1 v v2 vw w3 x by (simp add: vipM_def f_def key_of_def)
    qed
  qed
qed

end

end
