(* ===== verification/Vip_Pool.thy ===== *)
theory Vip_Pool
  imports Addressing
begin

text \<open>
  The N2 address pool as a state machine: sites are created, changed and deleted by others,
  and the operator reconciles one site at a time. A step relation over the worlds of any API
  server that satisfies the laws of \<open>kube_api\<close>, the invariant that no two sites hold the
  same pool address, and the allocation properties one call at a time.
\<close>

section \<open>The step relation\<close>

text \<open>
  The pool is large enough and names tell sites apart (the allocation compares names only).
\<close>

definition pool_ok :: "('w \<Rightarrow> ObjectKey \<Rightarrow> kobject option) \<Rightarrow> 'w \<Rightarrow> bool" where
  "pool_ok view w \<longleftrightarrow> finite {s. is_site view w s} \<and> card {s. is_site view w s} \<le> 14
     \<and> inj_on (\<lambda>s. om_Name (es_Meta s)) {s. is_site view w s}"

text \<open>
  \<open>reconciled\<close> is one run of \<open>deriveAddressing\<close> on a site the server holds, in which the
  list of the sites could be read; \<open>others\<close> is whatever users and other controllers do that
  gives no site an N2 address.
\<close>

inductive vip_step :: "'w EdgeSiteReconciler \<Rightarrow> ('w \<Rightarrow> ObjectKey \<Rightarrow> kobject option) \<Rightarrow> 'w \<Rightarrow> 'w \<Rightarrow> bool"
  for r view where
  reconciled: "pool_ok view w \<Longrightarrow> is_site view w es \<Longrightarrow>
    run_state (ranBase r es) w = (base, w1) \<Longrightarrow>
    run_state (list_as (esr_Client r) as_EdgeSite (sdcoreGVK ''EdgeSite'') []) w1 = (Inr items, w2) \<Longrightarrow>
    run_state (deriveAddressing r es) w = (res, w') \<Longrightarrow> vip_step r view w w'"
| others: "(\<And>s. is_site view w' s \<Longrightarrow> es_N2VIP (es_Spec s) \<noteq> '''' \<Longrightarrow>
      \<exists>t. is_site view w t \<and> om_Name (es_Meta t) = om_Name (es_Meta s) \<and> es_N2VIP (es_Spec t) = es_N2VIP (es_Spec s)) \<Longrightarrow>
    vip_step r view w w'"

inductive vip_reach :: "'w EdgeSiteReconciler \<Rightarrow> ('w \<Rightarrow> ObjectKey \<Rightarrow> kobject option) \<Rightarrow> 'w \<Rightarrow> 'w \<Rightarrow> bool"
  for r view where
  start: "vip_reach r view w w"
| step: "vip_reach r view w v \<Longrightarrow> vip_step r view v u \<Longrightarrow> vip_reach r view w u"

text \<open>No two sites of different names hold the same address of the pool.\<close>

definition vips_distinct :: "('w \<Rightarrow> ObjectKey \<Rightarrow> kobject option) \<Rightarrow> 'w \<Rightarrow> bool" where
  "vips_distinct view w \<longleftrightarrow> (\<forall>s t d. is_site view w s \<longrightarrow> is_site view w t \<longrightarrow>
     vip_octet (es_N2VIP (es_Spec s)) = Some d \<longrightarrow> vip_octet (es_N2VIP (es_Spec t)) = Some d \<longrightarrow>
     241 \<le> d \<longrightarrow> d \<le> 254 \<longrightarrow> om_Name (es_Meta s) = om_Name (es_Meta t))"

lemma vips_distinct_cong: "view w' = view w \<Longrightarrow> vips_distinct view w' = vips_distinct view w"
  unfolding vips_distinct_def is_site_def by (simp only:)

section \<open>There is room for fourteen sites\<close>

lemma pool_has_room:
  assumes ok: "pool_ok view w" and es: "is_site view w es"
    and items: "\<And>s. s \<in> set items \<longleftrightarrow> is_site view w s"
  shows "\<not> {241..254} \<subseteq> set (taken_octets (om_Name (es_Meta es)) items)"
proof
  assume sub: "{241..254} \<subseteq> set (taken_octets (om_Name (es_Meta es)) items)"
  let ?S = "{s. is_site view w s}"
  let ?T = "?S - {es}"
  have "{241..254} \<subseteq> (\<lambda>s. the (vip_octet (es_N2VIP (es_Spec s)))) ` ?T"
  proof
    fix d :: int
    assume d: "d \<in> {241..254}"
    with sub obtain s where "is_site view w s" "om_Name (es_Meta s) \<noteq> om_Name (es_Meta es)"
      "vip_octet (es_N2VIP (es_Spec s)) = Some d"
      by (auto simp: subset_iff taken_octets_iff items)
    then show "d \<in> (\<lambda>s. the (vip_octet (es_N2VIP (es_Spec s)))) ` ?T" by (intro image_eqI [of _ _ s]) auto
  qed
  moreover have "finite ?T" using ok by (simp add: pool_ok_def)
  ultimately have "card {241..254 :: int} \<le> card ?T"
    by (meson card_image_le card_mono finite_imageI le_trans)
  moreover have "card ?T = card ?S - 1" using ok es by (simp add: pool_ok_def)
  ultimately show False using ok by (simp add: pool_ok_def) linarith
qed

section \<open>The invariant\<close>

text \<open>Storing a site whose address no other site holds keeps the addresses distinct.\<close>

lemma vips_distinct_update:
  assumes inv: "vips_distinct view w" and es: "is_site view w es"
    and vw: "view w' = (view w)(key_of (KEdgeSite es) \<mapsto> KEdgeSite es')"
    and key: "key_of (KEdgeSite es') = key_of (KEdgeSite es)"
    and fresh: "\<And>d s. vip_octet (es_N2VIP (es_Spec es')) = Some d \<Longrightarrow> 241 \<le> d \<Longrightarrow> d \<le> 254 \<Longrightarrow>
      is_site view w s \<Longrightarrow> vip_octet (es_N2VIP (es_Spec s)) = Some d \<Longrightarrow> om_Name (es_Meta s) = om_Name (es_Meta es)"
  shows "vips_distinct view w'"
proof -
  have name: "om_Name (es_Meta es') = om_Name (es_Meta es)" using key by (simp add: key_of_def)
  have site: "is_site view w' s \<longleftrightarrow> s = es' \<or> (is_site view w s \<and> key_of (KEdgeSite s) \<noteq> key_of (KEdgeSite es))" for s
    using key by (auto simp: is_site_def vw)
  show ?thesis
    unfolding vips_distinct_def site
    using inv fresh name unfolding vips_distinct_def by (metis (no_types, lifting))
qed

context edgesite_world
begin

lemma taken_sites:
  assumes "run_state (list_as (esr_Client r) as_EdgeSite (sdcoreGVK ''EdgeSite'') []) w = (Inr items, w1)"
  shows "d \<in> set (taken_octets name items) \<longleftrightarrow> d = 240 \<or>
    (\<exists>s. is_site view w s \<and> om_Name (es_Meta s) \<noteq> name \<and> vip_octet (es_N2VIP (es_Spec s)) = Some d)"
  using list_sites [OF assms] by (auto simp: taken_octets_iff)

lemma reconciled_keeps_distinct:
  assumes inv: "vips_distinct view w" and ok: "pool_ok view w" and es: "is_site view w es"
    and base: "run_state (ranBase r es) w = (base, w1)"
    and items: "run_state (list_as (esr_Client r) as_EdgeSite (sdcoreGVK ''EdgeSite'') []) w1 = (Inr items, w2)"
    and run: "run_state (deriveAddressing r es) w = ((e, es'), w')"
  shows "vips_distinct view w'"
  using es run
proof (cases rule: derive_effect)
  case (stored b vip w1' w3)
  from base stored(3) have b: "b = base" "w1' = w1" by simp_all
  have li: "s \<in> set items \<longleftrightarrow> is_site view w s" for s
    using list_sites [OF items, of s] stored(4) b by (simp add: is_site_def)
  have N2: "es_N2VIP (es_Spec es') = or_else (es_N2VIP (es_Spec es)) vip"
    by (simp add: stored(6) fill_spec_def fill_ran_def fill_site_def)
  show ?thesis
  proof (rule vips_distinct_update [OF inv es stored(9,8)])
    fix d s
    assume d: "vip_octet (es_N2VIP (es_Spec es')) = Some d" "241 \<le> d" "d \<le> 254"
      and s: "is_site view w s" "vip_octet (es_N2VIP (es_Spec s)) = Some d"
    show "om_Name (es_Meta s) = om_Name (es_Meta es)"
    proof (cases "es_N2VIP (es_Spec es) = ''''")
      case False
      with d N2 have "vip_octet (es_N2VIP (es_Spec es)) = Some d" by simp
      with inv s es d(2,3) show ?thesis unfolding vips_distinct_def by blast
    next
      case True
      have bb: "is_base base" using ranBase_is_base [OF base] .
      have "\<not> es_Colocated (es_Spec es)"
        using d N2 True stored(5) b vip_octet_base [OF bb, of 240] by (auto simp: itoa_240)
      with stored(5) b have "run_state (allocateRanVIP r es base) w1 = (vip, w3)" by simp
      then show ?thesis
      proof (cases rule: allocateRanVIP_result)
        case kept
        with True show ?thesis by (simp add: pool_vip_def split: option.splits) (meson vip_octet_nonempty)
      next
        case (chosen l d')
        with items have "l = Inr items" by simp
        with chosen pool_has_room [OF ok es li] have "d' \<notin> set (taken_octets (om_Name (es_Meta es)) items)" by simp
        moreover have "d' = d" using chosen d N2 True bb by simp
        ultimately show ?thesis using s li by (auto simp: taken_octets_iff)
      qed
    qed
  qed
qed (use inv vips_distinct_cong [of view w' w] in blast)+

lemma vip_step_keeps_distinct:
  assumes "vip_step r view w w'" and inv: "vips_distinct view w"
  shows "vips_distinct view w'"
  using assms(1)
proof cases
  case (reconciled es base w1 items w2 res)
  then show ?thesis using reconciled_keeps_distinct [OF inv] by (metis prod.collapse)
next
  case others
  have "om_Name (es_Meta s) = om_Name (es_Meta t)"
    if "is_site view w' s" "is_site view w' t" "vip_octet (es_N2VIP (es_Spec s)) = Some d"
      "vip_octet (es_N2VIP (es_Spec t)) = Some d" "241 \<le> d" "d \<le> 254" for s t d
    using others [OF that(1)] others [OF that(2)] that(3-6) inv
    by (metis vip_octet_nonempty vips_distinct_def)
  then show ?thesis unfolding vips_distinct_def by blast
qed

lemma vip_reach_distinct: "vip_reach r view w w' \<Longrightarrow> vips_distinct view w \<Longrightarrow> vips_distinct view w'"
  by (induction rule: vip_reach.induct) (auto intro: vip_step_keeps_distinct)

end

section \<open>The in-memory server\<close>

definition mem_reconciler :: "'x cluster_scheme env \<Rightarrow> 'x cluster_scheme EdgeSiteReconciler" where
  "mem_reconciler E = \<lparr>esr_Client = mem_client, esr_Env = E, BlueprintRepo = ''catalog'', MgmtRepo = ''mgmt''\<rparr>"

interpretation mem_sites: edgesite_world "mem_reconciler E" cl_view for E
  unfolding edgesite_world_def mem_reconciler_def EdgeSiteReconciler.select_convs by (rule mem.kube_api_axioms)

text \<open>A cluster with two new sites whose names start the probe at the same slot.\<close>

definition two_sites :: cluster where
  "two_sites = \<lparr>cl_objects = [KEdgeSite (new_EdgeSite ''default'' ''site-4'' ''192.168.1.7'' ''edge''),
     KEdgeSite (new_EdgeSite ''default'' ''site-10'' ''192.168.1.8'' ''edge'')], cl_revision = 5\<rparr>"

abbreviation "site4 \<equiv> new_EdgeSite ''default'' ''site-4'' ''192.168.1.7'' ''edge''"
abbreviation "site10 \<equiv> new_EdgeSite ''default'' ''site-10'' ''192.168.1.8'' ''edge''"

lemma two_sites_runs:
  "run_state (ranBase (mem_reconciler quiet_env) site4) two_sites = (''192.168.1'', two_sites)"
  "run_state (list_as (esr_Client (mem_reconciler quiet_env)) as_EdgeSite (sdcoreGVK ''EdgeSite'') []) two_sites
     = (Inr [site4, site10], two_sites)"
  "run_state (allocateRanVIP (mem_reconciler quiet_env) site4 ''192.168.1'') two_sites = (''192.168.1.245'', two_sites)"
  by code_simp+

lemma two_sites_is_site: "is_site cl_view two_sites s \<longleftrightarrow> s = site4 \<or> s = site10"
  using mem_sites.list_sites [OF two_sites_runs(2), of s] by simp

lemma two_sites_pool_ok: "pool_ok cl_view two_sites"
proof -
  have "{s. is_site cl_view two_sites s} = {site4, site10}" by (auto simp: two_sites_is_site)
  moreover have "om_Name (es_Meta site4) \<noteq> om_Name (es_Meta site10)" by (simp add: new_EdgeSite_def)
  ultimately show ?thesis by (auto simp: pool_ok_def inj_on_def card_insert_if)
qed

lemma vip_octet_Nil [simp]: "vip_octet '''' = None"
  by code_simp

lemma two_sites_distinct: "vips_distinct cl_view two_sites"
  by (auto simp: vips_distinct_def two_sites_is_site new_EdgeSite_def zero_EdgeSiteSpec_def)

section \<open>Properties\<close>

text \<open>C7. An allocation returns the address the site already holds when it is one of the pool;
  otherwise, when the list of sites could be read, it returns an address of the pool on the
  site's RAN network that no other site holds, unless all fourteen are held by others.\<close>

theorem allocateRanVIP_correct:
  assumes api: "edgesite_world r view"
    and base: "run_state (ranBase r es) w0 = (base, w)"
    and sites: "run_state (list_as (esr_Client r) as_EdgeSite (sdcoreGVK ''EdgeSite'') []) w = (Inr items, w1)"
    and run: "run_state (allocateRanVIP r es base) w = (vip, w')"
  shows "pool_vip vip \<and> view w' = view w
    \<and> (pool_vip (es_N2VIP (es_Spec es)) \<longrightarrow> vip = es_N2VIP (es_Spec es))
    \<and> (\<not> pool_vip (es_N2VIP (es_Spec es)) \<longrightarrow> netBase vip = base \<and>
        ((\<forall>s. is_site view w s \<and> om_Name (es_Meta s) \<noteq> om_Name (es_Meta es) \<longrightarrow>
              vip_octet (es_N2VIP (es_Spec s)) \<noteq> vip_octet vip)
         \<or> (\<forall>d \<in> {241..254}. \<exists>s. is_site view w s \<and> om_Name (es_Meta s) \<noteq> om_Name (es_Meta es) \<and>
              vip_octet (es_N2VIP (es_Spec s)) = Some d)))"
proof -
  note bb = ranBase_is_base [OF base]
  note ts = edgesite_world.taken_sites [OF api sites]
  have fr: "view w' = view w" using frameD [OF edgesite_world.allocateRanVIP_frame [OF api] run] .
  from run show ?thesis
  proof (cases rule: allocateRanVIP_result)
    case kept
    with fr show ?thesis by simp
  next
    case (chosen l d)
    with sites have "l = Inr items" by simp
    with chosen have t: "d \<notin> set (taken_octets (om_Name (es_Meta es)) items)
        \<or> {241..254} \<subseteq> set (taken_octets (om_Name (es_Meta es)) items)" by simp
    have o: "vip_octet vip = Some d" "netBase vip = base" using chosen bb by simp_all
    then have "pool_vip vip" using chosen by (simp add: pool_vip_def)
    moreover have "(\<forall>s. is_site view w s \<and> om_Name (es_Meta s) \<noteq> om_Name (es_Meta es) \<longrightarrow>
              vip_octet (es_N2VIP (es_Spec s)) \<noteq> vip_octet vip)
         \<or> (\<forall>d \<in> {241..254}. \<exists>s. is_site view w s \<and> om_Name (es_Meta s) \<noteq> om_Name (es_Meta es) \<and>
              vip_octet (es_N2VIP (es_Spec s)) = Some d)"
      using t unfolding ts o subset_iff by auto
    ultimately show ?thesis using fr o chosen(1) by blast
  qed
qed

theorem allocateRanVIP_correct_witness:
  "pool_vip ''192.168.1.245'' \<and> netBase ''192.168.1.245'' = ''192.168.1''"
proof -
  have "\<not> pool_vip (es_N2VIP (es_Spec site4))" by code_simp
  with allocateRanVIP_correct [OF mem_sites.edgesite_world_axioms two_sites_runs] show ?thesis by blast
qed



text \<open>Two reconciles that read the same list can choose the same address: started from one
  snapshot, site-4 and site-10 are both given 192.168.1.245.\<close>

theorem vip_same_snapshot_collides:
  "let R = mem_reconciler quiet_env
   in fst (run_state (allocateRanVIP R site4 ''192.168.1'') two_sites) = ''192.168.1.245''
    \<and> fst (run_state (allocateRanVIP R site10 ''192.168.1'') two_sites) = ''192.168.1.245''"
  by code_simp

text \<open>When others hold all fourteen addresses the call returns the last one all the same, which
  is then held twice.\<close>

theorem vip_pool_exhausted:
  assumes api: "edgesite_world r view"
    and sites: "run_state (list_as (esr_Client r) as_EdgeSite (sdcoreGVK ''EdgeSite'') []) w = (Inr items, w1)"
    and empty: "es_N2VIP (es_Spec es) = ''''"
    and full: "\<forall>d \<in> {241..254}. \<exists>s. is_site view w s \<and> om_Name (es_Meta s) \<noteq> om_Name (es_Meta es)
      \<and> vip_octet (es_N2VIP (es_Spec s)) = Some d"
  shows "fst (run_state (allocateRanVIP r es base) w) = base @ ''.254''"
proof -
  have "{241..254} \<subseteq> set (taken_octets (om_Name (es_Meta es)) items)"
    using full unfolding subset_iff edgesite_world.taken_sites [OF api sites] by blast
  then show ?thesis
    using sites empty probe_octet_None [of "taken_octets (om_Name (es_Meta es)) items"]
    by (simp add: allocateRanVIP_def Let_def)
qed

text \<open>Fourteen sites that hold the fourteen addresses, and a new one.\<close>

definition full_pool :: cluster where
  "full_pool = \<lparr>cl_objects = map (\<lambda>d. let s = new_EdgeSite ''default'' (CHR ''s'' # itoa d) ''192.168.1.7'' ''edge''
       in KEdgeSite (s\<lparr>es_Spec := (es_Spec s)\<lparr>es_N2VIP := ''192.168.1.'' @ itoa d\<rparr>\<rparr>)) [241..254], cl_revision = 5\<rparr>"

theorem vip_pool_exhausted_witness:
  "fst (run_state (allocateRanVIP (mem_reconciler quiet_env) site4 ''192.168.1'') full_pool) = ''192.168.1.254''"
proof -
  define items where "items = map (\<lambda>d. let s = new_EdgeSite ''default'' (CHR ''s'' # itoa d) ''192.168.1.7'' ''edge''
       in s\<lparr>es_Spec := (es_Spec s)\<lparr>es_N2VIP := ''192.168.1.'' @ itoa d\<rparr>\<rparr>) [241..254]"
  have l: "run_state (list_as (esr_Client (mem_reconciler quiet_env)) as_EdgeSite (sdcoreGVK ''EdgeSite'') []) full_pool
     = (Inr items, full_pool)"
    unfolding items_def by code_simp
  have "list_all (\<lambda>d. list_ex (\<lambda>s. om_Name (es_Meta s) \<noteq> om_Name (es_Meta site4) \<and> vip_octet (es_N2VIP (es_Spec s)) = Some d) items) [241..254]"
    unfolding items_def by code_simp
  then have "\<forall>d \<in> {241..254}. \<exists>s. is_site cl_view full_pool s \<and> om_Name (es_Meta s) \<noteq> om_Name (es_Meta site4)
      \<and> vip_octet (es_N2VIP (es_Spec s)) = Some d"
    using mem_sites.list_sites [OF l] unfolding list_all_iff list_ex_iff set_upto by blast
  moreover have "es_N2VIP (es_Spec site4) = ''''" by code_simp
  ultimately show ?thesis
    using vip_pool_exhausted [OF mem_sites.edgesite_world_axioms l, of site4 "''192.168.1''"] by simp
qed

text \<open>The address of the management core (.240) and every address of the pool is recognised as
  an N2 address by the stale-address cleanup, and an address outside .240-.254 is not.\<close>

theorem isRanVIPCandidate_correct:
  assumes "run_state (ranBase r es) w = (base, w')" and "0 \<le> d" and "d \<le> 255"
  shows "isRanVIPCandidate (base @ ''.'' @ itoa d) \<longleftrightarrow> 240 \<le> d \<and> d \<le> 254"
  using vip_octet_base [OF ranBase_is_base [OF assms(1)], of d] assms(2,3)
  by (simp add: isRanVIPCandidate_octet)

theorem isRanVIPCandidate_correct_witness:
  "isRanVIPCandidate (''192.168.1'' @ ''.'' @ itoa 240) \<and> \<not> isRanVIPCandidate (''192.168.1'' @ ''.'' @ itoa 20)"
  using isRanVIPCandidate_correct [OF two_sites_runs(1), of 240] isRanVIPCandidate_correct [OF two_sites_runs(1), of 20]
  by simp

end
