(* ===== verification/Go_Net.thy ===== *)
theory Go_Net
  imports Go_Scan
begin

text \<open>
  Package \<open>net\<close> of the Go library, as far as the datapath actuator uses it: the parser of IP
  addresses (\<open>netip.ParseAddr\<close>, which \<open>net.ParseIP\<close> and \<open>net.ParseCIDR\<close> call), masks,
  comparison and printing. A \<open>net.IP\<close> is its bytes, the nil address being the empty list. The
  lemmas show that parsing and printing dotted decimals are inverse to each other in both
  directions, so that the text of an IPv4 address determines it and is determined by it.
\<close>

section \<open>Addresses\<close>

type_synonym IP = "int list"

definition v4InV6Prefix :: "int list" where
  "v4InV6Prefix = [0, 0, 0, 0, 0, 0, 0, 0, 0, 0, 255, 255]"

definition IPv4zero :: IP where
  "IPv4zero = v4InV6Prefix @ [0, 0, 0, 0]"

definition To4 :: "IP \<Rightarrow> IP" where
  "To4 ip = (if length ip = 4 then ip else if length ip = 16 \<and> take 12 ip = v4InV6Prefix then drop 12 ip else [])"

definition IP_Equal :: "IP \<Rightarrow> IP \<Rightarrow> bool" where
  "IP_Equal ip x =
     (if length ip = length x then ip = x
      else if length ip = 4 \<and> length x = 16 then take 12 x = v4InV6Prefix \<and> ip = drop 12 x
      else if length ip = 16 \<and> length x = 4 then take 12 ip = v4InV6Prefix \<and> drop 12 ip = x
      else False)"

section \<open>Parsing\<close>

text \<open>\<open>parseIPv4Fields\<close>: the octets, when there are four, each below 256 and without leading zeros.\<close>

fun ipv4_fields :: "string \<Rightarrow> int \<Rightarrow> nat \<Rightarrow> int list \<Rightarrow> int list option" where
  "ipv4_fields [] val digLen fields = (if length fields < 3 then None else Some (fields @ [val]))"
| "ipv4_fields (c # cs) val digLen fields =
     (if is_digit (of_char c) then
        if digLen = 1 \<and> val = 0 then None
        else if val * 10 + of_char c - 48 > 255 then None
        else ipv4_fields cs (val * 10 + of_char c - 48) (Suc digLen) fields
      else if c = CHR ''.'' then
        if digLen = 0 \<or> cs = [] then None
        else if length fields = 3 then None
        else ipv4_fields cs 0 0 (fields @ [val])
      else None)"

text \<open>A hexadecimal field of \<open>parseIPv6\<close>: its length, its value and the text after it.\<close>

fun hex_group :: "string \<Rightarrow> nat \<Rightarrow> int \<Rightarrow> (nat \<times> int \<times> string) option" where
  "hex_group [] off acc = Some (off, acc, [])"
| "hex_group (c # cs) off acc =
     (case digit_of c of
        Some d \<Rightarrow>
          if d < 16 then
            if off > 3 \<or> acc * 16 + d > 65535 then None else hex_group cs (Suc off) (acc * 16 + d)
          else Some (off, acc, c # cs)
      | None \<Rightarrow> Some (off, acc, c # cs))"

text \<open>
  The loop of \<open>parseIPv6\<close>: \<open>ip\<close> holds the bytes so far, \<open>ell\<close> the position of the
  ellipsis; it returns both and the text that is left.
\<close>

function ipv6_fields :: "string \<Rightarrow> int list \<Rightarrow> nat option \<Rightarrow> (int list \<times> nat option \<times> string) option" where
  "ipv6_fields s ip ell =
     (if length ip \<ge> 16 then Some (ip, ell, s)
      else case hex_group s 0 0 of None \<Rightarrow> None
      | Some (off, acc, rest) \<Rightarrow>
          if off = 0 then None
          else if rest \<noteq> [] \<and> hd rest = CHR ''.'' then
            if ell = None \<and> length ip \<noteq> 12 then None
            else if length ip + 4 > 16 then None
            else (case ipv4_fields s 0 0 [] of None \<Rightarrow> None | Some f \<Rightarrow> Some (ip @ f, ell, []))
          else if rest = [] then Some (ip @ [acc div 256, acc mod 256], ell, [])
          else if hd rest \<noteq> CHR '':'' \<or> tl rest = [] then None
          else if hd (tl rest) = CHR '':'' then
            if ell \<noteq> None then None
            else if tl (tl rest) = [] then Some (ip @ [acc div 256, acc mod 256], Some (length ip + 2), [])
            else ipv6_fields (tl (tl rest)) (ip @ [acc div 256, acc mod 256]) (Some (length ip + 2))
          else ipv6_fields (tl rest) (ip @ [acc div 256, acc mod 256]) ell)"
  by pat_completeness auto
termination
  by (relation "measure (\<lambda>(s, ip, ell). 16 - length ip)") auto

declare ipv6_fields.simps [simp del]

text \<open>The sixteen bytes: the ellipsis stands for at least one pair of zeros.\<close>

definition expand_ellipsis :: "int list \<Rightarrow> nat option \<Rightarrow> int list option" where
  "expand_ellipsis ip ell =
     (if length ip < 16 then
        (case ell of None \<Rightarrow> None | Some e \<Rightarrow> Some (take e ip @ replicate (16 - length ip) 0 @ drop e ip))
      else case ell of None \<Rightarrow> Some ip | Some e \<Rightarrow> None)"

definition parseIPv6 :: "string \<Rightarrow> (int list \<times> string) option" where
  "parseIPv6 s =
     (let addr = takeWhile (\<lambda>c. c \<noteq> CHR ''%'') s; zone = drop (Suc (length addr)) s in
      if length addr < length s \<and> zone = [] then None
      else if addr = ''::'' then Some (replicate 16 0, zone)
      else
        let lead = (take 2 addr = ''::'') in
        case ipv6_fields (if lead then drop 2 addr else addr) [] (if lead then Some 0 else None) of
          None \<Rightarrow> None
        | Some (ip, ell, rest) \<Rightarrow>
            if rest \<noteq> [] then None
            else case expand_ellipsis ip ell of None \<Rightarrow> None | Some b \<Rightarrow> Some (b, zone))"

text \<open>\<open>netip.ParseAddr\<close>: the bytes (four or sixteen) and the zone; what its errors say is never used.\<close>

definition netip_ParseAddr :: "string \<Rightarrow> (int list \<times> string) option" where
  "netip_ParseAddr s =
     (case find (\<lambda>c. c = CHR ''.'' \<or> c = CHR '':'' \<or> c = CHR ''%'') s of
        Some c \<Rightarrow>
          if c = CHR ''.'' then map_option (\<lambda>f. (f, [])) (ipv4_fields s 0 0 [])
          else if c = CHR '':'' then parseIPv6 s
          else None
      | None \<Rightarrow> None)"

definition As16 :: "int list \<Rightarrow> int list" where
  "As16 a = (if length a = 4 then v4InV6Prefix @ a else a)"

definition ParseIP :: "string \<Rightarrow> IP" where
  "ParseIP s = (case netip_ParseAddr s of Some (a, zone) \<Rightarrow> if zone = [] then As16 a else [] | None \<Rightarrow> [])"

section \<open>Masks and CIDR texts\<close>

record IPNet =
  net_IP :: IP
  net_Mask :: "int list"

fun mask_bytes :: "nat \<Rightarrow> nat \<Rightarrow> int list" where
  "mask_bytes n 0 = []"
| "mask_bytes n (Suc l) = (if n \<ge> 8 then 255 # mask_bytes (n - 8) l else (256 - 2 ^ (8 - n)) # mask_bytes 0 l)"

definition CIDRMask :: "int \<Rightarrow> nat \<Rightarrow> int list" where
  "CIDRMask ones bits = mask_bytes (nat ones) (bits div 8)"

definition IP_Mask :: "IP \<Rightarrow> int list \<Rightarrow> IP" where
  "IP_Mask ip mk =
     (let m = (if length mk = 16 \<and> length ip = 4 \<and> list_all (\<lambda>b. b = 255) (take 12 mk) then drop 12 mk else mk);
          i = (if length m = 4 \<and> length ip = 16 \<and> take 12 ip = v4InV6Prefix then drop 12 ip else ip)
      in if length i \<noteq> length m then [] else map2 Bit_Operations.and i m)"

text \<open>\<open>IPMask.Size\<close>: ones and bits of a mask whose one bits come first, else zero and zero.\<close>

definition lead_ones :: "int \<Rightarrow> nat option" where
  "lead_ones v = find (\<lambda>k. v = 256 - 2 ^ (8 - k)) [0..<8]"

fun simpleMaskLength :: "int list \<Rightarrow> nat option" where
  "simpleMaskLength [] = Some 0"
| "simpleMaskLength (v # vs) =
     (if v = 255 then map_option ((+) 8) (simpleMaskLength vs)
      else if list_all (\<lambda>b. b = 0) vs then lead_ones v else None)"

definition Mask_Size :: "int list \<Rightarrow> nat \<times> nat" where
  "Mask_Size m = (case simpleMaskLength m of None \<Rightarrow> (0, 0) | Some n \<Rightarrow> (n, 8 * length m))"

text \<open>\<open>dtoi\<close> on a text that must be all digits; numbers from \<open>0xFFFFFF\<close> on are refused.\<close>

fun dtoi :: "string \<Rightarrow> int \<Rightarrow> int option" where
  "dtoi [] n = Some n"
| "dtoi (c # cs) n =
     (if is_digit (of_char c) \<and> n * 10 + (of_char c - 48) < 16777215 then dtoi cs (n * 10 + (of_char c - 48)) else None)"

definition cidr_error :: "string \<Rightarrow> error" where
  "cidr_error s = ErrorString (''invalid CIDR address: '' @ s)"

definition ParseCIDR :: "string \<Rightarrow> error + IP \<times> IPNet" where
  "ParseCIDR s =
     (let addr = takeWhile (\<lambda>c. c \<noteq> CHR ''/'') s; mk = drop (Suc (length addr)) s in
      if length addr = length s then Inl (cidr_error s)
      else case netip_ParseAddr addr of None \<Rightarrow> Inl (cidr_error s)
      | Some (a, zone) \<Rightarrow>
          if zone \<noteq> [] \<or> mk = [] then Inl (cidr_error s)
          else case dtoi mk 0 of None \<Rightarrow> Inl (cidr_error s)
          | Some n \<Rightarrow>
              if n > 8 * int (length a) then Inl (cidr_error s)
              else let m = CIDRMask n (8 * length a)
                   in Inr (As16 a, \<lparr>net_IP = IP_Mask (As16 a) m, net_Mask = m\<rparr>))"

section \<open>Printing\<close>

text \<open>The longest run of at least two zero groups, the first of them when there are several.\<close>

fun zero_runs :: "nat \<Rightarrow> int list \<Rightarrow> nat \<times> nat \<Rightarrow> nat \<times> nat" where
  "zero_runs i [] best = best"
| "zero_runs i (g # gs) (start, l) =
     (let k = length (takeWhile (\<lambda>x. x = 0) (g # gs))
      in zero_runs (Suc i) gs (if k \<ge> 2 \<and> k > l then (i, k) else (start, l)))"

fun groups16 :: "int list \<Rightarrow> int list" where
  "groups16 (a # b # r) = (a * 256 + b) # groups16 r"
| "groups16 _ = []"

definition hex_digit :: "int \<Rightarrow> char" where
  "hex_digit d = (if d < 10 then char_of (48 + nat d) else char_of (87 + nat d))"

definition appendHex :: "int \<Rightarrow> string" where
  "appendHex v = (let ds = [v div 4096, v div 256 mod 16, v div 16 mod 16, v mod 16]
     in map hex_digit (case dropWhile (\<lambda>d. d = 0) ds of [] \<Rightarrow> [0] | r \<Rightarrow> r))"

fun join_groups :: "int list \<Rightarrow> string" where
  "join_groups [] = []"
| "join_groups [g] = appendHex g"
| "join_groups (g # gs) = appendHex g @ CHR '':'' # join_groups gs"

definition string6 :: "int list \<Rightarrow> string" where
  "string6 ip = (let gs = groups16 ip; (start, l) = zero_runs 0 gs (0, 0)
     in if l = 0 then join_groups gs
        else join_groups (take start gs) @ ''::'' @ join_groups (drop (start + l) gs))"

definition hexString :: "int list \<Rightarrow> string" where
  "hexString b = concat (map (\<lambda>v. [hex_digit (v div 16), hex_digit (v mod 16)]) b)"

definition IP_String :: "IP \<Rightarrow> string" where
  "IP_String ip =
     (if ip = [] then ''<nil>''
      else if length ip \<noteq> 4 \<and> length ip \<noteq> 16 then CHR ''?'' # hexString ip
      else if length (To4 ip) = 4 then dotted (To4 ip)
      else string6 ip)"

section \<open>Dotted decimals\<close>

definition octets :: "int list \<Rightarrow> bool" where
  "octets a \<longleftrightarrow> length a = 4 \<and> list_all (\<lambda>v. 0 \<le> v \<and> v < 256) a"

lemma octets_cases:
  assumes "octets a"
  obtains p q r s where "a = [p, q, r, s]"
  using assms by (auto simp: octets_def length_Suc_conv eval_nat_numeral)

lemma slash_not_in_itoa: "CHR ''/'' \<notin> set (itoa v)"
proof -
  have "CHR ''/'' \<notin> set (nat_str n)" for n
    using nat_str_digits [of n] by (auto simp: bytes_def list_all_iff is_digit_def)
  then show ?thesis by (auto simp: itoa_def)
qed

lemma slash_not_in_dotted: "CHR ''/'' \<notin> set (dotted vs)"
  by (induction vs rule: dotted.induct) (auto simp: slash_not_in_itoa)


lemma digit_char_code: "n < 10 \<Longrightarrow> of_char (digit_char n) = (48 + int n :: int)"
  by (simp add: digit_char_def of_char_int)

text \<open>The digits of a printed number are read one after the other.\<close>

lemma nat_str_step: "10 \<le> n \<Longrightarrow> nat_str n = nat_str (n div 10) @ [digit_char (n mod 10)]"
  by (subst nat_str.simps) simp

lemma nat_str_digit: "n < 10 \<Longrightarrow> nat_str n = [digit_char n]"
  by (subst nat_str.simps) simp

text \<open>Induction over the decimal digits of a number.\<close>

lemma nat_str_induct [case_names digit more]:
  assumes "\<And>d. d < 10 \<Longrightarrow> P d [digit_char d]"
    and "\<And>m d. 1 \<le> m \<Longrightarrow> d < 10 \<Longrightarrow> P m (nat_str m) \<Longrightarrow> P (m * 10 + d) (nat_str m @ [digit_char d])"
  shows "P n (nat_str n)"
proof (induction n rule: less_induct)
  case (less n)
  show ?case
  proof (cases "n < 10")
    case True
    then show ?thesis using assms(1) by (simp add: nat_str_digit)
  next
    case False
    then show ?thesis
      using assms(2) [of "n div 10" "n mod 10"] less.IH [of "n div 10"] by (simp add: nat_str_step)
  qed
qed

lemma ipv4_fields_nat_str:
  "n \<le> 255 \<Longrightarrow> ipv4_fields (nat_str n @ rest) 0 0 fs = ipv4_fields rest (int n) (length (nat_str n)) fs"
proof (induction n arbitrary: rest rule: nat_str_induct)
  case (digit d)
  then show ?case by (simp add: digit_char_code is_digit_def)
next
  case (more m d)
  from more.IH [of "digit_char d # rest"] more.prems more.hyps show ?case
    by (simp add: digit_char_code is_digit_def)
qed

lemma dtoi_nat_str: "n < 16777215 \<Longrightarrow> dtoi (nat_str n @ rest) 0 = dtoi rest (int n)"
proof (induction n arbitrary: rest rule: nat_str_induct)
  case (digit d)
  then show ?case by (simp add: digit_char_code is_digit_def)
next
  case (more m d)
  from more.IH [of "digit_char d # rest"] more.prems more.hyps show ?case
    by (simp add: digit_char_code is_digit_def)
qed

lemma ipv4_fields_itoa:
  "0 \<le> v \<Longrightarrow> v < 256 \<Longrightarrow> ipv4_fields (itoa v @ rest) 0 0 fs = ipv4_fields rest v (length (itoa v)) fs"
  using ipv4_fields_nat_str [of "nat v" rest fs] by (simp add: itoa_nonneg)

lemma itoa_nonempty [simp]: "itoa v \<noteq> []"
  by (simp add: itoa_def)

lemma ipv4_fields_dotted: "octets a \<Longrightarrow> ipv4_fields (dotted a) 0 0 [] = Some a"
proof -
  assume o: "octets a"
  then obtain p q r s where a: "a = [p, q, r, s]" by (rule octets_cases)
  from o show ?thesis
    using ipv4_fields_itoa [of s "[]"]
    by (simp add: a octets_def ipv4_fields_itoa is_digit_def)
qed

text \<open>Conversely, a text that is read as four octets is their dotted decimal.\<close>

lemma itoa_snoc:
  assumes "1 \<le> v" and "is_digit (of_char c)"
  shows "itoa (v * 10 + of_char c - 48) = itoa v @ [c]"
proof -
  let ?d = "nat (of_char c - 48)"
  have d: "?d < 10" and c: "digit_char ?d = c"
    using assms(2) by (auto simp: is_digit_def digit_char_def of_char_int nat_diff_distrib nat_plus_as_int)
  have n: "nat (v * 10 + of_char c - 48) = nat v * 10 + ?d"
    using assms unfolding is_digit_def by arith
  show ?thesis
    using assms d c nat_str_step [of "nat v * 10 + ?d"] by (simp add: itoa_nonneg n is_digit_def)
qed

lemma itoa_digit: "is_digit (of_char c) \<Longrightarrow> itoa (of_char c - 48) = [c]"
  by (auto simp: is_digit_def itoa_nonneg nat_str_digit digit_char_def of_char_int nat_plus_as_int)

lemma dotted_Cons: "vs \<noteq> [] \<Longrightarrow> dotted (v # vs) = itoa v @ CHR ''.'' # dotted vs"
  by (cases vs) auto

lemma ipv4_fields_sound:
  assumes "ipv4_fields s val digLen fs = Some r" and "length fs \<le> 3" and "0 \<le> val" and "val < 256"
    and "if digLen = 0 then val = 0 \<and> p = [] \<and> s \<noteq> [] else p = itoa val \<and> digLen = length p"
  shows "\<exists>rs. r = fs @ rs \<and> rs \<noteq> [] \<and> length r = 4 \<and> p @ s = dotted rs \<and> list_all (\<lambda>v. 0 \<le> v \<and> v < 256) rs"
  using assms
proof (induction s val digLen fs arbitrary: p rule: ipv4_fields.induct)
  case (1 val digLen fields)
  then show ?case by (auto split: if_splits)
next
  case (2 c cs val digLen fields)
  show ?case
  proof (cases "is_digit (of_char c)")
    case dig: True
    let ?v = "val * 10 + of_char c - 48"
    from 2(3) dig have z: "\<not> (digLen = 1 \<and> val = 0)" and le: "\<not> ?v > 255"
      and rec: "ipv4_fields cs ?v (Suc digLen) fields = Some r" by (auto split: if_splits)
    have nz: "1 \<le> val" if "digLen \<noteq> 0"
      using z that "2.prems"(3,5) by (cases "val = 0") (auto simp: itoa_nonneg nat_str_digit)
    have "p @ [c] = itoa ?v"
      using "2.prems"(5) nz itoa_snoc [OF _ dig, of val] itoa_digit [OF dig] by (cases "digLen = 0") auto
    moreover have "Suc digLen = length (p @ [c])" using "2.prems"(5) by (auto split: if_splits)
    moreover have "0 \<le> ?v" using dig "2.prems"(3) by (simp add: is_digit_def)
    ultimately have "\<exists>rs. r = fields @ rs \<and> rs \<noteq> [] \<and> length r = 4 \<and> (p @ [c]) @ cs = dotted rs \<and> list_all (\<lambda>v. 0 \<le> v \<and> v < 256) rs"
      using "2.IH"(1) [OF dig z le rec "2.prems"(2), of "p @ [c]"] le by simp
    then show ?thesis by simp
  next
    case nd: False
    from 2(3) nd have c: "c = CHR ''.''" and dl: "digLen \<noteq> 0" "cs \<noteq> []" and l: "length fields \<noteq> 3"
      and rec: "ipv4_fields cs 0 0 (fields @ [val]) = Some r" by (auto split: if_splits)
    from "2.IH"(2) [OF nd c _ l rec, of "[]"] dl l "2.prems"(2)
    obtain rs where rs: "r = (fields @ [val]) @ rs" "rs \<noteq> []" "length r = 4" "cs = dotted rs" "list_all (\<lambda>v. 0 \<le> v \<and> v < 256) rs"
      by auto
    then show ?thesis
      using "2.prems"(3,4,5) dl c by (intro exI [of _ "val # rs"]) (simp add: dotted_Cons)
  qed
qed

lemma ipv4_fields_iff: "s \<noteq> [] \<Longrightarrow> ipv4_fields s 0 0 [] = Some a \<longleftrightarrow> octets a \<and> s = dotted a"
  using ipv4_fields_sound [of s 0 0 "[]" a "[]"] ipv4_fields_dotted [of a] by (auto simp: octets_def)

text \<open>An address read from a text without a colon or a per cent sign is the dotted decimal of its octets.\<close>

lemma ipv6_fields_length:
  "ipv6_fields s ip ell = Some (b, e, t) \<Longrightarrow> even (length ip) \<Longrightarrow> length ip \<le> 16 \<Longrightarrow> even (length b) \<and> length b \<le> 16"
proof (induction s ip ell rule: ipv6_fields.induct)
  case (1 s ip ell)
  have four: "length f = 4" if "ipv4_fields s 0 0 [] = Some f" "s \<noteq> []" for f
    using that by (simp add: ipv4_fields_iff octets_def)
  have room: "length ip + 2 \<le> 16" if "\<not> 16 \<le> length ip" using that "1.prems"(2) by presburger
  have ne: "s \<noteq> []" if "hex_group s 0 0 = Some (off, acc, rest)" "off \<noteq> 0" for off acc rest using that by auto
  note eq = "1.prems"(1) [unfolded ipv6_fields.simps [of s ip ell]]
  show ?case
  proof (cases "16 \<le> length ip")
    case True
    with eq "1.prems"(2,3) show ?thesis by simp
  next
    case small: False
    then obtain off acc rest where h: "hex_group s 0 0 = Some (off, acc, rest)" and off: "off \<noteq> 0"
      using eq by (auto split: option.splits if_splits)
    note ih = "1.IH" [OF small h refl refl off]
    show ?thesis
      using eq small h off ih four ne [OF h off] room [OF small] "1.prems"(2)
      by (simp split: if_splits option.splits) auto
  qed
qed

lemma parseIPv6_length: "parseIPv6 s = Some (b, z) \<Longrightarrow> length b = 16"
  by (auto simp: parseIPv6_def Let_def expand_ellipsis_def split: if_splits option.splits prod.splits
      dest!: ipv6_fields_length)

lemma find_dotted:
  assumes "octets a"
  shows "find (\<lambda>c. c = CHR ''.'' \<or> c = CHR '':'' \<or> c = CHR ''%'') (dotted a) = Some (CHR ''.'')"
proof -
  have f: "find P (xs @ y # ys) = Some y" if "\<forall>x \<in> set xs. \<not> P x" and "P y" for P :: "char \<Rightarrow> bool" and xs y ys
    using that by (induction xs) auto
  from assms obtain p q r s where a: "a = [p, q, r, s]" by (rule octets_cases)
  have "\<forall>x \<in> set (itoa p). \<not> (x = CHR ''.'' \<or> x = CHR '':'' \<or> x = CHR ''%'')"
    using assms nat_str_digits [of "nat p"]
    by (auto simp: a octets_def itoa_nonneg bytes_def list_all_iff is_digit_def)
  from f [OF this] show ?thesis by (simp add: a)
qed

lemma netip_dotted: "octets a \<Longrightarrow> netip_ParseAddr (dotted a) = Some (a, [])"
  by (simp add: netip_ParseAddr_def find_dotted ipv4_fields_dotted)

lemma netip_short:
  assumes "netip_ParseAddr s = Some (a, z)" and "length a \<noteq> 16"
  shows "octets a \<and> s = dotted a \<and> z = []"
proof -
  have "s \<noteq> []" using assms(1) by (auto simp: netip_ParseAddr_def)
  then show ?thesis
    using assms ipv4_fields_iff [of s a] parseIPv6_length [of s a z]
    by (auto simp: netip_ParseAddr_def split: option.splits if_splits)
qed

lemma As16_octets: "octets a \<Longrightarrow> As16 a = v4InV6Prefix @ a"
  by (simp add: As16_def octets_def)

lemma length_v4InV6Prefix [simp]: "length v4InV6Prefix = 12"
  by (simp add: v4InV6Prefix_def)

lemma To4_octets [simp]: "octets a \<Longrightarrow> To4 a = a" "octets a \<Longrightarrow> To4 (v4InV6Prefix @ a) = a"
  by (simp_all add: To4_def octets_def)

lemma IP_String_octets [simp]: "octets a \<Longrightarrow> IP_String a = dotted a" "octets a \<Longrightarrow> IP_String (v4InV6Prefix @ a) = dotted a"
  by (auto simp: IP_String_def To4_def octets_def v4InV6Prefix_def)

lemma ParseIP_dotted: "octets a \<Longrightarrow> ParseIP (dotted a) = v4InV6Prefix @ a"
  by (simp add: ParseIP_def netip_dotted As16_octets)

section \<open>CIDR texts of dotted decimals\<close>

lemma length_mask_bytes [simp]: "length (mask_bytes n l) = l"
  by (induction n l rule: mask_bytes.induct) auto

lemma simpleMaskLength_mask_bytes: "n \<le> 8 * l \<Longrightarrow> simpleMaskLength (mask_bytes n l) = Some n"
proof (induction n l rule: mask_bytes.induct)
  case (2 n l)
  have z: "list_all (\<lambda>b. b = 0) (mask_bytes 0 k)" for k by (induction k) auto
  show ?case
  proof (cases "n \<ge> 8")
    case True
    with 2 show ?thesis by simp
  next
    case False
    then have "n \<in> {0, 1, 2, 3, 4, 5, 6, 7}" by auto
    with False z show ?thesis by (auto simp: lead_ones_def upt_conv_Cons)
  qed
qed simp

lemma Mask_Size_CIDRMask: "0 \<le> n \<Longrightarrow> n \<le> 32 \<Longrightarrow> Mask_Size (CIDRMask n 32) = (nat n, 32)"
  by (simp add: Mask_Size_def CIDRMask_def simpleMaskLength_mask_bytes)

lemma ParseCIDR_dotted:
  assumes "octets a" and "0 \<le> n" and "n \<le> 32"
  shows "ParseCIDR (dotted a @ CHR ''/'' # itoa n)
    = Inr (v4InV6Prefix @ a, \<lparr>net_IP = map2 Bit_Operations.and a (CIDRMask n 32), net_Mask = CIDRMask n 32\<rparr>)"
proof -
  have l: "length a = 4" using assms(1) by (simp add: octets_def)
  have t: "takeWhile (\<lambda>c. c \<noteq> CHR ''/'') (dotted a @ CHR ''/'' # itoa n) = dotted a"
    using slash_not_in_dotted [of a] by (subst takeWhile_append2) auto
  have d: "dtoi (itoa n) 0 = Some n"
    using dtoi_nat_str [of "nat n" "[]"] assms(2,3) by (simp add: itoa_nonneg)
  show ?thesis
    using assms(2,3) l
    by (simp add: ParseCIDR_def t netip_dotted [OF assms(1)] d As16_def IP_Mask_def CIDRMask_def Let_def)
qed

text \<open>A text with a mask of at most 32 bits on an address of four bytes is read back from what it denotes.\<close>

lemma ParseCIDR_sound:
  assumes "ParseCIDR s = Inr (ip, net)" and "length (net_Mask net) = 4"
  shows "\<exists>a t. octets a \<and> ip = v4InV6Prefix @ a \<and> s = dotted a @ CHR ''/'' # t"
proof -
  let ?addr = "takeWhile (\<lambda>c. c \<noteq> CHR ''/'') s"
  have ne: "length ?addr \<noteq> length s" using assms(1) by (auto simp: ParseCIDR_def Let_def split: if_splits)
  from assms(1) obtain a z where a: "netip_ParseAddr ?addr = Some (a, z)"
    and ip: "ip = As16 a" and m: "length (net_Mask net) = length a"
    by (auto simp: ParseCIDR_def Let_def CIDRMask_def split: if_splits option.splits)
  from netip_short [OF a] m assms(2) have o: "octets a" "?addr = dotted a" by auto
  let ?rest = "dropWhile (\<lambda>c. c \<noteq> CHR ''/'') s"
  have split: "s = ?addr @ ?rest" by simp
  moreover have "?rest \<noteq> []" using ne split by (metis append_Nil2)
  then obtain t where "?rest = CHR ''/'' # t" using hd_dropWhile [of "\<lambda>c. c \<noteq> CHR ''/''" s] by (metis list.collapse)
  ultimately have "s = dotted a @ CHR ''/'' # t" using o(2) by metis
  with o(1) ip show ?thesis by (auto simp: As16_octets)
qed

end
