(* ===== verification/Site_Networks.thy ===== *)
theory Site_Networks
  imports Vip_Pool Go_Net
begin

text \<open>
  What the derived addresses of \<^term>\<open>deriveAddressing\<close> mean as networks. \<open>in_cidr\<close> reads a
  CIDR block the way an IP stack does; the lemmas show which addresses each derived block holds,
  and from that when the networks of two sites are disjoint.
\<close>

section \<open>Address blocks\<close>

definition addr_val :: "int list \<Rightarrow> int" where
  "addr_val a = foldl (\<lambda>v d. v * 256 + d) 0 a"

definition in_cidr :: "int list \<Rightarrow> string \<Rightarrow> bool" where
  "in_cidr a s =
     (case Split (CHR ''/'') s of
        [net, l] \<Rightarrow>
          (case Atoi l of
             Some n \<Rightarrow> length (Sscanf4 net) = 4 \<and>
               addr_val a div 2 ^ nat (32 - n) = addr_val (Sscanf4 net) div 2 ^ nat (32 - n)
           | None \<Rightarrow> False)
      | _ \<Rightarrow> False)"

lemma in_cidr_dotted:
  assumes "octets net" and "Atoi l = Some n" and "CHR ''/'' \<notin> set l"
  shows "in_cidr a (dotted net @ CHR ''/'' # l) \<longleftrightarrow>
    addr_val a div 2 ^ nat (32 - n) = addr_val net div 2 ^ nat (32 - n)"
proof -
  have "Sscanf4 (dotted net) = net"
    using Sscanf4_dotted [of net "[]"] assms(1) by (fastforce simp: octets_def list_all_iff)
  then show ?thesis
    using assms by (simp add: in_cidr_def Split_append_sep Split_no_sep slash_not_in_dotted octets_def)
qed

lemma addr_val_div:
  assumes "octets [p, q, r, s]"
  shows "addr_val [p, q, r, s] div 65536 = 256 * p + q" "addr_val [p, q, r, s] div 256 = 65536 * p + 256 * q + r"
  using assms by (auto simp: octets_def addr_val_def)

lemma base256:
  assumes "0 \<le> q" "q < 256" "0 \<le> y" "y < 256"
  shows "256 * p + q = 256 * x + y \<longleftrightarrow> p = x \<and> q = (y :: int)"
proof
  assume eq: "256 * p + q = 256 * x + y"
  with assms have "p = x" by linarith
  with eq show "p = x \<and> q = y" by simp
qed simp

lemma in_cidr_16:
  assumes a: "octets [p, q, r, s]" and n: "octets [x, y, z, t]"
  shows "in_cidr [p, q, r, s] (dotted [x, y, z, t] @ ''/16'') \<longleftrightarrow> p = x \<and> q = y"
proof -
  have "Atoi ''16'' = Some 16" by code_simp
  note in_cidr_dotted [OF n this, of "[p, q, r, s]"]
  then have "in_cidr [p, q, r, s] (dotted [x, y, z, t] @ ''/16'') \<longleftrightarrow> 256 * p + q = 256 * x + y"
    using addr_val_div [OF a] addr_val_div [OF n] by simp
  also have "\<dots> \<longleftrightarrow> p = x \<and> q = y" using a n by (simp add: octets_def base256)
  finally show ?thesis .
qed

lemma in_cidr_24:
  assumes a: "octets [p, q, r, s]" and n: "octets [x, y, z, t]"
  shows "in_cidr [p, q, r, s] (dotted [x, y, z, t] @ ''/24'') \<longleftrightarrow> p = x \<and> q = y \<and> r = z"
proof -
  have "Atoi ''24'' = Some 24" by code_simp
  note in_cidr_dotted [OF n this, of "[p, q, r, s]"]
  then have "in_cidr [p, q, r, s] (dotted [x, y, z, t] @ ''/24'') \<longleftrightarrow>
      256 * (256 * p + q) + r = 256 * (256 * x + y) + z"
    using addr_val_div [OF a] addr_val_div [OF n] by (simp add: algebra_simps)
  also have "\<dots> \<longleftrightarrow> p = x \<and> q = y \<and> r = z"
    using base256 [of r z "256 * p + q" "256 * x + y"] base256 [of q y p x] a n by (auto simp: octets_def)
  finally show ?thesis .
qed

section \<open>The derived blocks\<close>

lemma itoa_consts:
  "itoa 10 = ''10''" "itoa 172 = ''172''" "itoa 200 = ''200''" "itoa 201 = ''201''" "itoa 0 = ''0''"
  by code_simp+

lemma derived_text:
  "''10.'' @ itoa i @ ''.0.0/16'' = dotted [10, i, 0, 0] @ ''/16''"
  "''172.'' @ itoa i @ ''.0.0/16'' = dotted [172, i, 0, 0] @ ''/16''"
  "''10.200.'' @ itoa i @ ''.10/24'' = dotted [10, 200, i, 10] @ ''/24''"
  "''10.201.'' @ itoa i @ ''.10/24'' = dotted [10, 201, i, 10] @ ''/24''"
  by (simp_all add: itoa_consts)

lemma octets_siteIndex:
  "octets [10, siteIndex n, 0, 0]" "octets [172, siteIndex n, 0, 0]"
  "octets [10, 200, siteIndex n, 10]" "octets [10, 201, siteIndex n, 10]"
  using siteIndex_bounds [of n] by (auto simp: octets_def)

text \<open>The networks of a site whose addresses were all left to the operator.\<close>

definition derived :: "string \<Rightarrow> EdgeSiteSpec \<Rightarrow> EdgeSiteSpec" where
  "derived name s = fill_site (itoa (siteIndex name)) (s\<lparr>es_PodCIDR := '''', es_UEPool := '''',
     es_AccessCIDR := '''', es_CoreCIDR := '''', es_AccessGw := '''', es_CoreGw := '''',
     es_CoreNextHop := '''', es_GnbIP := ''''\<rparr>)"

lemma derived_blocks:
  assumes "octets a"
  shows "in_cidr a (es_PodCIDR (derived n s)) \<longleftrightarrow> a ! 0 = 10 \<and> a ! 1 = siteIndex n"
    and "in_cidr a (es_UEPool (derived n s)) \<longleftrightarrow> a ! 0 = 172 \<and> a ! 1 = siteIndex n"
    and "in_cidr a (es_AccessCIDR (derived n s)) \<longleftrightarrow> a ! 0 = 10 \<and> a ! 1 = 200 \<and> a ! 2 = siteIndex n"
    and "in_cidr a (es_CoreCIDR (derived n s)) \<longleftrightarrow> a ! 0 = 10 \<and> a ! 1 = 201 \<and> a ! 2 = siteIndex n"
proof -
  from assms obtain p q r s' where a: "a = [p, q, r, s']" by (rule octets_cases)
  note o = assms [unfolded a]
  show "in_cidr a (es_PodCIDR (derived n s)) \<longleftrightarrow> a ! 0 = 10 \<and> a ! 1 = siteIndex n"
    using in_cidr_16 [OF o octets_siteIndex(1) [of n], folded derived_text]
    by (simp add: a derived_def fill_site_def)
  show "in_cidr a (es_UEPool (derived n s)) \<longleftrightarrow> a ! 0 = 172 \<and> a ! 1 = siteIndex n"
    using in_cidr_16 [OF o octets_siteIndex(2) [of n], folded derived_text]
    by (simp add: a derived_def fill_site_def)
  show "in_cidr a (es_AccessCIDR (derived n s)) \<longleftrightarrow> a ! 0 = 10 \<and> a ! 1 = 200 \<and> a ! 2 = siteIndex n"
    using in_cidr_24 [OF o octets_siteIndex(3) [of n], folded derived_text]
    by (simp add: a derived_def fill_site_def)
  show "in_cidr a (es_CoreCIDR (derived n s)) \<longleftrightarrow> a ! 0 = 10 \<and> a ! 1 = 201 \<and> a ! 2 = siteIndex n"
    using in_cidr_24 [OF o octets_siteIndex(4) [of n], folded derived_text]
    by (simp add: a derived_def fill_site_def)
qed

section \<open>What deriving leaves in the cluster\<close>

context edgesite_world
begin

lemma derive_ok:
  assumes site: "is_site view w es" and run: "run_state (deriveAddressing r es) w = ((None, es'), w')"
  shows "\<exists>base vip. is_base base \<and> es_Spec es' = fill_spec (itoa (siteIndex (om_Name (es_Meta es)))) base vip (es_Spec es)
      \<and> (if es_Colocated (es_Spec es) then vip = base @ ''.240'' else pool_vip vip)
    \<and> \<not> needs_fill (es_Spec es') \<and> is_site view w' es' \<and> key_of (KEdgeSite es') = key_of (KEdgeSite es)
    \<and> (\<forall>k. k \<noteq> key_of (KEdgeSite es) \<longrightarrow> view w' k = view w k)"
  using site run
proof (cases rule: derive_effect)
  case complete
  let ?vip = "if es_Colocated (es_Spec es) then ''192.168.4'' @ ''.240'' else ''192.168.4'' @ ''.'' @ itoa 241"
  have "pool_vip (''192.168.4'' @ ''.'' @ itoa 241)" by code_simp
  with complete site is_base_lab show ?thesis
    by (intro exI [of _ "''192.168.4''"] exI [of _ ?vip]) (auto simp: fill_spec_no_op is_site_def)
next
  case (stored base vip w1 w2)
  note bb = ranBase_is_base [OF stored(3)]
  have v: "if es_Colocated (es_Spec es) then vip = base @ ''.240'' else pool_vip vip"
    using stored(5) allocateRanVIP_pool [OF _ bb] by (auto split: if_splits)
  have "vip \<noteq> ''''" using v by (auto simp: pool_vip_def split: if_splits option.splits)
  then show ?thesis
    using stored bb v filled [of vip] by (intro exI [of _ base] exI [of _ vip]) (auto simp: is_site_def)
qed simp

lemma derive_again:
  assumes "is_site view w es" and "\<not> needs_fill (es_Spec es)"
  shows "\<exists>w'. run_state (deriveAddressing r es) w = ((None, es), w') \<and> view w' = view w"
proof -
  obtain e es' w' where run: "run_state (deriveAddressing r es) w = ((e, es'), w')" by (metis surj_pair)
  from assms(1) run show ?thesis
    by (cases rule: derive_effect) (use run assms(2) in auto)
qed

end

section \<open>Properties\<close>

text \<open>C6. After a successful \<open>deriveAddressing\<close> every address field the user wrote is as it was and
  every empty one has its default, the server holds the completed site, nothing else changed,
  and a second run finds nothing to do: it writes nothing and returns the same site.\<close>

theorem deriveAddressing_correct:
  assumes "edgesite_world r view" and "is_site view w es"
    and "run_state (deriveAddressing r es) w = ((None, es'), w')"
  shows "(\<exists>base vip. is_base base \<and> es_Spec es' = fill_spec (itoa (siteIndex (om_Name (es_Meta es)))) base vip (es_Spec es)
            \<and> (if es_Colocated (es_Spec es) then vip = base @ ''.240'' else pool_vip vip))
    \<and> is_site view w' es' \<and> key_of (KEdgeSite es') = key_of (KEdgeSite es)
    \<and> (\<forall>k. k \<noteq> key_of (KEdgeSite es) \<longrightarrow> view w' k = view w k)
    \<and> (\<exists>w''. run_state (deriveAddressing r es') w' = ((None, es'), w'') \<and> view w'' = view w')"
  using edgesite_world.derive_ok [OF assms] edgesite_world.derive_again [OF assms(1)] by blast

theorem deriveAddressing_correct_witness:
  "\<exists>es' w'. run_state (deriveAddressing (mem_reconciler quiet_env) site4) two_sites = ((None, es'), w')
     \<and> is_site cl_view w' es' \<and> es_N2VIP (es_Spec es') = ''192.168.1.245'' \<and> es_PodCIDR (es_Spec es') = ''10.102.0.0/16''"
proof -
  define res where "res = run_state (deriveAddressing (mem_reconciler quiet_env) site4) two_sites"
  have "fst (fst res) = None \<and> es_N2VIP (es_Spec (snd (fst res))) = ''192.168.1.245''
      \<and> es_PodCIDR (es_Spec (snd (fst res))) = ''10.102.0.0/16''"
    unfolding res_def by code_simp
  then obtain es' w' where r: "res = ((None, es'), w')" "es_N2VIP (es_Spec es') = ''192.168.1.245''"
    "es_PodCIDR (es_Spec es') = ''10.102.0.0/16''" by (cases res) auto
  moreover have "is_site cl_view two_sites site4" by (simp add: two_sites_is_site)
  ultimately show ?thesis
    using deriveAddressing_correct [OF mem_sites.edgesite_world_axioms, of two_sites site4 quiet_env es' w'] by (simp add: res_def)
qed

text \<open>C30. The site index is the base-31 value of the name modulo 197, plus 2: it lies in 2..198,
  and no intermediate value of the loop leaves the 64-bit integers.\<close>

theorem siteIndex_correct:
  "2 \<le> siteIndex name \<and> siteIndex name \<le> 198
   \<and> siteIndex name = foldl (\<lambda>h c. h * 31 + c) 0 (runes name) mod 197 + 2
   \<and> (\<forall>pre c post. runes name = pre @ c # post \<longrightarrow>
        (let h = foldl (\<lambda>h c. (h * 31 + c) mod 197) 0 pre in 0 \<le> h * 31 + c \<and> h * 31 + c \<le> MaxInt64))"
proof -
  have "0 \<le> h * 31 + c \<and> h * 31 + c \<le> MaxInt64"
    if "runes name = pre @ c # post" and "h = foldl (\<lambda>h c. (h * 31 + c) mod 197) 0 pre" for pre c post h
    using that siteIndex_step_bound [of c name h] foldl_mod_range [of 0 pre] by auto
  then show ?thesis
    using siteIndex_bounds [of name] siteIndex_poly [of name] by (simp add: Let_def)
qed

theorem siteIndex_correct_witness:
  "siteIndex ''edge1'' = 49 \<and> 2 \<le> siteIndex ''edge1'' \<and> siteIndex ''edge1'' \<le> 198
   \<and> (let h = foldl (\<lambda>h c. (h * 31 + c) mod 197) 0 [101, 100, 103, 101] in h * 31 + 49 \<le> MaxInt64)"
proof -
  have 1: "siteIndex ''edge1'' = 49" by code_simp
  have 2: "runes ''edge1'' = [101, 100, 103, 101] @ 49 # []" by code_simp
  show ?thesis using 1 2 siteIndex_correct [of "''edge1''"] by (simp add: Let_def)
qed




end
