(* ===== verification/Git_Delivery.thy ===== *)
theory Git_Delivery
  imports Kube_Laws
begin

text \<open>
  \<open>operator/internal/controller/mesh_gitops.go\<close>: the files the controllers put into and
  remove from the Gitea deploy repositories. Gitea is reached over HTTP and is a parameter; the
  locale \<open>gitea\<close> states what its contents API promises, an in-memory repository satisfies
  it, and the lemmas show what the repository holds after each call, on every branch.
\<close>

section \<open>Definitions\<close>

definition giteaBase :: string where
  "giteaBase = ''http://gitea-http.gitea.svc.cluster.local:3000''"

definition deployRepoFor :: "string \<Rightarrow> string" where
  "deployRepoFor clust = (if clust = '''' \<or> clust = ''mgmt'' then ''mgmt'' else ''cluster-'' @ clust)"

text \<open>The value of a key of a secret, empty when it has none (a Go map lookup).\<close>

definition secret_data :: "Secret \<Rightarrow> string \<Rightarrow> string" where
  "secret_data s k = (case map_of (sec_Data s) k of Some v \<Rightarrow> v | None \<Rightarrow> '''')"

definition contents_url :: "string \<Rightarrow> string \<Rightarrow> string \<Rightarrow> string" where
  "contents_url user repo path = giteaBase @ ''/api/v1/repos/'' @ user @ ''/'' @ repo @ ''/contents/'' @ path"

definition json_field :: "json option \<Rightarrow> string \<Rightarrow> json option" where
  "json_field j k = (case j of Some (JObj ps) \<Rightarrow> map_of ps k | _ \<Rightarrow> None)"

text \<open>The field \<open>sha\<close> decoded from an answer; a malformed answer leaves it empty.\<close>

definition file_sha :: "HttpResponse \<Rightarrow> string" where
  "file_sha resp = (case json_field (rs_Json resp) ''sha'' of Some (JStr s) \<Rightarrow> s | _ \<Rightarrow> '''')"

definition gitea_auth_key :: ObjectKey where
  "gitea_auth_key = mk_key (coreGVK ''Secret'') ''default'' ''gitea-auth''"

text \<open>What \<open>gitPut\<close> makes of the answer to its PUT.\<close>

definition put_answer :: "string \<Rightarrow> error + HttpResponse \<Rightarrow> error option" where
  "put_answer path resp = (case resp of Inl e \<Rightarrow> Some (WrapError (''PUT '' @ path @ '': '') e)
     | Inr a \<Rightarrow>
         if rs_StatusCode a < 200 \<or> rs_StatusCode a \<ge> 300
         then Some (ErrorString (''PUT '' @ path @ '' -> HTTP '' @ itoa (rs_StatusCode a) @ '': '' @ take 400 (rs_Body a)))
         else None)"

definition gitPut :: "'w env \<Rightarrow> 'w kclient \<Rightarrow> string \<Rightarrow> string \<Rightarrow> string \<Rightarrow> ('w, error option) io" where
  "gitPut E c repo path yaml = do {
     s \<leftarrow> get_as c as_Secret gitea_auth_key;
     case s of Inl e \<Rightarrow> ret (Some (WrapError ''read gitea-auth: '' e))
     | Inr sec \<Rightarrow> do {
         let user = secret_data sec ''username'';
         let pass = secret_data sec ''password'';
         let api = contents_url user repo path;
         sha \<leftarrow> (case url_check E (api @ ''?ref=main'') of Some e \<Rightarrow> ret ''''
           | None \<Rightarrow> do {
               resp \<leftarrow> httpDo E \<lparr>rq_Verb = ''GET'', rq_URL = api @ ''?ref=main'', rq_User = user, rq_Pass = pass, rq_Body = None\<rparr>;
               ret (case resp of Inl e \<Rightarrow> '''' | Inr a \<Rightarrow> if rs_StatusCode a = 200 then file_sha a else '''') });
         let body = JObj ([(''message'', JStr (''meshlink: reconcile clustermesh KRM '' @ path)),
             (''content'', JStr (EncodeToString yaml)), (''branch'', JStr ''main'')]
             @ (if sha \<noteq> '''' then [(''sha'', JStr sha)] else []));
         case url_check E api of Some e \<Rightarrow> ret (Some e)
         | None \<Rightarrow> do {
             resp \<leftarrow> httpDo E \<lparr>rq_Verb = ''PUT'', rq_URL = api, rq_User = user, rq_Pass = pass, rq_Body = Some body\<rparr>;
             ret (put_answer path resp) } } }"

definition delete_answer :: "string \<Rightarrow> error + HttpResponse \<Rightarrow> error option" where
  "delete_answer path resp = (case resp of Inl e \<Rightarrow> Some (WrapError (''DELETE '' @ path @ '': '') e)
     | Inr a \<Rightarrow>
         if rs_StatusCode a < 200 \<or> rs_StatusCode a \<ge> 300 \<and> rs_StatusCode a \<noteq> 404
         then Some (ErrorString (''DELETE '' @ path @ '' -> HTTP '' @ itoa (rs_StatusCode a) @ '': '' @ take 400 (rs_Body a)))
         else None)"

text \<open>
  \<open>removeFromGit\<close> ignores the error of the first \<open>NewRequestWithContext\<close> and then uses the
  nil request: \<open>Inl\<close> is that panic, \<open>Inr\<close> the returned error or nil.
\<close>

definition removeFromGit :: "'w env \<Rightarrow> 'w kclient \<Rightarrow> string \<Rightarrow> string \<Rightarrow> ('w, string + error option) io" where
  "removeFromGit E c repo path = do {
     s \<leftarrow> get_as c as_Secret gitea_auth_key;
     case s of Inl e \<Rightarrow> ret (Inr (Some (WrapError ''read gitea-auth: '' e)))
     | Inr sec \<Rightarrow> do {
         let user = secret_data sec ''username'';
         let pass = secret_data sec ''password'';
         let api = contents_url user repo path;
         case url_check E (api @ ''?ref=main'') of
           Some e \<Rightarrow> ret (Inl ''invalid memory address or nil pointer dereference'')
         | None \<Rightarrow> do {
             look \<leftarrow> httpDo E \<lparr>rq_Verb = ''GET'', rq_URL = api @ ''?ref=main'', rq_User = user, rq_Pass = pass, rq_Body = None\<rparr>;
             let sha = (case look of Inl e \<Rightarrow> '''' | Inr a \<Rightarrow> if rs_StatusCode a = 200 then file_sha a else '''');
             if (case look of Inl e \<Rightarrow> False | Inr a \<Rightarrow> rs_StatusCode a = 404) \<or> sha = '''' then ret (Inr None)
             else case url_check E api of Some e \<Rightarrow> ret (Inr (Some e))
             | None \<Rightarrow> do {
                 resp \<leftarrow> httpDo E \<lparr>rq_Verb = ''DELETE'', rq_URL = api, rq_User = user, rq_Pass = pass,
                   rq_Body = Some (JObj [(''message'', JStr (''meshlink: retire '' @ path @ '' (owned by the cilium chart now)'')),
                     (''sha'', JStr sha), (''branch'', JStr ''main'')])\<rparr>;
                 ret (Inr (delete_answer path resp)) } } } }"

text \<open>
  \<open>secretYAML\<close> ranges over a Go map: \<open>data\<close> is its entries in the order of that iteration,
  which the language leaves open.
\<close>

definition secretYAML :: "string \<Rightarrow> string \<Rightarrow> (string \<times> string) list \<Rightarrow> string" where
  "secretYAML name namespace data =
     ''apiVersion: v1'' @ [newline] @ ''kind: Secret'' @ [newline] @ ''metadata:'' @ [newline] @
     ''  name: '' @ name @ [newline] @ ''  namespace: '' @ namespace @ [newline] @ ''type: Opaque'' @ [newline] @ ''data:'' @ [newline] @
     concat (map (\<lambda>(k, v). ''  '' @ k @ '': '' @ EncodeToString v @ [newline]) data)"

section \<open>What the contents API promises\<close>

definition gitea_url :: "string \<Rightarrow> bool" where
  "gitea_url u \<longleftrightarrow> HasPrefix u giteaBase"

lemma gitea_url_contents [simp]:
  "gitea_url (contents_url user repo path)" "gitea_url (contents_url user repo path @ s)"
  by (simp_all add: gitea_url_def contents_url_def)

text \<open>
  \<open>repo w u\<close> is the base64 content of the file at the contents URL \<open>u\<close>. A request that
  was answered 2xx was carried out, one answered otherwise changed nothing; of a request that
  got no answer it is not known whether it was.
\<close>

locale gitea =
  fixes E :: "'w env" and repo :: "'w \<Rightarrow> string \<Rightarrow> string option"
  assumes read_only: "rq_Verb q = ''GET'' \<Longrightarrow> frame repo (httpDo E q)"
    and file_missing: "run_state (httpDo E q) w = (Inr a, w') \<Longrightarrow> rq_Verb q = ''GET'' \<Longrightarrow>
      rq_URL q = u @ ''?ref=main'' \<Longrightarrow> gitea_url u \<Longrightarrow> rs_StatusCode a = 404 \<Longrightarrow> repo w u = None"
    and put_done: "run_state (httpDo E q) w = (Inr a, w') \<Longrightarrow> rq_Verb q = ''PUT'' \<Longrightarrow> gitea_url (rq_URL q) \<Longrightarrow>
      200 \<le> rs_StatusCode a \<Longrightarrow> rs_StatusCode a < 300 \<Longrightarrow> json_field (rq_Body q) ''content'' = Some (JStr v) \<Longrightarrow>
      repo w' = (repo w)(rq_URL q \<mapsto> v)"
    and delete_done: "run_state (httpDo E q) w = (Inr a, w') \<Longrightarrow> rq_Verb q = ''DELETE'' \<Longrightarrow> gitea_url (rq_URL q) \<Longrightarrow>
      200 \<le> rs_StatusCode a \<Longrightarrow> rs_StatusCode a < 300 \<or> rs_StatusCode a = 404 \<Longrightarrow> repo w' = (repo w)(rq_URL q := None)"
    and refused: "run_state (httpDo E q) w = (Inr a, w') \<Longrightarrow> rs_StatusCode a < 200 \<or> 300 \<le> rs_StatusCode a \<Longrightarrow>
      repo w' = repo w"
    and lost: "run_state (httpDo E q) w = (Inl e, w') \<Longrightarrow> u \<noteq> rq_URL q \<Longrightarrow> repo w' u = repo w u"

text \<open>The API server and the repositories are different services: no call to one changes the other.\<close>

locale delivery_world = kube_api c view + gitea E repo
  for c :: "'w kclient" and view and E and repo +
  assumes kget_repo: "frame repo (kGet c k)"
    and klist_repo: "frame repo (kList c g os)"
    and kcreate_repo: "frame repo (kCreate c x)"
    and kupdate_repo: "frame repo (kUpdate c x)"
    and kstatus_repo: "frame repo (kStatusUpdate c x)"
    and kdelete_repo: "frame repo (kDelete c x)"
    and http_view: "frame view (httpDo E q)"
begin

lemma gitPut_view: "frame view (gitPut E c rp path yaml)"
  unfolding gitPut_def Let_def by (intro frame_intros get_as_frame http_view)

lemma removeFromGit_view: "frame view (removeFromGit E c rp path)"
  unfolding removeFromGit_def Let_def by (intro frame_intros get_as_frame http_view)

lemma get_as_repo: "frame repo (get_as c f k)"
  unfolding get_as_def by (intro frame_intros kget_repo)

text \<open>The lookup of the current version, shared by both calls, is read-only.\<close>

lemma lookup_repo:
  "frame repo (case opt of Some e \<Rightarrow> ret '''' | None \<Rightarrow> do {
     resp \<leftarrow> httpDo E \<lparr>rq_Verb = ''GET'', rq_URL = u, rq_User = us, rq_Pass = pw, rq_Body = None\<rparr>; ret (f resp) })"
  by (intro frame_intros read_only) simp

lemma put_effect:
  assumes a: "run_state (httpDo E q) w = (a, w')" and q: "rq_Verb q = ''PUT''" "gitea_url (rq_URL q)"
    "json_field (rq_Body q) ''content'' = Some (JStr v)"
  shows "(put_answer path a = None \<and> repo w' = (repo w)(rq_URL q \<mapsto> v))
    \<or> (\<exists>e. put_answer path a = Some (WrapError (''PUT '' @ path @ '': '') e) \<and> (\<forall>u. u \<noteq> rq_URL q \<longrightarrow> repo w' u = repo w u))
    \<or> (\<exists>e. put_answer path a = Some e \<and> repo w' = repo w)"
proof (cases a)
  case (Inl e)
  with lost [OF a [unfolded Inl]] show ?thesis by (simp add: put_answer_def)
next
  case (Inr resp)
  show ?thesis
  proof (cases "rs_StatusCode resp < 200 \<or> 300 \<le> rs_StatusCode resp")
    case True
    with refused [OF a [unfolded Inr] True] Inr show ?thesis by (simp add: put_answer_def)
  next
    case False
    with put_done [OF a [unfolded Inr] q(1,2) _ _ q(3)] Inr show ?thesis by (simp add: put_answer_def)
  qed
qed

lemma gitPut_effect:
  assumes run: "run_state (gitPut E c rp path yaml) w = (res, w')"
  shows "(\<exists>e. res = Some e \<and> repo w' = repo w) \<or>
    (\<exists>sec. view w gitea_auth_key = Some (KSecret sec) \<and>
       (let u = contents_url (secret_data sec ''username'') rp path in
          (res = None \<and> repo w' = (repo w)(u \<mapsto> EncodeToString yaml))
        \<or> (\<exists>e. res = Some (WrapError (''PUT '' @ path @ '': '') e) \<and> (\<forall>v. v \<noteq> u \<longrightarrow> repo w' v = repo w v))))"
proof -
  obtain s w1 where s: "run_state (get_as c as_Secret gitea_auth_key) w = (s, w1)" by force
  have r1: "repo w1 = repo w" using frameD [OF get_as_repo s] .
  show ?thesis
  proof (cases s)
    case (Inl e)
    with run s r1 show ?thesis by (auto simp: gitPut_def)
  next
    case (Inr sec)
    have sec: "view w gitea_auth_key = Some (KSecret sec)"
      using get_as_ok [OF s [unfolded Inr]] by (auto simp: as_simps)
    define us pw u where "us = secret_data sec ''username''" and "pw = secret_data sec ''password''"
      and "u = contents_url us rp path"
    define look where "look = (case url_check E (u @ ''?ref=main'') of Some e \<Rightarrow> ret '''' | None \<Rightarrow> do {
        resp \<leftarrow> httpDo E \<lparr>rq_Verb = ''GET'', rq_URL = u @ ''?ref=main'', rq_User = us, rq_Pass = pw, rq_Body = None\<rparr>;
        ret (case resp of Inl e \<Rightarrow> '''' | Inr a \<Rightarrow> if rs_StatusCode a = 200 then file_sha a else '''') })"
    obtain sha w2 where l: "run_state look w1 = (sha, w2)" by force
    have r2: "repo w2 = repo w" using frameD [OF lookup_repo l [unfolded look_def]] r1 by simp
    define body where "body = JObj ([(''message'', JStr (''meshlink: reconcile clustermesh KRM '' @ path)),
             (''content'', JStr (EncodeToString yaml)), (''branch'', JStr ''main'')]
             @ (if sha \<noteq> '''' then [(''sha'', JStr sha)] else []))"
    define q where "q = \<lparr>rq_Verb = ''PUT'', rq_URL = u, rq_User = us, rq_Pass = pw, rq_Body = Some body\<rparr>"
    note rest = run [unfolded gitPut_def Let_def run_state_bind s split_conv Inr sum.case, folded us_def pw_def u_def,
        folded look_def, unfolded run_state_bind l split_conv, folded body_def, folded q_def]
    show ?thesis
    proof (cases "url_check E u")
      case (Some e)
      with rest r2 show ?thesis by auto
    next
      case None
      obtain a w3 where a: "run_state (httpDo E q) w2 = (a, w3)" by force
      with rest None have "res = put_answer path a" "w' = w3" by simp_all
      moreover have "json_field (rq_Body q) ''content'' = Some (JStr (EncodeToString yaml))" "gitea_url (rq_URL q)"
        by (simp_all add: q_def body_def json_field_def u_def)
      ultimately show ?thesis
        using put_effect [OF a, of "EncodeToString yaml" path] sec r2
        by (auto simp: q_def u_def us_def)
    qed
  qed
qed

end

text \<open>The lookup request both calls start with.\<close>

definition lookup_request :: "Secret \<Rightarrow> string \<Rightarrow> string \<Rightarrow> HttpRequest" where
  "lookup_request sec rp path = \<lparr>rq_Verb = ''GET'', rq_URL = contents_url (secret_data sec ''username'') rp path @ ''?ref=main'',
     rq_User = secret_data sec ''username'', rq_Pass = secret_data sec ''password'', rq_Body = None\<rparr>"

context delivery_world
begin

lemma delete_effect:
  assumes a: "run_state (httpDo E q) w = (a, w')" and q: "rq_Verb q = ''DELETE''" "gitea_url (rq_URL q)"
    and ok: "delete_answer path a = None"
  shows "repo w' = (repo w)(rq_URL q := None)"
proof -
  from ok obtain resp where r: "a = Inr resp" by (auto simp: delete_answer_def split: sum.splits)
  from ok have "200 \<le> rs_StatusCode resp" "rs_StatusCode resp < 300 \<or> rs_StatusCode resp = 404"
    by (auto simp: r delete_answer_def split: if_splits)
  with delete_done [OF a [unfolded r] q] show ?thesis by simp
qed

lemma removeFromGit_effect:
  assumes run: "run_state (removeFromGit E c rp path) w = (Inr None, w')"
    and s: "run_state (get_as c as_Secret gitea_auth_key) w = (Inr sec, w1)"
    and a: "run_state (httpDo E (lookup_request sec rp path)) w1 = (Inr a, w2)"
    and found: "rs_StatusCode a = 404 \<or> rs_StatusCode a = 200 \<and> file_sha a \<noteq> ''''"
  shows "repo w' = (repo w)(contents_url (secret_data sec ''username'') rp path := None)"
proof -
  let ?u = "contents_url (secret_data sec ''username'') rp path"
  have r2: "repo w2 = repo w"
    using frameD [OF get_as_repo s] frameD [OF read_only a] by (simp add: lookup_request_def)
  have c: "url_check E (?u @ ''?ref=main'') = None"
    using run s by (auto simp: removeFromGit_def Let_def split: option.splits)
  show ?thesis
  proof (cases "rs_StatusCode a = 404")
    case True
    with run s a c have "w' = w2" by (simp add: removeFromGit_def Let_def lookup_request_def)
    moreover have "repo w1 ?u = None"
      using file_missing [OF a _ _ _ True, of ?u] by (simp add: lookup_request_def)
    ultimately show ?thesis using r2 frameD [OF get_as_repo s] by (auto simp: fun_eq_iff)
  next
    case False
    with found have f: "rs_StatusCode a = 200" "file_sha a \<noteq> ''''" by auto
    define q where "q = \<lparr>rq_Verb = ''DELETE'', rq_URL = ?u, rq_User = secret_data sec ''username'', rq_Pass = secret_data sec ''password'',
       rq_Body = Some (JObj [(''message'', JStr (''meshlink: retire '' @ path @ '' (owned by the cilium chart now)'')),
         (''sha'', JStr (file_sha a)), (''branch'', JStr ''main'')])\<rparr>"
    obtain d w3 where d: "run_state (httpDo E q) w2 = (d, w3)" by force
    from run s a c f d have "delete_answer path d = None" "w' = w3"
      by (auto simp: removeFromGit_def Let_def lookup_request_def q_def split: option.splits)
    with delete_effect [OF d] r2 show ?thesis by (simp add: q_def)
  qed
qed

end

lemma removeFromGit_lookup_failed:
  assumes s: "run_state (get_as c as_Secret gitea_auth_key) w = (Inr sec, w1)"
    and u: "url_check E (rq_URL (lookup_request sec rp path)) = None"
    and a: "run_state (httpDo E (lookup_request sec rp path)) w1 = (a, w2)"
    and bad: "case a of Inl e \<Rightarrow> True | Inr resp \<Rightarrow> rs_StatusCode resp \<notin> {200, 404}"
  shows "run_state (removeFromGit E c rp path) w = (Inr None, w2)"
  using assms by (cases a) (auto simp: removeFromGit_def Let_def lookup_request_def)

section \<open>An in-memory world\<close>

text \<open>
  The in-memory API server with a Gitea beside it: a file has one version, named by its
  content, and a write or a removal must name the current one. Requests to other hosts are
  logged and answered 200.
\<close>

record lab = cluster +
  lab_files :: "(string \<times> string) list"
  lab_log :: "HttpRequest list"

definition lab_repo :: "'x lab_scheme \<Rightarrow> string \<Rightarrow> string option" where
  "lab_repo w = map_of (lab_files w)"

definition answer :: "int \<Rightarrow> string \<Rightarrow> HttpResponse" where
  "answer code sha = \<lparr>rs_StatusCode = code, rs_Body = [], rs_Json = (if sha = '''' then None else Some (JObj [(''sha'', JStr sha)]))\<rparr>"

definition lab_http :: "HttpRequest \<Rightarrow> ('x lab_scheme, error + HttpResponse) io" where
  "lab_http q = State (\<lambda>w.
     let u = rq_URL q;
         named = (case json_field (rq_Body q) ''sha'' of Some (JStr s) \<Rightarrow> Some s | _ \<Rightarrow> None);
         cur = lab_repo w u
     in if \<not> gitea_url u then (Inr (answer 200 ''''), w\<lparr>lab_log := lab_log w @ [q]\<rparr>)
        else if rq_Verb q = ''GET'' then
          (case lab_repo w (take (length u - 9) u) of
             Some v \<Rightarrow> (Inr (answer 200 (''sha-'' @ v)), w) | None \<Rightarrow> (Inr (answer 404 ''''), w))
        else if named \<noteq> map_option (\<lambda>v. ''sha-'' @ v) cur then (Inr (answer 422 ''''), w)
        else if rq_Verb q = ''PUT'' then
          (case json_field (rq_Body q) ''content'' of
             Some (JStr v) \<Rightarrow> (Inr (answer 201 ''''), w\<lparr>lab_files := (u, v) # lab_files w\<rparr>)
           | _ \<Rightarrow> (Inr (answer 422 ''''), w))
        else if rq_Verb q = ''DELETE'' \<and> cur \<noteq> None then
          (Inr (answer 200 ''''), w\<lparr>lab_files := filter (\<lambda>p. fst p \<noteq> u) (lab_files w)\<rparr>)
        else (Inr (answer 404 ''''), w))"

definition lab_env :: "'x lab_scheme env" where
  "lab_env = \<lparr>httpDo = lab_http, url_check = (\<lambda>u. None), SetStatusCondition = put_condition,
     now_rfc3339 = ret ''2025-01-01T00:00:00Z''\<rparr>"

lemma map_of_filter_fst: "map_of (filter (\<lambda>p. fst p \<noteq> u) ps) = (map_of ps)(u := None)"
  by (induction ps) (auto simp: fun_eq_iff)

interpretation lab: gitea lab_env lab_repo
proof
  fix q :: HttpRequest
  assume "rq_Verb q = ''GET''"
  then show "frame lab_repo (httpDo lab_env q)"
    by (simp add: frame_def lab_env_def lab_http_def lab_repo_def Let_def split: option.splits)
next
  fix q u w a w'
  assume "run_state (httpDo lab_env q) w = (Inr a, w')" "rq_Verb q = ''GET''" "rq_URL q = u @ ''?ref=main''"
    "gitea_url u" "rs_StatusCode a = 404"
  then show "lab_repo w u = None"
    by (auto simp: lab_env_def lab_http_def Let_def answer_def gitea_url_def HasPrefix_def split: if_splits option.splits)
next
  fix q w a w' v
  assume "run_state (httpDo lab_env q) w = (Inr a, w')" "rq_Verb q = ''PUT''" "gitea_url (rq_URL q)"
    "200 \<le> rs_StatusCode a" "rs_StatusCode a < 300" "json_field (rq_Body q) ''content'' = Some (JStr v)"
  then show "lab_repo w' = (lab_repo w)(rq_URL q \<mapsto> v)"
    by (auto simp: lab_env_def lab_http_def lab_repo_def Let_def answer_def split: if_splits)
next
  fix q w a w'
  assume "run_state (httpDo lab_env q) w = (Inr a, w')" "rq_Verb q = ''DELETE''" "gitea_url (rq_URL q)"
    "200 \<le> rs_StatusCode a" "rs_StatusCode a < 300 \<or> rs_StatusCode a = 404"
  then show "lab_repo w' = (lab_repo w)(rq_URL q := None)"
    by (auto simp: lab_env_def lab_http_def lab_repo_def Let_def answer_def map_of_filter_fst split: if_splits)
next
  fix q w a w'
  assume "run_state (httpDo lab_env q) w = (Inr a, w')" "rs_StatusCode a < 200 \<or> 300 \<le> rs_StatusCode a"
  then show "lab_repo w' = lab_repo w"
    by (auto simp: lab_env_def lab_http_def Let_def answer_def split: if_splits option.splits json.splits)
next
  fix q w e w' u
  assume "run_state (httpDo lab_env q) w = (Inl e, w')" "u \<noteq> rq_URL q"
  then show "lab_repo w' u = lab_repo w u"
    by (auto simp: lab_env_def lab_http_def Let_def split: if_splits option.splits json.splits)
qed

interpretation lab: delivery_world mem_client cl_view lab_env lab_repo
proof
  fix q
  show "frame cl_view (httpDo lab_env q)"
    by (auto simp: frame_def lab_env_def lab_http_def cl_view_def Let_def split: option.splits json.splits)
qed (simp_all add: frame_def mem_client_defs lab_repo_def Let_def split: option.splits)

definition lab0 :: lab where
  "lab0 = \<lparr>cl_objects = [KSecret \<lparr>sec_Meta = named_meta ''default'' ''gitea-auth'',
       sec_Data = [(''username'', ''nephio''), (''password'', ''secret'')]\<rparr>],
     cl_revision = 7, lab_files = [(contents_url ''nephio'' ''mgmt'' ''old.yaml'', ''b2xk'')], lab_log = []\<rparr>"

lemma lab0_put: "fst (run_state (gitPut lab_env mem_client ''mgmt'' ''a.yaml'' ''x'') lab0) = None"
  by code_simp

section \<open>Properties\<close>

text \<open>C8. A successful \<open>gitPut\<close> leaves exactly the given text at the given path of the repository,
  whether the file existed or not, and every other file as it was; a failed one changes at most
  that file; neither changes an object of the cluster.\<close>

theorem gitPut_correct:
  assumes "delivery_world c view E repo" and "run_state (gitPut E c rp path yaml) w = (res, w')"
  shows "view w' = view w
    \<and> (res = None \<longrightarrow> (\<exists>sec. view w gitea_auth_key = Some (KSecret sec) \<and>
         (let u = contents_url (secret_data sec ''username'') rp path in
            repo w' = (repo w)(u \<mapsto> EncodeToString yaml) \<and> map_option DecodeString (repo w' u) = Some yaml)))
    \<and> (res \<noteq> None \<longrightarrow> (\<forall>v. (\<forall>us. v \<noteq> contents_url us rp path) \<longrightarrow> repo w' v = repo w v))"
  using frameD [OF delivery_world.gitPut_view [OF assms(1)] assms(2)]
    delivery_world.gitPut_effect [OF assms] by (auto simp: Let_def)

theorem gitPut_correct_witness:
  "\<exists>w'. run_state (gitPut lab_env mem_client ''mgmt'' ''a.yaml'' ''x'') lab0 = (None, w')
     \<and> map_option DecodeString (lab_repo w' (contents_url ''nephio'' ''mgmt'' ''a.yaml'')) = Some ''x''"
proof -
  obtain w' where r: "run_state (gitPut lab_env mem_client ''mgmt'' ''a.yaml'' ''x'') lab0 = (None, w')"
    using surjective_pairing [of "run_state (gitPut lab_env mem_client ''mgmt'' ''a.yaml'' ''x'') lab0"]
      fst_conv [of None] by (metis lab0_put)
  from gitPut_correct [OF lab.delivery_world_axioms r] obtain sec where
    "cl_view lab0 gitea_auth_key = Some (KSecret sec)"
    "map_option DecodeString (lab_repo w' (contents_url (secret_data sec ''username'') ''mgmt'' ''a.yaml'')) = Some ''x''"
    by (auto simp: Let_def)
  moreover have "cl_view lab0 gitea_auth_key = Some (hd (cl_objects lab0))" by code_simp
  ultimately show ?thesis using r by (auto simp: lab0_def secret_data_def)
qed



text \<open>A lookup that fails for any other reason (no answer, 401, 500) is taken for a missing file:
  \<open>removeFromGit\<close> returns without error and the file stays.\<close>

theorem removeFromGit_lookup_error_is_success:
  assumes "delivery_world c view E repo"
    and "run_state (get_as c as_Secret gitea_auth_key) w = (Inr sec, w1)"
    and "url_check E (rq_URL (lookup_request sec rp path)) = None"
    and "run_state (httpDo E (lookup_request sec rp path)) w1 = (a, w2)"
    and "case a of Inl e \<Rightarrow> True | Inr resp \<Rightarrow> rs_StatusCode resp \<notin> {200, 404}"
  shows "\<exists>w'. run_state (removeFromGit E c rp path) w = (Inr None, w') \<and> repo w' = repo w"
  using removeFromGit_lookup_failed [OF assms(2-5)]
    frameD [OF delivery_world.get_as_repo [OF assms(1)] assms(2)]
    frameD [OF gitea.read_only [OF delivery_world.axioms(2) [OF assms(1)]] assms(4)]
  by (simp add: lookup_request_def)

text \<open>A Gitea that answers every request 500, beside the in-memory API server.\<close>

definition broken_env :: "'x lab_scheme env" where
  "broken_env = lab_env\<lparr>httpDo := (\<lambda>q. ret (Inr (answer 500 '''')))\<rparr>"

interpretation broken: delivery_world mem_client cl_view broken_env lab_repo
  by unfold_locales
    (auto simp: broken_env_def frame_def answer_def mem_client_defs lab_repo_def Let_def split: option.splits)

theorem removeFromGit_lookup_error_is_success_witness:
  "\<exists>w'. run_state (removeFromGit broken_env mem_client ''mgmt'' ''old.yaml'') lab0 = (Inr None, w')
     \<and> lab_repo w' (contents_url ''nephio'' ''mgmt'' ''old.yaml'') = Some ''b2xk''"
proof -
  define sec where "sec = \<lparr>sec_Meta = named_meta ''default'' ''gitea-auth'', sec_Data = [(''username'', ''nephio''), (''password'', ''secret'')]\<rparr>"
  have s: "run_state (get_as mem_client as_Secret gitea_auth_key) lab0 = (Inr sec, lab0)"
    unfolding sec_def by code_simp
  have r: "lab_repo lab0 (contents_url ''nephio'' ''mgmt'' ''old.yaml'') = Some ''b2xk''" by code_simp
  from removeFromGit_lookup_error_is_success [OF broken.delivery_world_axioms s,
      of "''mgmt''" "''old.yaml''" "Inr (answer 500 '''')" lab0] r
  show ?thesis by (auto simp: broken_env_def lab_env_def answer_def)
qed

end
