(* ===== verification/Ran_Render.thy ===== *)
theory Ran_Render
  imports Addressing Git_Delivery
begin

text \<open>
  The gNB of a site: the part of \<open>operator/internal/controller/edgesite_controller.go\<close> that
  renders the OCUDU configuration, the start-up script and the Deployment of the site's radio
  and delivers them to the site's repository (\<open>deliverRAN\<close> and its helpers). The texts are
  the source's own, character by character; a format verb is the printed argument.
\<close>

section \<open>Profiles\<close>

definition srateForBw :: "int \<Rightarrow> string" where
  \<open>srateForBw bwMHz =
   (if bwMHz \<le> 5 then ''7.68''
    else if bwMHz \<le> 10 then ''11.52''
    else if bwMHz \<le> 15 then ''15.36''
    else if bwMHz \<le> 20 then ''23.04''
    else if bwMHz \<le> 40 then ''46.08''
    else if bwMHz \<le> 50 then ''61.44''
    else if bwMHz \<le> 80 then ''92.16''
    else ''122.88'')\<close>

definition deviceProfile :: "string \<Rightarrow> int \<Rightarrow> int \<Rightarrow> string" where
  \<open>deviceProfile device tac sd =
   (let head = ''cu_cp:
  amf:
    addr: AMF_ADDR
    bind_addr: 0.0.0.0
    supported_tracking_areas:
      - tac: '' @ itoa tac @ ''
        plmn_list:
          - plmn: "00101"
            tai_slice_support_list:
              - { sst: 1, sd: '' @ itoa sd @ '' }
''
   in if device = ''b210'' then head @ ''ru_sdr: { device_driver: uhd, device_args: "RADIO_ARGS,num_recv_frames=64,num_send_frames=64", clock: internal, srate: 23.04, otw_format: sc12, tx_gain: 80, rx_gain: 60 }
cell_cfg:
  dl_arfcn: 621312
  band: 78
  channel_bandwidth_MHz: 20
  common_scs: 30
  nof_antennas_dl: 1
  nof_antennas_ul: 1
  plmn: "00101"
  tac: '' @ itoa tac @ ''
  pci: 0
  slicing: [ { sst: 1, sd: '' @ itoa sd @ '' } ]
  pdsch: { max_consecutive_kos: 1000000 }
  pusch: { max_consecutive_kos: 1000000 }
  pucch: { max_consecutive_kos: 1000000 }
log: { filename: stdout, all_level: warning }
''
   else head @ ''ru_sdr: { device_driver: uhd, device_args: "RADIO_ARGS", srate: 61.44, clock: internal, sync: internal, tx_gain: 45, rx_gain: 70 }
cell_cfg:
  dl_arfcn: 621312
  band: 78
  channel_bandwidth_MHz: 40
  common_scs: 30
  nof_antennas_dl: 2
  nof_antennas_ul: 2
  plmn: "00101"
  tac: '' @ itoa tac @ ''
  pci: 0
  slicing: [ { sst: 1, sd: '' @ itoa sd @ '' } ]
  tdd_ul_dl_cfg: { dl_ul_tx_period: 10, nof_dl_slots: 7, nof_dl_symbols: 6, nof_ul_slots: 2, nof_ul_symbols: 4 }
  prach: { prach_config_index: 159, prach_root_sequence_index: 1, zero_correlation_zone: 0, prach_frequency_start: 12 }
  pdsch: { max_consecutive_kos: 1000000 }
  pusch: { max_consecutive_kos: 1000000 }
  pucch: { max_consecutive_kos: 1000000, nof_cell_csi_res: 0 }
  csi: { csi_rs_enabled: false }
log: { filename: stdout, all_level: warning }
'')\<close>

definition ofhPortList :: "RANOfh option \<Rightarrow> string \<Rightarrow> string" where
  \<open>ofhPortList ofh kind =
   (let def = (if kind = ''prach'' then [4, 5, 6, 7] else if kind = ''dl'' then [0, 1, 2, 3]
                else if kind = ''ul'' then [0, 1, 2, 3] else []);
        v = (case ofh of None \<Rightarrow> def
             | Some f \<Rightarrow>
                 if kind = ''prach'' then (if length (ofh_PrachPortId f) > 0 then ofh_PrachPortId f else def)
                 else if kind = ''dl'' then (if length (ofh_DlPortId f) > 0 then ofh_DlPortId f else def)
                 else if kind = ''ul'' then (if length (ofh_UlPortId f) > 0 then ofh_UlPortId f else def)
                 else def)
    in ''['' @ Join (map itoa v) '', '' @ '']'')\<close>

definition ofhProfile :: "RANOfh option \<Rightarrow> RANCell \<Rightarrow> int \<Rightarrow> int \<Rightarrow> string" where
  \<open>ofhProfile ofh cell tac sd =
   (let pci = (case ofh of None \<Rightarrow> ''0000:af:0a.0'' | Some f \<Rightarrow> orDefault (ofh_Interface f) ''0000:af:0a.0'');
        ruMac = (case ofh of None \<Rightarrow> ''aa:bb:cc:dd:ee:ff'' | Some f \<Rightarrow> orDefault (ofh_RuMac f) ''aa:bb:cc:dd:ee:ff'');
        duMac = (case ofh of None \<Rightarrow> ''00:11:22:33:44:55'' | Some f \<Rightarrow> orDefault (ofh_DuMac f) ''00:11:22:33:44:55'');
        eal0 = ''--lcores (0-1)@(0-3) -a '' @ pci @ '' --iova-mode=pa'';
        eal = (case ofh of None \<Rightarrow> eal0 | Some f \<Rightarrow> if TrimSpace (ofh_EalArgs f) \<noteq> '''' then ofh_EalArgs f else eal0);
        prachP = ofhPortList ofh ''prach'';
        dlP = ofhPortList ofh ''dl'';
        ulP = ofhPortList ofh ''ul'';
        band = TrimPrefix (orDefault (cell_Band cell) ''n78'') ''n'';
        arfcn = orInt (cell_DlArfcn cell) 630000;
        bw = orInt (cell_BandwidthMHz cell) 100;
        scs = orInt (cell_CommonScs cell) 30;
        pciCell = orInt (cell_Pci cell) 0;
        ant = orInt (cell_Antennas cell) 4
    in ''cu_cp:
  amf:
    addr: AMF_ADDR
    port: 38412
    bind_addr: 0.0.0.0
    supported_tracking_areas:
      - tac: '' @ itoa tac @ ''
        plmn_list:
          - plmn: "00101"
            tai_slice_support_list:
              - sst: 1
                sd: '' @ itoa sd @ ''
hal:
  eal_args: "'' @ eal @ ''"
expert_phy:
  allow_request_on_empty_uplink_slot: true
ru_ofh:
  t1a_max_cp_dl: 350
  t1a_min_cp_dl: 200
  t1a_max_cp_ul: 350
  t1a_min_cp_ul: 200
  t1a_max_up: 300
  t1a_min_up: 0
  ta4_max: 500
  ta4_min: 0
  is_prach_cp_enabled: true
  ignore_ecpri_payload_size: false
  ignore_ecpri_seq_id: true
  compr_method_ul: bfp
  compr_bitwidth_ul: 9
  compr_method_dl: bfp
  compr_bitwidth_dl: 9
  compr_method_prach: bfp
  compr_bitwidth_prach: 9
  enable_ul_static_compr_hdr: true
  enable_dl_static_compr_hdr: true
  iq_scaling: 5.0
  cells:
    - network_interface: '' @ pci @ ''
      ru_mac_addr: '' @ ruMac @ ''
      du_mac_addr: '' @ duMac @ ''
      prach_port_id: '' @ prachP @ ''
      dl_port_id: '' @ dlP @ ''
      ul_port_id: '' @ ulP @ ''
cell_cfg:
  dl_arfcn: '' @ itoa arfcn @ ''
  band: '' @ band @ ''
  channel_bandwidth_MHz: '' @ itoa bw @ ''
  common_scs: '' @ itoa scs @ ''
  plmn: "00101"
  tac: '' @ itoa tac @ ''
  pci: '' @ itoa pciCell @ ''
  nof_antennas_dl: '' @ itoa ant @ ''
  nof_antennas_ul: '' @ itoa ant @ ''
  pdcch:
    common:
      coreset0_index: 11
      ss0_index: 0
  pdsch:
    min_ue_mcs: 0
    max_ue_mcs: 28
    nof_harqs: 16
    max_nof_harq_retxs: 4
    mcs_table: qam64
  pusch:
    min_ue_mcs: 0
    max_ue_mcs: 25
    max_nof_harq_retxs: 4
    msg3_delta_preamble: 2
    p0_nominal_with_grant: -96
    mcs_table: qam64
  pucch:
    p0_nominal: -96
    sr_period_ms: 20
  prach:
    prach_config_index: 159
    prach_root_sequence_index: 1
    zero_correlation_zone: 14
    prach_frequency_start: 22
    preamble_rx_target_pw: -80
    preamble_trans_max: 7
    power_ramping_step_db: 4
    nof_cb_preambles_per_ssb: 64
    ra_resp_window: 10
  csi:
    csi_rs_enabled: true
    csi_rs_period: 20
  ssb:
    ssb_period: 20
    ssb_block_power_dbm: 0
  tdd_ul_dl_cfg:
    dl_ul_tx_period: 5
    nof_dl_slots: 3
    nof_dl_symbols: 6
    nof_ul_slots: 1
    nof_ul_symbols: 4
log:
  filename: stdout
  all_level: info
  ofh_level: info
'')\<close>

definition ranRadioBlock :: "string \<Rightarrow> string \<Rightarrow> string \<Rightarrow> RANOfh option \<Rightarrow> string" where
  \<open>ranRadioBlock split device srate ofh =
   (if split = ''7.2'' then
      (let iface = (case ofh of None \<Rightarrow> ''0000:01:00.1'' | Some f \<Rightarrow> orDefault (ofh_Interface f) ''0000:01:00.1'');
           ruMac = (case ofh of None \<Rightarrow> ''aa:bb:cc:dd:ee:ff'' | Some f \<Rightarrow> orDefault (ofh_RuMac f) ''aa:bb:cc:dd:ee:ff'');
           duMac = (case ofh of None \<Rightarrow> ''00:11:22:33:44:55'' | Some f \<Rightarrow> orDefault (ofh_DuMac f) ''00:11:22:33:44:55'');
           vlan = (case ofh of None \<Rightarrow> 3 | Some f \<Rightarrow> orInt (ofh_VlanTag f) 3)
       in ''ru_ofh:
  ru_bandwidth_MHz: 100
  t1a_max_cp_dl: 500
  t1a_min_cp_dl: 258
  t1a_max_cp_ul: 500
  t1a_min_cp_ul: 285
  t1a_max_up: 300
  t1a_min_up: 85
  ta4_max: 300
  ta4_min: 50
  is_prach_cp_enabled: true
  compr_method_ul: bfp
  compr_bitwidth_ul: 9
  compr_method_dl: bfp
  compr_bitwidth_dl: 9
  compr_method_prach: bfp
  compr_bitwidth_prach: 9
  enable_ul_static_compr_hdr: true
  enable_dl_static_compr_hdr: true
  cells:
    - network_interface: '' @ iface @ ''
      ru_mac_addr: '' @ ruMac @ ''
      du_mac_addr: '' @ duMac @ ''
      vlan_tag_cp: '' @ itoa vlan @ ''
      vlan_tag_up: '' @ itoa vlan @ ''
      prach_port_id: [4, 5]
      dl_port_id: [0, 1]
      ul_port_id: [0, 1]'')
    else if device = ''b210'' then ''ru_sdr:
  device_driver: uhd
  device_args: type=b200
  clock: external
  srate: '' @ srate @ ''
  tx_gain: 80
  rx_gain: 40''
    else if device = ''x310'' then ''ru_sdr:
  device_driver: uhd
  device_args: type=x300
  clock: internal
  srate: '' @ srate @ ''
  tx_gain: 50
  rx_gain: 50''
    else ''ru_sdr:
  device_driver: zmq
  device_args: tx_port=tcp://127.0.0.1:2000,rx_port=tcp://127.0.0.1:2001,base_srate='' @ srate @ ''e6
  srate: '' @ srate)\<close>

section \<open>The configuration\<close>

text \<open>\<open>sd, _ := strconv.ParseInt(...)\<close>: the slice differentiator, read as hexadecimal.\<close>

definition slice_sd :: "EdgeSiteSpec \<Rightarrow> int" where
  \<open>slice_sd spec =
   fst (ParseInt (TrimPrefix (orDefault (es_SliceSD spec) ''102030'') ''0x'') 16)\<close>

text \<open>The last branch of the configuration: a self-consistent cell for the simulator.\<close>

definition sim_config :: "RANSpec \<Rightarrow> string \<Rightarrow> string \<Rightarrow> int \<Rightarrow> int \<Rightarrow> string" where
  \<open>sim_config rs split device tac sd =
   (let pci = orInt (cell_Pci (ran_Cell rs)) 1;
        band = TrimPrefix (orDefault (cell_Band (ran_Cell rs)) ''n78'') ''n'';
        arfcn = orInt (cell_DlArfcn (ran_Cell rs)) 632628;
        bw = orInt (cell_BandwidthMHz (ran_Cell rs)) 100;
        scs = orInt (cell_CommonScs (ran_Cell rs)) 30;
        sim = (device = ''zmq'' \<and> band = ''78'' \<and> arfcn = 632628 \<and> bw = 100 \<and> scs = 30);
        (band, arfcn, bw, scs) = (if sim then (''3'', 368500, 10, 15) else (band, arfcn, bw, scs));
        prachIdx = (if sim then 1 else 0 :: int);
        radio = ranRadioBlock split device (srateForBw bw) (ran_Ofh rs);
        prach = (if prachIdx > 0 then [newline] @ ''  prach:'' @ [newline] @ ''    prach_config_index: '' @ itoa prachIdx @ [newline]
                   @ ''    zero_correlation_zone: 0'' else [])
    in ''cu_cp:
  amf:
    addr: AMF_ADDR
    port: 38412
    bind_addr: 0.0.0.0
    supported_tracking_areas:
      - tac: '' @ itoa tac @ ''
        plmn_list:
          - plmn: "00101"
            tai_slice_support_list:
              - sst: 1
                sd: '' @ itoa sd @ ''
'' @ radio @ ''
cell_cfg:
  dl_arfcn: '' @ itoa arfcn @ ''
  band: '' @ band @ ''
  channel_bandwidth_MHz: '' @ itoa bw @ ''
  common_scs: '' @ itoa scs @ ''
  plmn: "00101"
  tac: '' @ itoa tac @ ''
  pci: '' @ itoa pci @ prach @ ''
log:
  filename: stdout
  all_level: info
'')\<close>

definition gnb_config :: "RANSpec \<Rightarrow> int \<Rightarrow> int \<Rightarrow> string" where
  \<open>gnb_config rs tac sd =
   (let split = orDefault (ran_Split rs) ''8'';
        device = orDefault (ran_Device rs) ''zmq'';
        s = TrimSpace (ran_Config rs)
    in if s \<noteq> '''' then s
       else if split = ''8'' \<and> device \<noteq> ''zmq'' then deviceProfile device tac sd
       else if split = ''7.2'' then ofhProfile (ran_Ofh rs) (ran_Cell rs) tac sd
       else sim_config rs split device tac sd)\<close>

definition with_cu_up :: "string \<Rightarrow> string \<Rightarrow> string" where
  \<open>with_cu_up gnb gnbIP =
   (if gnbIP \<noteq> '''' \<and> \<not> Contains gnb ''cu_up:''
    then gnb @ [newline] @ ''cu_up:'' @ [newline] @ ''  ngu:'' @ [newline] @ ''    socket:'' @ [newline]
           @ ''      - bind_addr: '' @ gnbIP @ [newline]
    else gnb)\<close>

definition ran_configmap :: "string \<Rightarrow> string" where
  \<open>ran_configmap gnb =
   ''apiVersion: v1
kind: ConfigMap
metadata:
  name: ocudu-gnb-config
  namespace: default
data:
  gnb.yaml: |
'' @ indent gnb ''    ''\<close>

section \<open>The pod\<close>

definition initC :: "string" where
  \<open>initC =
   ''      initContainers:
        - name: resolve-amf
          image: busybox:1.36
          command: ["sh","-c","until AMF=$(nslookup amf-headless.default.svc.cluster.local 2>/dev/null | awk \'/^Address: /{print $2; exit}\'); [ -n '' @ [CHR 0x5C] @ ''"$AMF'' @ [CHR 0x5C] @ ''" ]; do echo waiting for amf DNS; sleep 2; done; sed '' @ [CHR 0x5C] @ ''"s/AMF_ADDR/$AMF/'' @ [CHR 0x5C] @ ''" /in/gnb.yaml > /out/gnb.yaml; echo resolved AMF=$AMF"]
          volumeMounts:
            - { name: cfg-in, mountPath: /in }
            - { name: cfg-out, mountPath: /out }''\<close>

definition ofhInit :: "string" where
  \<open>ofhInit =
   ''set -e
until AMF=$(getent hosts amf-headless.default.svc.cluster.local 2>/dev/null | awk \'{print $1; exit}\'); [ -n "$AMF" ]; do echo waiting for amf DNS; sleep 2; done
CPUS=$(tr \' \' '' @ [CHR 0x27] @ [CHR 0x5C] @ ''n\' < /proc/cmdline | grep \'^isolcpus=\' | sed \'s/.*isolcpus=//\' | tr \',\' '' @ [CHR 0x27] @ [CHR 0x5C] @ ''n\' | grep -E \'^[0-9]+(-[0-9]+)?$\' | head -1)
[ -n "$CPUS" ] || CPUS="0-$(($(nproc)-1))"
A=$(ip -o -4 addr show n3 2>/dev/null | awk \'{print $4}\' | head -1); [ -n "$A" ] && ip addr change "$A" dev n3 scope link 2>/dev/null || true
sed "s/AMF_ADDR/$AMF/" /in/gnb.yaml > /out/gnb.yaml
# N3/NG-U: pin the gNB downlink GTP-U bind to its real n3 IP, else it advertises 0.0.0.0 and the UPF
# encaps downlink to 0.0.0.0 (uplink works, downlink dropped). $A is the n3 addr (with /prefix).
N3=$(echo "$A" | cut -d/ -f1)
if [ -n "$N3" ] && ! grep -q \'^cu_up:\' /out/gnb.yaml; then printf '' @ [CHR 0x27] @ [CHR 0x5C] @ ''ncu_up:'' @ [CHR 0x5C] @ ''n  ngu:'' @ [CHR 0x5C] @ ''n    socket:'' @ [CHR 0x5C] @ ''n      - bind_addr: %s'' @ [CHR 0x5C] @ ''n\' "$N3" >> /out/gnb.yaml; fi
printf \'%s\' "$CPUS" > /out/cpuset
echo "ofh-init: cpuset=[$CPUS] amf=$AMF"
''\<close>

definition ofh_detectCM :: "string" where
  \<open>ofh_detectCM =
   ''apiVersion: v1'' @ [newline] @ ''kind: ConfigMap'' @ [newline] @ ''metadata:'' @ [newline]
   @ ''  name: ocudu-gnb-detect'' @ [newline] @ ''  namespace: default'' @ [newline] @ ''data:'' @ [newline]
   @ ''  detect.sh: |'' @ [newline] @ indent ofhInit ''    ''\<close>

definition ofh_podSpec :: "string" where
  \<open>ofh_podSpec =
   ''      dnsPolicy: ClusterFirst
      initContainers:
        - name: ofh-init
          image: ocudu/gnb:split72
          imagePullPolicy: IfNotPresent
          command: ["sh","/scripts/detect.sh"]
          securityContext: { privileged: true }
          volumeMounts:
            - { name: cfg-in, mountPath: /in }
            - { name: scripts, mountPath: /scripts }
            - { name: cfg-out, mountPath: /out }
      containers:
        - name: gnb
          image: ocudu/gnb:split72
          imagePullPolicy: IfNotPresent
          command: ["sh","-c","exec taskset -c '' @ [CHR 0x5C] @ ''"$(cat /out/cpuset)'' @ [CHR 0x5C] @ ''" /usr/local/bin/gnb_split_7_2 -c /out/gnb.yaml"]
          securityContext: { privileged: true }
          resources:
            limits: { hugepages-1Gi: 2Gi, memory: 6Gi }
            requests: { hugepages-1Gi: 2Gi, memory: 2Gi, cpu: "4" }
          volumeMounts:
            - { name: cfg-out, mountPath: /out }
            - { name: vfio, mountPath: /dev/vfio }
            - { name: hugepages, mountPath: /dev/hugepages }
            - { name: sysbus, mountPath: /sys/bus/pci }
            - { name: sysdev, mountPath: /sys/devices }
      volumes:
        - { name: cfg-in, configMap: { name: ocudu-gnb-config } }
        - { name: scripts, configMap: { name: ocudu-gnb-detect } }
        - { name: cfg-out, emptyDir: {} }
        - { name: vfio, hostPath: { path: /dev/vfio } }
        - { name: hugepages, emptyDir: { medium: HugePages } }
        - { name: sysbus, hostPath: { path: /sys/bus/pci } }
        - { name: sysdev, hostPath: { path: /sys/devices } }''\<close>

definition wantType :: "string \<Rightarrow> string" where
  \<open>wantType device =
   (if device = ''n310'' then ''n3xx'' else if device = ''b210'' then ''b200''
    else if device = ''x310'' then ''x300'' else device)\<close>

definition detectScript :: "string \<Rightarrow> string" where
  \<open>detectScript device =
   ''set -e
until AMF=$(getent hosts amf-headless.default.svc.cluster.local 2>/dev/null | awk \'{print $1; exit}\'); [ -n "$AMF" ]; do echo "waiting for amf DNS"; sleep 2; done
WANT='' @ quote (wantType device) @ ''
# Honor the intent-declared radio: bind ONLY the requested type, never auto-grab a different/shared one.
# USB b200 needs no addr; networked n3xx/x300 discover THEIR OWN addr (filtered by type so a co-visible
# radio of another type can\'t be selected). RADIO_ADDR (intent override) always wins for the data plane.
case "$WANT" in
  b200) TYPE=b200; ARGS="type=b200" ;;
  n3xx) TYPE=n3xx; MGMT=$(timeout 20 uhd_find_devices --args "type=n3xx" 2>/dev/null | sed -n \'s/^['' @ ''[:space:]]*addr:['' @ ''[:space:]]*//p\' | head -1)
        DATA=${RADIO_ADDR:-$MGMT}; MGMT=${MGMT:-$RADIO_ADDR}; ARGS="type=n3xx${DATA:+,addr=$DATA}${MGMT:+,mgmt_addr=$MGMT}" ;;
  x300) TYPE=x300; MGMT=$(timeout 20 uhd_find_devices --args "type=x300" 2>/dev/null | sed -n \'s/^['' @ ''[:space:]]*addr:['' @ ''[:space:]]*//p\' | head -1)
        DATA=${RADIO_ADDR:-$MGMT}; ARGS="type=x300${DATA:+,addr=$DATA}" ;;
  *)    TYPE="$WANT"; [ -n "$RADIO_ADDR" ] && ARGS="addr=$RADIO_ADDR" || ARGS="type=$WANT" ;;
esac
CPUS=$(tr \' \' '' @ [CHR 0x27] @ [CHR 0x5C] @ ''n\' < /proc/cmdline | grep \'^isolcpus=\' | sed \'s/isolcpus=//\' | tr \',\' '' @ [CHR 0x27] @ [CHR 0x5C] @ ''n\' | grep -E \'^[0-9]+(-[0-9]+)?$\' | head -1)
[ -n "$CPUS" ] || CPUS="0-$(($(nproc)-1))"
# N3 (access-net multus iface "n3") only needs L2 reachability to the UPF; set it link-scope so OCUDU\'s
# 0.0.0.0-bound N2 SCTP does NOT advertise it '' @ [CHR 0xE2, CHR 0x80, CHR 0x94] @ '' leaving the pod\'s primary CNI IP as the ONLY N2 address
# (single-homed => stable N2 on any host). Same for any other non-primary global-scope iface the pod has.
for IFACE in n3 radio0; do
  A=$(ip -o -4 addr show "$IFACE" 2>/dev/null | awk \'{print $4}\' | head -1)
  [ -n "$A" ] && ip addr change "$A" dev "$IFACE" scope link 2>/dev/null || true
done
sed -e "s/AMF_ADDR/$AMF/" -e "s|RADIO_ARGS|$ARGS|" /in/gnb.yaml > /out/gnb.yaml
printf \'%s\' "$CPUS" > /out/cpuset
echo "detect: want=$WANT type=$TYPE data=$DATA args=[$ARGS] cpuset=[$CPUS] amf=$AMF"
''\<close>

definition uhd_detectCM :: "string \<Rightarrow> string" where
  \<open>uhd_detectCM device =
   ''apiVersion: v1
kind: ConfigMap
metadata:
  name: ocudu-gnb-detect
  namespace: default
data:
  detect.sh: |
'' @ indent (detectScript device) ''    ''\<close>

definition uhd_podSpec :: "string \<Rightarrow> string" where
  \<open>uhd_podSpec radioAddr =
   (let envBlock = (if radioAddr \<noteq> '''' then [newline] @ ''          env:'' @ [newline]
           @ ''            - { name: RADIO_ADDR, value: "'' @ radioAddr @ ''" }'' else [])
    in ''      dnsPolicy: ClusterFirst
      initContainers:
        - name: detect
          image: ocudu/gnb:sdr
          imagePullPolicy: IfNotPresent
          command: ["sh","/scripts/detect.sh"]
          securityContext: { privileged: true }'' @ envBlock @ ''
          volumeMounts:
            - { name: cfg-in, mountPath: /in }
            - { name: scripts, mountPath: /scripts }
            - { name: cfg-out, mountPath: /out }
      containers:
        - name: gnb
          image: ocudu/gnb:sdr
          imagePullPolicy: IfNotPresent
          command: ["sh","-c","exec taskset -c '' @ [CHR 0x5C] @ ''"$(cat /out/cpuset)'' @ [CHR 0x5C] @ ''" /usr/local/bin/gnb -c /out/gnb.yaml"]
          securityContext: { privileged: true }
          volumeMounts:
            - { name: cfg-out, mountPath: /out }
            - { name: usb, mountPath: /dev/bus/usb }
      volumes:
        - { name: cfg-in, configMap: { name: ocudu-gnb-config } }
        - { name: scripts, configMap: { name: ocudu-gnb-detect } }
        - { name: cfg-out, emptyDir: {} }
        - { name: usb, hostPath: { path: /dev/bus/usb, type: DirectoryOrCreate } }'')\<close>

definition zmq_podSpec :: "string" where
  \<open>zmq_podSpec =
   initC @ ''
      containers:
        - name: gnb
          image: ocudu/gnb:zmq
          imagePullPolicy: IfNotPresent
          args: ["-c","/out/gnb.yaml"]
          securityContext: { privileged: true }
          volumeMounts:
            - { name: cfg-out, mountPath: /out }
      volumes:
        - { name: cfg-in, configMap: { name: ocudu-gnb-config } }
        - { name: cfg-out, emptyDir: {} }''\<close>

definition n3mac :: "string \<Rightarrow> string" where
  \<open>n3mac gnbIP =
   (case Split (CHR ''.'') gnbIP of
      [o0, o1, o2, o3] \<Rightarrow> ''02:00:'' @ hex02 (nat (atoiOr o0 10)) @ '':'' @ hex02 (nat (atoiOr o1 200)) @ '':''
        @ hex02 (nat (atoiOr o2 193)) @ '':'' @ hex02 (nat (atoiOr o3 20))
    | _ \<Rightarrow> ''02:00:00:00:00:01'')\<close>

definition pod_annot :: "string \<Rightarrow> string" where
  \<open>pod_annot gnbIP =
   ''
      annotations:
        k8s.v1.cni.cncf.io/networks: \'[{"name":"access-net","interface":"n3","ips":["'' @ gnbIP @ ''/24"],"mac":"'' @ n3mac gnbIP @ ''"}]'' @ [CHR 0x27]\<close>

definition radio_nad :: "string \<Rightarrow> string" where
  \<open>radio_nad nic =
   ''apiVersion: k8s.cni.cncf.io/v1
kind: NetworkAttachmentDefinition
metadata:
  name: radio-net
  namespace: default
spec:
  config: \'{"cniVersion":"0.3.1","type":"macvlan","master":"'' @ nic @ ''","mode":"bridge","mtu":9000,"ipam":{"type":"static"}}\'
''\<close>

definition radio_annot :: "string \<Rightarrow> string \<Rightarrow> string" where
  \<open>radio_annot gnbIP radioAddr =
   ''
      annotations:
        k8s.v1.cni.cncf.io/networks: \'[{"name":"access-net","interface":"n3","ips":["'' @ gnbIP @ ''/24"]},{"name":"radio-net","interface":"radio0","ips":["'' @ before_last radioAddr (CHR ''.'') @ ''.10'' @ ''/24"]}]'' @ [CHR 0x27]\<close>

definition gnb_deployment :: "string \<Rightarrow> int \<Rightarrow> bool \<Rightarrow> string \<Rightarrow> string \<Rightarrow> string" where
  \<open>gnb_deployment name ranReplicas isUHD podAnnot podSpec =
   (let strategy = (if isUHD then [newline] @ ''  strategy: { type: Recreate }'' else [])
    in ''apiVersion: apps/v1
kind: Deployment
metadata:
  name: gnb-'' @ name @ ''
  namespace: default
  labels: { app: gnb-'' @ name @ '' }
spec:
  replicas: '' @ itoa ranReplicas @ ''
  selector: { matchLabels: { app: gnb-'' @ name @ '' } }'' @ strategy @ ''
  template:
    metadata:
      labels: { app: gnb-'' @ name @ '' }'' @ podAnnot @ ''
    spec:
'' @ podSpec @ ''
'')\<close>

section \<open>Delivery\<close>

definition ran_replicas :: "RANSpec \<Rightarrow> int" where
  "ran_replicas rs = (if ran_Enabled rs = Some False then 0 else 1)"

definition uses_uhd :: "RANSpec \<Rightarrow> bool" where
  "uses_uhd rs \<longleftrightarrow> orDefault (ran_Split rs) ''8'' = ''8'' \<and> orDefault (ran_Device rs) ''zmq'' \<noteq> ''zmq''"

definition uses_ofh :: "RANSpec \<Rightarrow> bool" where
  "uses_ofh rs \<longleftrightarrow> orDefault (ran_Split rs) ''8'' = ''7.2''"

text \<open>A networked SDR, which gets a second interface.\<close>

definition uses_radio_net :: "RANSpec \<Rightarrow> bool" where
  "uses_radio_net rs \<longleftrightarrow> uses_uhd rs \<and> ran_RadioNic rs \<noteq> '''' \<and> Contains (ran_RadioAddr rs) ''.''"

definition gnb_podSpec :: "RANSpec \<Rightarrow> string" where
  "gnb_podSpec rs = (if uses_ofh rs then ofh_podSpec
     else if uses_uhd rs then uhd_podSpec (ran_RadioAddr rs) else zmq_podSpec)"

definition gnb_podAnnot :: "RANSpec \<Rightarrow> string \<Rightarrow> string" where
  "gnb_podAnnot rs gnbIP = (if uses_radio_net rs then radio_annot gnbIP (ran_RadioAddr rs) else pod_annot gnbIP)"

text \<open>The files of a site's gNB, in the order \<open>deliverRAN\<close> puts them: path and content.\<close>

definition ran_files :: "EdgeSite \<Rightarrow> RANSpec \<Rightarrow> (string \<times> string) list" where
  "ran_files es rs =
     (let gnb = with_cu_up (gnb_config rs 1 (slice_sd (es_Spec es))) (es_GnbIP (es_Spec es)) in
      [(''ran/configmap.yaml'', ran_configmap gnb)]
      @ (if uses_ofh rs then [(''ran/detect.yaml'', ofh_detectCM)]
         else if uses_uhd rs then [(''ran/detect.yaml'', uhd_detectCM (orDefault (ran_Device rs) ''zmq''))] else [])
      @ (if uses_radio_net rs then [(''ran/radio-net.yaml'', radio_nad (ran_RadioNic rs))] else [])
      @ [(''ran/deployment.yaml'', gnb_deployment (om_Name (es_Meta es)) (ran_replicas rs) (uses_uhd rs)
           (gnb_podAnnot rs (es_GnbIP (es_Spec es))) (gnb_podSpec rs))])"

definition deliverRAN :: "'w EdgeSiteReconciler \<Rightarrow> EdgeSite \<Rightarrow> string \<Rightarrow> ('w, error option) io" where
  "deliverRAN r es deployRepo =
     (case es_RAN (es_Spec es) of None \<Rightarrow> ret None
      | Some rs \<Rightarrow> for_until_err (\<lambda>(path, yaml). gitPut (esr_Env r) (esr_Client r) deployRepo path yaml) (ran_files es rs))"

section \<open>Files of a delivery\<close>

lemma contents_url_inj: "contents_url u r p = contents_url u r q \<longleftrightarrow> p = q"
  by (simp add: contents_url_def)

lemma map_of_map_inj:
  "map_of (map (\<lambda>(p, y). (contents_url u r p, EncodeToString y)) fs) (contents_url u r p) = map_option EncodeToString (map_of fs p)"
  by (induction fs) (auto simp: contents_url_inj)

lemma map_of_urls_None:
  "p \<notin> fst ` set fs \<Longrightarrow> map_of (map (\<lambda>(p, y). (contents_url u r p, EncodeToString y)) fs) (contents_url u r p) = None"
  unfolding map_of_map_inj by (simp add: map_of_eq_None_iff)

context delivery_world
begin

lemma gitPut_all_view: "frame view (for_until_err (\<lambda>(path, yaml). gitPut E c rp path yaml) fs)"
  by (intro frame_intros) (auto simp: gitPut_view)

text \<open>A series of \<open>gitPut\<close>s that all succeeded leaves every file of the series, and nothing else changed.\<close>

lemma gitPut_all_effect:
  assumes "run_state (for_until_err (\<lambda>(path, yaml). gitPut E c rp path yaml) fs) w = (None, w')"
    and "distinct (map fst fs)" and "view w gitea_auth_key = Some (KSecret sec)"
  shows "repo w' = repo w ++ map_of (map (\<lambda>(p, y). (contents_url (secret_data sec ''username'') rp p, EncodeToString y)) fs)"
  using assms
proof (induction fs arbitrary: w)
  case Nil
  then show ?case by simp
next
  case (Cons f fs)
  obtain p y where f: "f = (p, y)" by force
  let ?u = "contents_url (secret_data sec ''username'') rp p"
  from Cons.prems(1) obtain w1 where put: "run_state (gitPut E c rp p y) w = (None, w1)"
    and rest: "run_state (for_until_err (\<lambda>(path, yaml). gitPut E c rp path yaml) fs) w1 = (None, w')"
    unfolding f for_until_err_None_Cons by auto
  have v: "view w1 = view w" using frameD [OF gitPut_view put] .
  have r1: "repo w1 = (repo w)(?u \<mapsto> EncodeToString y)"
    using gitPut_effect [OF put] Cons.prems(3) by (auto simp: Let_def)
  have "p \<notin> fst ` set fs" using Cons.prems(2) f by simp
  note none = map_of_urls_None [OF this, of "secret_data sec ''username''" rp]
  have "distinct (map fst fs)" "view w1 gitea_auth_key = Some (KSecret sec)" using Cons.prems(2,3) v by auto
  note Cons.IH [OF rest this]
  then show ?case
    unfolding r1 using none by (auto simp: f fun_eq_iff map_add_def split: option.splits)
qed

text \<open>A successful series of at least one file read the credentials.\<close>

lemma gitPut_all_secret:
  assumes "run_state (for_until_err (\<lambda>(path, yaml). gitPut E c rp path yaml) (f # fs)) w = (None, w')"
  obtains sec where "view w gitea_auth_key = Some (KSecret sec)"
proof -
  obtain p y where f: "f = (p, y)" by force
  from assms obtain w1 where put: "run_state (gitPut E c rp p y) w = (None, w1)"
    unfolding f for_until_err_None_Cons by auto
  from gitPut_effect [OF put] that show thesis by (auto simp: Let_def)
qed

end

lemma ran_files_paths: "distinct (map fst (ran_files es rs))" "ran_files es rs \<noteq> []"
  by (auto simp: ran_files_def Let_def)

section \<open>Embedding a text in a manifest\<close>

lemma Split_lines: "l \<in> set (Split sep s) \<Longrightarrow> sep \<notin> set l"
proof (induction s arbitrary: l)
  case (Cons c s)
  obtain p ps where S: "Split sep s = p # ps" by (meson Split_nonempty neq_Nil_conv)
  with Cons show ?case by (auto split: if_splits)
qed simp

lemma Split_concat_lines:
  "(\<And>l. l \<in> set ls \<Longrightarrow> sep \<notin> set (g l)) \<Longrightarrow> Split sep (concat (map (\<lambda>l. g l @ [sep]) ls)) = map g ls @ [[]]"
  by (induction ls) (auto simp: Split_append_sep)

definition pad_line :: "string \<Rightarrow> string \<Rightarrow> string" where
  "pad_line pad l = (if l = [] then [] else pad @ l)"

lemma indent_lines:
  assumes "newline \<notin> set pad"
  shows "Split newline (indent s pad) = map (pad_line pad) (Split newline s) @ [[]]"
proof -
  have "indent s pad = concat (map (\<lambda>l. pad_line pad l @ [newline]) (Split newline s))"
    unfolding indent_def pad_line_def by (rule arg_cong [of _ _ concat], rule map_cong) auto
  moreover have "newline \<notin> set (pad_line pad l)" if "l \<in> set (Split newline s)" for l
    using Split_lines [OF that] assms by (simp add: pad_line_def)
  ultimately show ?thesis by (simp add: Split_concat_lines)
qed

lemma Split_append_lines: "sep \<notin> set a \<Longrightarrow> Split sep (a @ [sep] @ b) = a # Split sep b"
  by (simp add: Split_append_sep)

section \<open>The pinned MAC address\<close>

lemma dot_not_in_itoa: "CHR ''.'' \<notin> set (itoa v)"
proof -
  have "CHR ''.'' \<notin> set (nat_str n)" for n
    using nat_str_digits [of n] by (auto simp: bytes_def list_all_iff is_digit_def)
  then show ?thesis by (auto simp: itoa_def)
qed

lemma Split_gnbIP: "Split (CHR ''.'') (''10.200.'' @ itoa i @ ''.20'') = [''10'', ''200'', itoa i, ''20'']"
  using Split_append_sep [OF dot_not_in_itoa, of i "''20''"] by simp

lemma atoiOr_consts: "hex02 (nat (atoiOr ''10'' d)) = ''0a''" "hex02 (nat (atoiOr ''200'' d)) = ''c8''"
  "hex02 (nat (atoiOr ''20'' d)) = ''14''"
  by code_simp+

lemma n3mac_derived:
  assumes "0 \<le> i" "i < 256"
  shows "n3mac (''10.200.'' @ itoa i @ ''.20'') = ''02:00:0a:c8:'' @ hex02 (nat i) @ '':14''"
proof -
  have "atoiOr (itoa i) 193 = i" using assms by (simp add: atoiOr_def Atoi_itoa)
  then show ?thesis unfolding n3mac_def Split_gnbIP by (simp add: atoiOr_consts)
qed

lemma hex_char_inj: "a < 16 \<Longrightarrow> b < 16 \<Longrightarrow> hex_char a = hex_char b \<longleftrightarrow> a = b"
proof
  assume ab: "a < 16" "b < 16" and "hex_char a = hex_char b"
  then have "(of_char (hex_char a) :: nat) = of_char (hex_char b)" by simp
  with ab show "a = b" by (auto simp: hex_char_def split: if_splits)
qed simp

lemma hex02_inj: "a < 256 \<Longrightarrow> b < 256 \<Longrightarrow> hex02 a = hex02 b \<longleftrightarrow> a = b"
proof
  assume ab: "a < 256" "b < 256" and eq: "hex02 a = hex02 b"
  then have "a div 16 mod 16 = b div 16 mod 16" "a mod 16 = b mod 16"
    by (simp_all add: hex02_def hex_char_inj)
  moreover have "x = 16 * (x div 16 mod 16) + x mod 16" if "x < 256" for x :: nat using that by simp
  ultimately show "a = b" using ab by metis
qed simp

text \<open>The radio configuration is embedded in its ConfigMap as one literal block: below seven fixed
  header lines stand exactly the lines of the configuration, each indented by four spaces, so no
  text a user writes into \<open>ran.config\<close> can end the block or add a key.\<close>

theorem ran_configmap_embeds:
  "Split newline (ran_configmap gnb) =
     [''apiVersion: v1'', ''kind: ConfigMap'', ''metadata:'', ''  name: ocudu-gnb-config'', ''  namespace: default'',
      ''data:'', ''  gnb.yaml: |''] @ map (pad_line ''    '') (Split newline gnb) @ [[]]"
proof -
  have "newline \<notin> set ''    ''" by simp
  note indent_lines [OF this, of gnb]
  then show ?thesis unfolding ran_configmap_def by simp
qed

text \<open>Sites whose names have different indices get different MAC addresses for their N3 interface,
  each locally administered (02) and a function of the derived gNB address alone, so a restarted
  gNB keeps it.\<close>

theorem n3mac_distinct:
  assumes "siteIndex m \<noteq> siteIndex n"
  shows "n3mac (''10.200.'' @ itoa (siteIndex m) @ ''.20'') \<noteq> n3mac (''10.200.'' @ itoa (siteIndex n) @ ''.20'')
    \<and> HasPrefix (n3mac (''10.200.'' @ itoa (siteIndex m) @ ''.20'')) ''02:''"
proof -
  have i: "0 \<le> siteIndex k" "siteIndex k < 256" for k using siteIndex_bounds [of k] by auto
  have "hex02 (nat (siteIndex m)) \<noteq> hex02 (nat (siteIndex n))"
    using assms i [of m] i [of n] by (simp add: hex02_inj nat_less_iff eq_nat_nat_iff)
  then show ?thesis unfolding n3mac_derived [OF i] by (simp add: HasPrefix_def hex02_def)
qed

theorem n3mac_distinct_witness:
  "n3mac (''10.200.'' @ itoa (siteIndex ''edge1'') @ ''.20'') \<noteq> n3mac (''10.200.'' @ itoa (siteIndex ''edge2'') @ ''.20'')"
proof -
  have "siteIndex ''edge1'' \<noteq> siteIndex ''edge2''" by code_simp
  from n3mac_distinct [OF this] show ?thesis by blast
qed

text \<open>The annotation of a networked radio's pod names no MAC address for the N3 interface, unlike
  that of every other pod, so there the address is random again.\<close>

theorem radio_annot_drops_mac:
  \<open>Contains (pod_annot ''10.200.9.20'') (''"mac":"'' @ n3mac ''10.200.9.20'') \<and>
   \<not> Contains (radio_annot ''10.200.9.20'' ''192.168.10.2'') ''mac''\<close>
  by code_simp

text \<open>The sample rate chosen for a cell exceeds its bandwidth, for every bandwidth up to 122 MHz
  (the rate is read in hundredths of a MHz); it is not always the smallest rate of the table that
  does, as the comment has it: 60 MHz gets 92.16 although 61.44 is larger than 60.\<close>

theorem srateForBw_covers:
  assumes "bw \<le> 122"
  shows "(\<exists>v. Atoi (filter (\<lambda>c. c \<noteq> CHR ''.'') (srateForBw bw)) = Some v \<and> bw * 100 < v)
    \<and> srateForBw 60 = ''92.16'' \<and> srateForBw 50 = ''61.44'' \<and> (60 :: int) * 100 < 6144"
proof -
  have t: "Atoi ''768'' = Some 768" "Atoi ''1152'' = Some 1152" "Atoi ''1536'' = Some 1536" "Atoi ''2304'' = Some 2304"
    "Atoi ''4608'' = Some 4608" "Atoi ''6144'' = Some 6144" "Atoi ''9216'' = Some 9216" "Atoi ''12288'' = Some 12288"
    by code_simp+
  show ?thesis using assms by (simp add: srateForBw_def t)
qed

theorem srateForBw_covers_witness:
  "\<exists>v. Atoi (filter (\<lambda>c. c \<noteq> CHR ''.'') (srateForBw 100)) = Some v \<and> 100 * 100 < v"
  using srateForBw_covers [of 100] by simp

section \<open>Delivery\<close>

lemma with_cu_up_binds: "gnbIP \<noteq> '''' \<Longrightarrow> Contains (with_cu_up gnb gnbIP) ''cu_up:''"
proof (cases "Contains gnb ''cu_up:''")
  case False
  assume "gnbIP \<noteq> ''''"
  with False have "with_cu_up gnb gnbIP = (gnb @ [newline]) @ ''cu_up:'' @ ([newline] @ ''  ngu:'' @ [newline] @ ''    socket:'' @ [newline]
           @ ''      - bind_addr: '' @ gnbIP @ [newline])"
    by (simp add: with_cu_up_def)
  then show ?thesis unfolding Contains_iff by blast
qed (simp add: with_cu_up_def)


text \<open>Against the in-memory Gitea a delivery always goes through.\<close>

lemma lab_gitPut_ok:
  assumes "cl_view w gitea_auth_key = Some (KSecret sec)"
  shows "\<exists>w'. run_state (gitPut lab_env mem_client rp path yaml) w = (None, w')"
proof -
  let ?u = "contents_url (secret_data sec ''username'') rp path"
  have s: "run_state (get_as mem_client as_Secret gitea_auth_key) w = (Inr sec, w)"
    using assms by (simp add: get_as_def mem_client_defs decode_as_def)
  show ?thesis
    by (cases "lab_repo w ?u")
      (simp_all add: gitPut_def s Let_def lab_env_def lab_http_def answer_def file_sha_def json_field_def put_answer_def)
qed

lemma lab_deliver_ok:
  assumes "cl_view w gitea_auth_key = Some (KSecret sec)"
  shows "\<exists>w'. run_state (for_until_err (\<lambda>(path, yaml). gitPut lab_env mem_client rp path yaml) fs) w = (None, w')"
  using assms
proof (induction fs arbitrary: w)
  case (Cons f fs)
  obtain p y where f: "f = (p, y)" by force
  obtain w1 where put: "run_state (gitPut lab_env mem_client rp p y) w = (None, w1)"
    using lab_gitPut_ok [OF Cons.prems] by blast
  have "cl_view w1 gitea_auth_key = Some (KSecret sec)"
    using frameD [OF lab.gitPut_view put] Cons.prems by simp
  from Cons.IH [OF this] put f show ?case by (auto simp: for_until_err_None_Cons)
qed simp

definition lab_reconciler :: "lab EdgeSiteReconciler" where
  "lab_reconciler = \<lparr>esr_Client = mem_client, esr_Env = lab_env, BlueprintRepo = ''catalog'', MgmtRepo = ''mgmt''\<rparr>"

lemma lab_reconciler_simps [simp]:
  "esr_Client lab_reconciler = mem_client" "esr_Env lab_reconciler = lab_env"
  "BlueprintRepo lab_reconciler = ''catalog''" "MgmtRepo lab_reconciler = ''mgmt''"
  by (simp_all add: lab_reconciler_def)

definition zmq_ran :: RANSpec where
  "zmq_ran = \<lparr>ran_Stack = '''', ran_Enabled = None, ran_Split = '''', ran_Device = '''', ran_Config = '''', ran_LdLibraryPath = '''',
     ran_Cpuset = '''', ran_RadioAddr = '''', ran_RadioNic = '''', ran_Cell = \<lparr>cell_Band = '''', cell_DlArfcn = 0, cell_BandwidthMHz = 0,
     cell_CommonScs = 0, cell_Pci = 0, cell_Antennas = 0\<rparr>, ran_Ofh = None\<rparr>"

definition ran_site :: EdgeSite where
  "ran_site = (let s = new_EdgeSite ''default'' ''edge1'' ''192.168.1.7'' ''cp+upf''
     in s\<lparr>es_Spec := (es_Spec s)\<lparr>es_GnbIP := ''10.200.49.20'', es_RAN := Some zmq_ran\<rparr>\<rparr>)"

lemma lab0_secret: "\<exists>sec. cl_view lab0 gitea_auth_key = Some (KSecret sec)"
proof -
  have "cl_view lab0 gitea_auth_key = Some (hd (cl_objects lab0))" by code_simp
  then show ?thesis by (simp add: lab0_def)
qed


end
