(* ===== verification/EdgeSite_Controller.thy ===== *)
theory EdgeSite_Controller
  imports Upsert Site_Networks Ran_Render
begin

text \<open>
  The reconciler of an \<open>EdgeSite\<close>, \<open>operator/internal/controller/edgesite_controller.go\<close>: the
  objects and files a site consists of, the create-or-update of an owned object
  (\<open>applyOwned\<close>), one named step with its error status (\<open>step\<close>) and the reconcile that runs
  the steps in order. \<open>site_plan\<close> is the abstract specification: the list of things a site of a
  given role must have; the lemmas show that a reconcile that succeeds has established all of it.
\<close>

section \<open>Owned objects\<close>

definition subscriberCount :: nat where
  "subscriberCount = 5"

definition imsiBase :: string where
  "imsiBase = ''00101010000''"

definition pvGVK :: GVK where
  "pvGVK = \<lparr>gvk_Group = ''config.porch.kpt.dev'', gvk_Version = ''v1alpha1'', gvk_Kind = ''PackageVariant''\<rparr>"

definition ipClaimGVK :: GVK where
  "ipClaimGVK = \<lparr>gvk_Group = ''ipam.resource.nephio.org'', gvk_Version = ''v1alpha1'', gvk_Kind = ''IPClaim''\<rparr>"

definition site_owner :: "EdgeSite \<Rightarrow> OwnerReference" where
  "site_owner es = \<lparr>or_APIVersion = SchemeGroupVersion, or_Kind = ''EdgeSite'', or_Name = om_Name (es_Meta es),
     or_UID = om_UID (es_Meta es), or_Controller = Some True, or_BlockOwnerDeletion = Some True\<rparr>"

definition owned_by :: "EdgeSite \<Rightarrow> kobject \<Rightarrow> kobject" where
  "owned_by es obj = map_meta (\<lambda>m. m\<lparr>om_OwnerReferences := [site_owner es]\<rparr>) obj"

definition applyOwned :: "'w EdgeSiteReconciler \<Rightarrow> EdgeSite \<Rightarrow> kobject \<Rightarrow> ('w, error option) io" where
  "applyOwned r es obj0 = do {
     let obj = owned_by es obj0;
     g \<leftarrow> kGet (esr_Client r) (key_of obj);
     case g of
       Inl err \<Rightarrow>
         if IsNotFound err then do { c \<leftarrow> kCreate (esr_Client r) obj; ret (err_of c) }
         else ret (Some err)
     | Inr cur \<Rightarrow>
         if spec_unchanged obj cur then ret None
         else do {
           u \<leftarrow> kUpdate (esr_Client r) (set_version (om_ResourceVersion (meta_of cur)) obj);
           ret (err_of u) } }"

section \<open>The children of a site\<close>

definition pkg_variant :: "string \<Rightarrow> EdgeSite \<Rightarrow> string \<Rightarrow> string \<Rightarrow> string \<Rightarrow> string \<Rightarrow> bool \<Rightarrow> kobject" where
  "pkg_variant blueprintRepo es name upstreamPkg downRepo downPkg inject = KUnstructured
     \<lparr>u_GVK = pvGVK, u_Meta = named_meta (om_Namespace (es_Meta es)) name, u_Spec = JObj (
        [(''upstream'', JObj [(''repo'', JStr blueprintRepo), (''package'', JStr upstreamPkg), (''workspaceName'', JStr ''main'')]),
         (''downstream'', JObj [(''repo'', JStr downRepo), (''package'', JStr downPkg)])]
        @ (if inject then [(''injectors'', JList [JObj [(''group'', JStr ''sdcore.nephio.io''), (''version'', JStr ''v1alpha1''),
             (''kind'', JStr ''EdgeSite''), (''name'', JStr (om_Name (es_Meta es)))]])] else []))\<rparr>"

definition pkgVariant :: "'w EdgeSiteReconciler \<Rightarrow> EdgeSite \<Rightarrow> string \<Rightarrow> string \<Rightarrow> string \<Rightarrow> string \<Rightarrow> bool \<Rightarrow> ('w, error option) io" where
  "pkgVariant r es name upstreamPkg downRepo downPkg inject =
     applyOwned r es (pkg_variant (BlueprintRepo r) es name upstreamPkg downRepo downPkg inject)"

definition ip_claim :: "EdgeSite \<Rightarrow> string \<Rightarrow> string \<Rightarrow> kobject" where
  "ip_claim es name kind = KUnstructured
     \<lparr>u_GVK = ipClaimGVK, u_Meta = named_meta (om_Namespace (es_Meta es)) name, u_Spec = JObj
        [(''kind'', JStr kind), (''networkInstance'', JObj [(''name'', JStr ''sdcore-vpc'')]),
         (''prefixLength'', JInt (if kind = ''pool'' \<or> name = om_Name (es_Meta es) @ ''-pod'' then 16 else 24)),
         (''createPrefix'', JBool True)]\<rparr>"

definition ipClaim :: "'w EdgeSiteReconciler \<Rightarrow> EdgeSite \<Rightarrow> string \<Rightarrow> string \<Rightarrow> ('w, error option) io" where
  "ipClaim r es name kind = applyOwned r es (ip_claim es name kind)"

definition mesh_link :: "EdgeSite \<Rightarrow> string \<Rightarrow> kobject" where
  "mesh_link es cp = KMeshLink \<lparr>ml_Meta = named_meta (om_Namespace (es_Meta es)) (om_Name (es_Meta es)),
     ml_Spec = \<lparr>ml_Edge = om_Name (es_Meta es), ml_ControlPlane = cp, ml_UPFName = ''upf-'' @ om_Name (es_Meta es)\<rparr>,
     ml_Status = \<lparr>mls_Phase = [], mls_Message = [], mls_Conditions = []\<rparr>\<rparr>"

definition meshLink :: "'w EdgeSiteReconciler \<Rightarrow> EdgeSite \<Rightarrow> string \<Rightarrow> ('w, error option) io" where
  "meshLink r es cp = applyOwned r es (mesh_link es cp)"

definition edge_slice :: "EdgeSite \<Rightarrow> kobject" where
  "edge_slice es = KNetworkSlice \<lparr>ns_Meta = named_meta (om_Namespace (es_Meta es)) (om_Name (es_Meta es)),
     ns_Spec = \<lparr>ns_Sst = ''1'', ns_Sd = es_SliceSD (es_Spec es), ns_Dnn = ''internet'', ns_UePool = es_UEPool (es_Spec es),
       ns_UpfName = ''upf-'' @ om_Name (es_Meta es), ns_Plmn = \<lparr>plmn_Mcc = ''001'', plmn_Mnc = ''01''\<rparr>,
       ns_Gnbs = [\<lparr>gnb_Name = ''gnb-'' @ om_Name (es_Meta es), gnb_Tac = 1\<rparr>],
       ns_Qos = \<lparr>qos_MbrUplink = 0, qos_MbrDownlink = 0\<rparr>\<rparr>,
     ns_Status = \<lparr>nss_Phase = [], nss_Message = [], nss_Provisioned = [], nss_Conditions = []\<rparr>\<rparr>"

definition edgeSlice :: "'w EdgeSiteReconciler \<Rightarrow> EdgeSite \<Rightarrow> ('w, error option) io" where
  "edgeSlice r es = applyOwned r es (edge_slice es)"

section \<open>The files of a core\<close>

definition n2_expose_yaml :: "string \<Rightarrow> string" where
  \<open>n2_expose_yaml vip = ''apiVersion: cilium.io/v2alpha1
kind: CiliumLoadBalancerIPPool
metadata:
  name: ran-ngap-pool
spec:
  serviceSelector:
    matchLabels:
      sdcore.nephio.io/expose: n2
  blocks:
    - start: "'' @ vip @ ''"
      stop: "'' @ vip @ ''"
---
apiVersion: v1
kind: Service
metadata:
  name: amf-ngap
  namespace: default
  labels:
    app: amf-ngap
    sdcore.nephio.io/expose: n2
spec:
  type: LoadBalancer
  selector:
    app: amf
  ports:
    - name: ngap
      protocol: SCTP
      port: 38412
      targetPort: 38412
''\<close>

definition deliverN2Expose :: "'w EdgeSiteReconciler \<Rightarrow> EdgeSite \<Rightarrow> string \<Rightarrow> ('w, error option) io" where
  "deliverN2Expose r es deployRepo = do {
     vip \<leftarrow> (if es_N2VIP (es_Spec es) = '''' then do { b \<leftarrow> ranBase r es; ret (b @ ''.240'') }
             else ret (es_N2VIP (es_Spec es)));
     gitPut (esr_Env r) (esr_Client r) deployRepo ''n2-expose/amf-ngap.yaml'' (n2_expose_yaml vip) }"

definition core_slice_yaml :: "EdgeSite \<Rightarrow> string" where
  \<open>core_slice_yaml es = ''apiVersion: sdcore.nephio.io/v1alpha1
kind: NetworkSlice
metadata:
  name: '' @ om_Name (es_Meta es) @ ''
  namespace: default
spec:
  sst: "1"
  sd: "'' @ es_SliceSD (es_Spec es) @ ''"
  dnn: internet
  uePool: "'' @ es_UEPool (es_Spec es) @ ''"
  upfName: upf
  plmn: {mcc: "001", mnc: "01"}
  gnbs:
  - {name: gnb-'' @ om_Name (es_Meta es) @ '', tac: '' @ itoa 1 @ ''}
''\<close>

definition subscriber_yaml :: "string \<Rightarrow> string \<Rightarrow> string" where
  \<open>subscriber_yaml name imsi = ''apiVersion: sdcore.nephio.io/v1alpha1
kind: Subscriber
metadata:
  name: sub-'' @ imsi @ ''
  namespace: default
spec:
  imsi: "'' @ imsi @ ''"
  key: "5122250214c33e723a5dd523fc145fc0"
  opc: "981d464c7c52eb6e5036234984ad0bcf"
  sliceRef: '' @ name @ ''
---
''\<close>

definition starter_imsis :: "string list" where
  "starter_imsis = map (\<lambda>i. imsiBase @ itoa_pad4 (7488 + i)) [0..<subscriberCount]"

definition deliverCoreSlice :: "'w EdgeSiteReconciler \<Rightarrow> EdgeSite \<Rightarrow> string \<Rightarrow> ('w, error option) io" where
  "deliverCoreSlice r es deployRepo = do {
     e \<leftarrow> gitPut (esr_Env r) (esr_Client r) deployRepo ''core-slice/networkslice.yaml'' (core_slice_yaml es);
     case e of Some err \<Rightarrow> ret (Some err)
     | None \<Rightarrow> gitPut (esr_Env r) (esr_Client r) deployRepo ''core-slice/subscriber.yaml''
         (concat (map (subscriber_yaml (om_Name (es_Meta es))) starter_imsis)) }"

section \<open>The reconcile\<close>

definition meshNote :: "string \<Rightarrow> string" where
  "meshNote role = (if role = ''upf-only'' then '' + MeshLink'' else '''')"

text \<open>The status a failed step leaves, and the error it returns.\<close>

definition failed_site :: "'w EdgeSiteReconciler \<Rightarrow> string \<Rightarrow> error \<Rightarrow> EdgeSite \<Rightarrow> EdgeSite" where
  "failed_site r name err es = es\<lparr>es_Status := (es_Status es)\<lparr>ess_Phase := ''Failed'',
     ess_Message := ''step '' @ quote name @ '': '' @ Error err,
     ess_Conditions := setCondition (esr_Env r) (ess_Conditions (es_Status es)) ''Ready'' ConditionFalse (name @ ''Failed'')
       (name @ '': '' @ Error err) (om_Generation (es_Meta es))\<rparr>\<rparr>"

definition step_error :: "EdgeSite \<Rightarrow> string \<Rightarrow> error \<Rightarrow> error" where
  "step_error es name err = WrapError (''EdgeSite '' @ quote (om_Name (es_Meta es)) @ '' step '' @ quote name @ '': '') err"

text \<open>
  \<open>step\<close>: \<open>fn\<close> returns its error and the site as it leaves it (only \<open>deriveAddressing\<close> changes
  it). The error of the status write is only logged.
\<close>

definition step :: "'w EdgeSiteReconciler \<Rightarrow> string \<Rightarrow> ('w, error option \<times> EdgeSite) io \<Rightarrow> ('w, error option \<times> EdgeSite) io" where
  "step r name fn = do {
     res \<leftarrow> fn;
     case fst res of None \<Rightarrow> ret res
     | Some err \<Rightarrow> do {
         let es' = failed_site r name err (snd res);
         u \<leftarrow> kStatusUpdate (esr_Client r) (KEdgeSite es');
         ret (Some (step_error es' name err), es') } }"

text \<open>A step that leaves the site alone.\<close>

definition site_step :: "'w EdgeSiteReconciler \<Rightarrow> EdgeSite \<Rightarrow> string \<times> ('w, error option) io \<Rightarrow> ('w, error option) io" where
  "site_step r es p = do { res \<leftarrow> step r (fst p) (do { e \<leftarrow> snd p; ret (e, es) }); ret (fst res) }"

definition deploy_repo :: "'w EdgeSiteReconciler \<Rightarrow> EdgeSite \<Rightarrow> string" where
  "deploy_repo r es = (if es_Colocated (es_Spec es) then MgmtRepo r else ''cluster-'' @ om_Name (es_Meta es))"

text \<open>The steps of \<open>Reconcile\<close> after the addressing, in the order of the code.\<close>

definition site_steps :: "'w EdgeSiteReconciler \<Rightarrow> EdgeSite \<Rightarrow> (string \<times> ('w, error option) io) list" where
  "site_steps r es =
     (let name = om_Name (es_Meta es); clust = ''cluster-'' @ name; deployRepo = deploy_repo r es in
      (if \<not> es_Colocated (es_Spec es)
       then [(''ClusterPackageVariant'', pkgVariant r es clust ''cluster-ck8s-byoh'' (MgmtRepo r) clust True)] else [])
      @ map (\<lambda>(n, kind). (''IPClaim/'' @ n, ipClaim r es (name @ ''-'' @ n) kind))
          [(''pod'', ''network''), (''access'', ''network''), (''core'', ''network''), (''uepool'', ''pool'')]
      @ (if es_Role (es_Spec es) = ''cp+upf''
         then [(''ControlPlanePackageVariant'', pkgVariant r es (''cp-'' @ name) ''sdcore-cp'' deployRepo (''cp-'' @ name) True),
               (''N2Expose'', deliverN2Expose r es deployRepo),
               (''CoreSliceAndSubscriber'', deliverCoreSlice r es deployRepo)]
              @ (if es_RAN (es_Spec es) \<noteq> None then [(''RANgNB'', deliverRAN r es deployRepo)] else [])
         else [])
      @ [(''MultusPackageVariant'', pkgVariant r es (''multus-'' @ deployRepo) ''multus'' deployRepo (''multus-'' @ deployRepo) False),
         (''UPFPackageVariant'', pkgVariant r es (''upf-'' @ name) ''edge-site'' deployRepo (''upf-'' @ name) True),
         (''DatapathActuatorPackageVariant'',
            pkgVariant r es (''datapath-'' @ deployRepo) ''datapath-actuator'' deployRepo (''datapath-'' @ deployRepo) False)]
      @ (if es_Role (es_Spec es) = ''upf-only''
         then [(''MeshLink'', meshLink r es (if es_ControlPlane (es_Spec es) = '''' then ''mgmt'' else es_ControlPlane (es_Spec es))),
               (''EdgeNetworkSlice'', edgeSlice r es)]
         else []))"

definition emitted_site :: "'w EdgeSiteReconciler \<Rightarrow> EdgeSite \<Rightarrow> EdgeSite" where
  "emitted_site r es = es\<lparr>es_Status := (es_Status es)\<lparr>ess_Phase := ''Deploying'', ess_Cluster := ''cluster-'' @ om_Name (es_Meta es),
     ess_Message := ''cluster + NF PackageVariants + IPClaims emitted; Porch/Config-Sync actuating'',
     ess_ObservedGeneration := om_Generation (es_Meta es),
     ess_Conditions := setCondition (esr_Env r) (ess_Conditions (es_Status es)) ''Ready'' ConditionTrue ''Emitted''
       (''all KRM emitted (cluster/CP/UPF PackageVariants + IPClaims'' @ meshNote (es_Role (es_Spec es)) @ '')'')
       (om_Generation (es_Meta es))\<rparr>\<rparr>"

definition site_key :: "string \<Rightarrow> string \<Rightarrow> ObjectKey" where
  "site_key ns name = mk_key (sdcoreGVK ''EdgeSite'') ns name"

definition EdgeSite_Reconcile :: "'w EdgeSiteReconciler \<Rightarrow> string \<Rightarrow> string \<Rightarrow> ('w, Result \<times> error option) io" where
  "EdgeSite_Reconcile r ns name = do {
     g \<leftarrow> get_as (esr_Client r) as_EdgeSite (site_key ns name);
     case g of Inl err \<Rightarrow> ret (NoRequeue, IgnoreNotFound err)
     | Inr es0 \<Rightarrow> do {
         d \<leftarrow> step r ''DeriveAddressing'' (deriveAddressing r es0);
         case fst d of Some err \<Rightarrow> ret (NoRequeue, Some err)
         | None \<Rightarrow> do {
             let es = snd d;
             e \<leftarrow> for_until_err (site_step r es) (site_steps r es);
             case e of Some err \<Rightarrow> ret (NoRequeue, Some err)
             | None \<Rightarrow> do {
                 u \<leftarrow> kStatusUpdate (esr_Client r) (KEdgeSite (emitted_site r es));
                 ret (NoRequeue, (case u of
                   Inl err \<Rightarrow> Some (WrapError (''EdgeSite '' @ om_Name (es_Meta es) @ '': status update: '') err)
                 | Inr y \<Rightarrow> None)) } } } }"

section \<open>Create-or-update of a child\<close>

lemma owned_by_simps [simp]:
  "key_of (owned_by es x) = key_of x" "gvk_of (owned_by es x) = gvk_of x" "spec_of (owned_by es x) = spec_of x"
  "om_Finalizers (meta_of (owned_by es x)) = om_Finalizers (meta_of x)"
  "om_OwnerReferences (meta_of (owned_by es x)) = [site_owner es]"
  by (simp_all add: owned_by_def key_of_def)

lemma spec_unchanged_owned [simp]: "spec_unchanged (owned_by es x) cur = spec_unchanged x cur"
  by (cases x) (auto simp: spec_unchanged_def owned_by_def split: kobject.splits)

text \<open>
  What a child is after \<open>applyOwned\<close>: the wanted object with the site as its owner, or the
  unstructured object that was there, whose spec was the wanted one already.
\<close>

definition settled :: "EdgeSite \<Rightarrow> kobject \<Rightarrow> kobject \<Rightarrow> bool" where
  "settled es x y \<longleftrightarrow> key_of y = key_of x \<and> (same_intent (owned_by es x) y \<or> spec_unchanged x y)"

definition alive :: "kobject \<Rightarrow> bool" where
  "alive y \<longleftrightarrow> om_DeletionTimestamp (meta_of y) = None"

lemma owned_intent_key [simp]: "same_intent (owned_by es x) y \<Longrightarrow> key_of y = key_of x"
  using same_intent_key [of "owned_by es x" y] by simp

text \<open>An unstructured child that is settled has the wanted spec, so applying it again writes nothing.\<close>

lemma settled_unchanged:
  assumes wf: "json_wf (u_Spec u)" and y: "settled es (KUnstructured u) y"
  shows "spec_unchanged (KUnstructured u) y"
proof (cases "spec_unchanged (KUnstructured u) y")
  case False
  with y have "same_intent (owned_by es (KUnstructured u)) y" by (simp add: settled_def)
  from same_intentD(1) [OF this] obtain v where "y = KUnstructured v" "u_Spec v = u_Spec u" by (cases y) auto
  with DeepEqual_refl [OF wf] show ?thesis by (simp add: spec_unchanged_def)
qed

lemma applyOwned_put_changed: "applyOwned r es x = put_changed (esr_Client r) (owned_by es x)"
  unfolding applyOwned_def put_changed_def Let_def by (rule refl)

context edgesite_world
begin

lemma applyOwned_found:
  assumes run: "run_state (applyOwned r es x) w = (res, w')" and cur: "view w (key_of x) = Some cur"
  shows "(res = None \<and> spec_unchanged x cur \<and> view w' = view w)
    \<or> (res \<noteq> None \<and> view w' = view w)
    \<or> (\<exists>y. res = None \<and> \<not> spec_unchanged x cur \<and> same_intent (owned_by es x) y
          \<and> om_Finalizers (meta_of y) = om_Finalizers (meta_of x)
          \<and> om_DeletionTimestamp (meta_of y) = om_DeletionTimestamp (meta_of cur)
          \<and> view w' = (view w)(key_of x := (if live y then Some y else None)))"
  using put_changed_found [of "owned_by es x" w res w' cur] run cur by (simp add: applyOwned_put_changed)

lemma applyOwned_missing:
  assumes run: "run_state (applyOwned r es x) w = (res, w')" and none: "view w (key_of x) = None"
  shows "(res \<noteq> None \<and> view w' = view w)
    \<or> (\<exists>y. res = None \<and> same_intent (owned_by es x) y \<and> alive y \<and> om_Finalizers (meta_of y) = om_Finalizers (meta_of x)
          \<and> view w' = (view w)(key_of x \<mapsto> y))"
  using put_changed_missing [of "owned_by es x" w res w'] run none by (simp add: applyOwned_put_changed alive_def)

text \<open>The two together.\<close>

lemma applyOwned_effect:
  assumes run: "run_state (applyOwned r es x) w = (res, w')"
  shows "(res = None \<longrightarrow> \<not> terminating view w (key_of x) \<longrightarrow> (\<exists>y. view w' (key_of x) = Some y \<and> settled es x y \<and> alive y))
    \<and> (\<forall>k. k \<noteq> key_of x \<longrightarrow> view w' k = view w k) \<and> (res \<noteq> None \<longrightarrow> view w' = view w)"
proof (cases "view w (key_of x)")
  case None
  from applyOwned_missing [OF run None] show ?thesis
    by (auto simp: settled_def)
next
  case (Some cur)
  then have "key_of cur = key_of x" using view_key by blast
  with applyOwned_found [OF run Some] Some show ?thesis
    by (auto simp: settled_def alive_def terminating_def live_def)
qed

end

sublocale edgesite_world \<subseteq> owned: upsert_contract view "applyOwned r es" key_of "\<lambda>x y. settled es x y \<and> alive y"
  for es
  by unfold_locales (use applyOwned_effect in blast)+

section \<open>What a site consists of\<close>

text \<open>
  The specification of the steps: the children and the files of a site, in order. A step of the
  code is the delivery of one item of this plan.
\<close>

datatype site_item = Child kobject | Files "(string \<times> string) list"

definition site_plan :: "'w EdgeSiteReconciler \<Rightarrow> EdgeSite \<Rightarrow> site_item list" where
  "site_plan r es =
     (let name = om_Name (es_Meta es); clust = ''cluster-'' @ name; R = deploy_repo r es; pv = pkg_variant (BlueprintRepo r) es in
      (if \<not> es_Colocated (es_Spec es) then [Child (pv clust ''cluster-ck8s-byoh'' (MgmtRepo r) clust True)] else [])
      @ [Child (ip_claim es (name @ ''-pod'') ''network''), Child (ip_claim es (name @ ''-access'') ''network''),
         Child (ip_claim es (name @ ''-core'') ''network''), Child (ip_claim es (name @ ''-uepool'') ''pool'')]
      @ (if es_Role (es_Spec es) = ''cp+upf''
         then [Child (pv (''cp-'' @ name) ''sdcore-cp'' R (''cp-'' @ name) True),
               Files [(''n2-expose/amf-ngap.yaml'', n2_expose_yaml (es_N2VIP (es_Spec es)))],
               Files [(''core-slice/networkslice.yaml'', core_slice_yaml es),
                      (''core-slice/subscriber.yaml'', concat (map (subscriber_yaml name) starter_imsis))]]
              @ (case es_RAN (es_Spec es) of None \<Rightarrow> [] | Some rs \<Rightarrow> [Files (ran_files es rs)])
         else [])
      @ [Child (pv (''multus-'' @ R) ''multus'' R (''multus-'' @ R) False),
         Child (pv (''upf-'' @ name) ''edge-site'' R (''upf-'' @ name) True),
         Child (pv (''datapath-'' @ R) ''datapath-actuator'' R (''datapath-'' @ R) False)]
      @ (if es_Role (es_Spec es) = ''upf-only''
         then [Child (mesh_link es (if es_ControlPlane (es_Spec es) = '''' then ''mgmt'' else es_ControlPlane (es_Spec es))),
               Child (edge_slice es)]
         else []))"

fun run_item :: "'w EdgeSiteReconciler \<Rightarrow> EdgeSite \<Rightarrow> site_item \<Rightarrow> ('w, error option) io" where
  "run_item r es (Child x) = applyOwned r es x"
| "run_item r es (Files fs) =
     for_until_err (\<lambda>(path, yaml). gitPut (esr_Env r) (esr_Client r) (deploy_repo r es) path yaml) fs"

lemma bind_pass_error: "State_Monad.bind m (case_option (ret None) (\<lambda>err. ret (Some err))) = m"
  by (rule state.expand, rule ext) (simp split: prod.splits option.splits)

lemma for_until_err_single: "for_until_err f [x] = f x"
  by (simp add: bind_pass_error)

lemma site_steps_plan:
  assumes "es_N2VIP (es_Spec es) \<noteq> ''''"
  shows "map snd (site_steps r es) = map (run_item r es) (site_plan r es)"
proof -
  have n2: "deliverN2Expose r es R = gitPut (esr_Env r) (esr_Client r) R ''n2-expose/amf-ngap.yaml'' (n2_expose_yaml (es_N2VIP (es_Spec es)))" for R
    using assms by (simp add: deliverN2Expose_def)
  have core: "deliverCoreSlice r es R = for_until_err (\<lambda>(path, yaml). gitPut (esr_Env r) (esr_Client r) R path yaml)
      [(''core-slice/networkslice.yaml'', core_slice_yaml es),
       (''core-slice/subscriber.yaml'', concat (map (subscriber_yaml (om_Name (es_Meta es))) starter_imsis))]" for R
    by (simp add: deliverCoreSlice_def bind_pass_error)
  show ?thesis
    by (cases "es_RAN (es_Spec es)")
      (simp_all add: site_steps_def site_plan_def Let_def pkgVariant_def ipClaim_def meshLink_def edgeSlice_def
        n2 core deliverRAN_def for_until_err_single del: for_until_err.simps)
qed

text \<open>When an item of the plan is in place.\<close>

fun in_place :: "('w \<Rightarrow> ObjectKey \<Rightarrow> kobject option) \<Rightarrow> ('w \<Rightarrow> string \<Rightarrow> string option) \<Rightarrow> string \<Rightarrow> string \<Rightarrow> EdgeSite
    \<Rightarrow> site_item \<Rightarrow> 'w \<Rightarrow> bool" where
  "in_place view repo user rp es (Child x) w = (\<exists>y. view w (key_of x) = Some y \<and> settled es x y \<and> alive y)"
| "in_place view repo user rp es (Files fs) w =
     (\<forall>p y. (p, y) \<in> set fs \<longrightarrow> repo w (contents_url user rp p) = Some (EncodeToString y))"

text \<open>The items of a plan do not overwrite each other.\<close>

definition plan_ok :: "site_item list \<Rightarrow> bool" where
  "plan_ok ps \<longleftrightarrow>
     (\<forall>x y. Child x \<in> set ps \<longrightarrow> Child y \<in> set ps \<longrightarrow> key_of x = key_of y \<longrightarrow> x = y)
   \<and> (\<forall>fs. Files fs \<in> set ps \<longrightarrow> distinct (map fst fs))
   \<and> (\<forall>fs gs. Files fs \<in> set ps \<longrightarrow> Files gs \<in> set ps \<longrightarrow> fs = gs \<or> fst ` set fs \<inter> fst ` set gs = {})
   \<and> (\<forall>x. Child x \<in> set ps \<longrightarrow> key_of x \<noteq> gitea_auth_key)"

lemma ran_files_dir: "(p, y) \<in> set (ran_files es rs) \<Longrightarrow> hd p = CHR ''r''"
  by (auto simp: ran_files_def Let_def split: if_splits)

lemma ran_files_no [simp]: "(CHR ''n'' # p, y) \<notin> set (ran_files es rs)" "(CHR ''c'' # p, y) \<notin> set (ran_files es rs)"
  using ran_files_dir [of "CHR ''n'' # p" y es rs] ran_files_dir [of "CHR ''c'' # p" y es rs] by auto

lemmas child_defs = pkg_variant_def ip_claim_def mesh_link_def edge_slice_def

definition children :: "site_item list \<Rightarrow> kobject list" where
  "children ps = List.map_filter (\<lambda>p. case p of Child x \<Rightarrow> Some x | Files fs \<Rightarrow> None) ps"

lemma children_simps [simp]:
  "children [] = []" "children (Child x # ps) = x # children ps" "children (Files fs # ps) = children ps"
  "children (ps @ qs) = children ps @ children qs"
  by (simp_all add: children_def map_filter_simps) (simp add: List.map_filter_def)

lemma set_children: "x \<in> set (children ps) \<longleftrightarrow> Child x \<in> set ps"
  by (induction ps) (auto simp: children_def map_filter_simps split: site_item.splits)

lemma child_keys [simp]:
  "key_of (pkg_variant b es n up rp dn i) = mk_key pvGVK (om_Namespace (es_Meta es)) n"
  "key_of (ip_claim es n k) = mk_key ipClaimGVK (om_Namespace (es_Meta es)) n"
  "key_of (mesh_link es cp) = mk_key (sdcoreGVK ''MeshLink'') (om_Namespace (es_Meta es)) (om_Name (es_Meta es))"
  "key_of (edge_slice es) = mk_key (sdcoreGVK ''NetworkSlice'') (om_Namespace (es_Meta es)) (om_Name (es_Meta es))"
  by (simp_all add: child_defs key_of_mk_key)

lemma child_gvks [simp]: "pvGVK \<noteq> ipClaimGVK" "ipClaimGVK \<noteq> pvGVK" "pvGVK \<noteq> sdcoreGVK k" "sdcoreGVK k \<noteq> pvGVK"
  "ipClaimGVK \<noteq> sdcoreGVK k" "sdcoreGVK k \<noteq> ipClaimGVK" "sdcoreGVK k = sdcoreGVK l \<longleftrightarrow> k = l"
  "coreGVK k \<noteq> pvGVK" "coreGVK k \<noteq> ipClaimGVK" "coreGVK k \<noteq> sdcoreGVK l" "pvGVK \<noteq> coreGVK k" "ipClaimGVK \<noteq> coreGVK k" "sdcoreGVK l \<noteq> coreGVK k"
  by (auto simp: pvGVK_def ipClaimGVK_def sdcoreGVK_def coreGVK_def)

lemma distinct_children: "distinct (map key_of (children (site_plan r es)))"
  by (cases "es_RAN (es_Spec es)") (simp_all add: site_plan_def Let_def)

lemma site_plan_ok: "plan_ok (site_plan r es)"
proof -
  let ?P = "set (site_plan r es)"
  have 1: "x = y" if "Child x \<in> ?P" "Child y \<in> ?P" "key_of x = key_of y" for x y
  proof -
    have "inj_on key_of (set (children (site_plan r es)))" using distinct_children [of r es] by (simp add: distinct_map)
    from inj_onD [OF this that(3)] that(1,2) show ?thesis by (simp add: set_children)
  qed
  have files: "fs = [(''n2-expose/amf-ngap.yaml'', n2_expose_yaml (es_N2VIP (es_Spec es)))]
      \<or> fs = [(''core-slice/networkslice.yaml'', core_slice_yaml es),
               (''core-slice/subscriber.yaml'', concat (map (subscriber_yaml (om_Name (es_Meta es))) starter_imsis))]
      \<or> (\<exists>rs. es_RAN (es_Spec es) = Some rs \<and> fs = ran_files es rs)" if "Files fs \<in> ?P" for fs
    using that by (cases "es_RAN (es_Spec es)") (auto simp: site_plan_def Let_def split: if_splits)
  have 2: "distinct (map fst fs)" if "Files fs \<in> ?P" for fs
    using files [OF that] ran_files_paths by auto
  have 3: "fs = gs \<or> fst ` set fs \<inter> fst ` set gs = {}" if "Files fs \<in> ?P" "Files gs \<in> ?P" for fs gs
    using files [OF that(1)] files [OF that(2)] by (elim disjE exE conjE) auto
  have "gitea_auth_key \<notin> set (map key_of (children (site_plan r es)))"
    by (cases "es_RAN (es_Spec es)") (simp_all add: site_plan_def Let_def gitea_auth_key_def)
  then have 4: "key_of x \<noteq> gitea_auth_key" if "Child x \<in> ?P" for x
    using that set_children [of x] by (metis image_eqI list.set_map)
  show ?thesis unfolding plan_ok_def using 1 2 3 4 by blast
qed

text \<open>A step that reports no error ran its action and nothing else.\<close>

lemma site_step_ok:
  "run_state (site_step r es p) w = (None, w') \<longleftrightarrow> run_state (snd p) w = (None, w')"
  by (auto simp: site_step_def step_def Let_def split: prod.splits option.splits)

lemma site_steps_ok:
  "run_state (for_until_err (site_step r es) ps) w = (None, w') \<longleftrightarrow> run_state (for_until_err (\<lambda>a. a) (map snd ps)) w = (None, w')"
  by (induction ps arbitrary: w) (simp_all add: for_until_err_None_Cons site_step_ok del: for_until_err.simps(2))

lemma for_until_err_map: "for_until_err f (map g xs) = for_until_err (\<lambda>x. f (g x)) xs"
  by (induction xs) simp_all

text \<open>The Gitea user of the credentials, and what holds between the steps.\<close>

definition user_at :: "('w \<Rightarrow> ObjectKey \<Rightarrow> kobject option) \<Rightarrow> 'w \<Rightarrow> string" where
  "user_at view w = (case view w gitea_auth_key of Some (KSecret sec) \<Rightarrow> secret_data sec ''username'' | _ \<Rightarrow> '''')"

definition plan_inv :: "('w \<Rightarrow> ObjectKey \<Rightarrow> kobject option) \<Rightarrow> 'w \<Rightarrow> site_item list \<Rightarrow> 'w \<Rightarrow> bool" where
  "plan_inv view w0 ps w \<longleftrightarrow> view w gitea_auth_key = view w0 gitea_auth_key
     \<and> (\<forall>x. Child x \<in> set ps \<longrightarrow> \<not> terminating view w (key_of x))"

locale edgesite_delivery = delivery_world "esr_Client r" view "esr_Env r" repo
  for r :: "'w EdgeSiteReconciler" and view and repo

sublocale edgesite_delivery \<subseteq> edgesite_world r view
  by unfold_locales

context edgesite_delivery
begin

lemma applyOwned_repo: "frame repo (applyOwned r es x)"
  unfolding applyOwned_def Let_def
  by (intro frame_intros kget_repo kcreate_repo kupdate_repo)

lemma run_item_in_place:
  assumes run: "run_state (run_item r es p) w = (None, w')"
    and calm: "\<And>x. p = Child x \<Longrightarrow> \<not> terminating view w (key_of x)"
    and fs: "\<And>fs. p = Files fs \<Longrightarrow> distinct (map fst fs)"
    and user: "\<And>sec. view w gitea_auth_key = Some (KSecret sec) \<Longrightarrow> user = secret_data sec ''username''"
  shows "in_place view repo user (deploy_repo r es) es p w'"
proof (cases p)
  case (Child x)
  with run applyOwned_effect [of es x w None w'] calm show ?thesis by simp
next
  case (Files fs)
  show ?thesis
  proof (cases fs)
    case Nil
    with Files show ?thesis by simp
  next
    case (Cons f fs')
    note loop = run [unfolded Files run_item.simps]
    obtain sec where sec: "view w gitea_auth_key = Some (KSecret sec)"
      using gitPut_all_secret [OF loop [unfolded Cons]] .
    have "repo w' (contents_url user (deploy_repo r es) p) = Some (EncodeToString y)" if "(p, y) \<in> set fs" for p y
    proof -
      have "map_of fs p = Some y" using that assms(3) [OF Files] by simp
      then show ?thesis
        unfolding gitPut_all_effect [OF loop assms(3) [OF Files] sec] user [OF sec]
        by (simp add: map_add_def map_of_map_inj)
    qed
    with Files show ?thesis by simp
  qed
qed

lemma user_at_secret:
  assumes "plan_inv view w0 ps w" and "view w gitea_auth_key = Some (KSecret sec)"
  shows "user_at view w0 = secret_data sec ''username''"
proof -
  have "view w0 gitea_auth_key = Some (KSecret sec)" using assms by (simp add: plan_inv_def)
  then show ?thesis by (simp add: user_at_def)
qed

lemma run_item_step:
  assumes ok: "plan_ok ps" and p: "p \<in> set ps" and inv: "plan_inv view w0 ps w"
    and run: "run_state (run_item r es p) w = (None, w')"
  shows "plan_inv view w0 ps w' \<and> in_place view repo (user_at view w0) (deploy_repo r es) es p w'"
proof -
  have q: "in_place view repo (user_at view w0) (deploy_repo r es) es p w'"
    by (rule run_item_in_place [OF run])
      (use ok p inv user_at_secret [OF inv] in \<open>auto simp: plan_inv_def plan_ok_def\<close>)
  have "plan_inv view w0 ps w'"
  proof (cases p)
    case (Files fs)
    with run frameD [OF gitPut_all_view] have "view w' = view w" by simp
    with inv show ?thesis by (simp add: plan_inv_def terminating_def)
  next
    case (Child x)
    with run have e: "\<And>k. k \<noteq> key_of x \<Longrightarrow> view w' k = view w k" using applyOwned_effect by simp
    have "key_of x \<noteq> gitea_auth_key" using ok p Child by (simp add: plan_ok_def)
    moreover have "\<not> terminating view w' (key_of y)" if "Child y \<in> set ps" for y
    proof (cases "key_of y = key_of x")
      case True
      with q Child show ?thesis by (auto simp: terminating_def alive_def)
    next
      case False
      with e inv that show ?thesis by (simp add: plan_inv_def terminating_def)
    qed
    ultimately show ?thesis using inv e by (simp add: plan_inv_def)
  qed
  with q show ?thesis by simp
qed

lemma run_item_keep:
  assumes ok: "plan_ok ps" and x: "x \<in> set ps" and y: "y \<in> set ps" and inv: "plan_inv view w0 ps w"
    and q: "in_place view repo (user_at view w0) (deploy_repo r es) es x w"
    and run: "run_state (run_item r es y) w = (None, w')"
  shows "in_place view repo (user_at view w0) (deploy_repo r es) es x w'"
proof (cases "x = y")
  case True
  with run_item_step [OF ok y inv run] show ?thesis by simp
next
  case False
  show ?thesis
  proof (cases x)
    case (Child a)
    have "view w' (key_of a) = view w (key_of a)"
    proof (cases y)
      case (Files fs)
      with run frameD [OF gitPut_all_view] show ?thesis by simp
    next
      case (Child b)
      with False \<open>x = Child a\<close> ok x y have "key_of a \<noteq> key_of b" by (auto simp: plan_ok_def)
      with run Child show ?thesis using applyOwned_effect by simp
    qed
    with q Child show ?thesis by simp
  next
    case (Files fs)
    have "repo w' (contents_url (user_at view w0) (deploy_repo r es) p) = repo w (contents_url (user_at view w0) (deploy_repo r es) p)"
      if "(p, v) \<in> set fs" for p v
    proof (cases y)
      case (Child b)
      with run frameD [OF applyOwned_repo] show ?thesis by simp
    next
      case (Files gs)
      with False \<open>x = Files fs\<close> ok x y have dj: "fst ` set fs \<inter> fst ` set gs = {}" and d: "distinct (map fst gs)"
        unfolding plan_ok_def by blast+
      note loop = run [unfolded Files run_item.simps]
      show ?thesis
      proof (cases gs)
        case Nil
        with loop show ?thesis by simp
      next
        case (Cons g gs')
        obtain sec where sec: "view w gitea_auth_key = Some (KSecret sec)"
          using gitPut_all_secret [OF loop [unfolded Cons]] .
        have "p \<notin> fst ` set gs" using dj that by force
        then show ?thesis
          unfolding gitPut_all_effect [OF loop d sec] user_at_secret [OF inv sec]
          by (simp add: map_add_def map_of_urls_None)
      qed
    qed
    with q Files show ?thesis by simp
  qed
qed

text \<open>A run of the steps that succeeded has put every item of the plan in place.\<close>

lemma site_steps_in_place:
  assumes run: "run_state (for_until_err (site_step r es) (site_steps r es)) w = (None, w')"
    and vip: "es_N2VIP (es_Spec es) \<noteq> ''''"
    and calm: "\<And>x. Child x \<in> set (site_plan r es) \<Longrightarrow> \<not> terminating view w (key_of x)"
  shows "\<forall>p \<in> set (site_plan r es). in_place view repo (user_at view w) (deploy_repo r es) es p w'"
proof -
  have "run_state (for_until_err (run_item r es) (site_plan r es)) w = (None, w')"
    using run unfolding site_steps_ok site_steps_plan [OF vip] for_until_err_map .
  moreover have "plan_inv view w (site_plan r es) w" using calm by (simp add: plan_inv_def)
  ultimately show ?thesis
    using for_until_err_all [of "run_item r es" "site_plan r es" w w' "plan_inv view w (site_plan r es)"
        "in_place view repo (user_at view w) (deploy_repo r es) es"]
      run_item_step [OF site_plan_ok] run_item_keep [OF site_plan_ok] by blast
qed

end

section \<open>The whole reconcile\<close>

lemma site_key_of: "key_of (KEdgeSite s) = site_key (om_Namespace (es_Meta s)) (om_Name (es_Meta s))"
  by (simp add: site_key_def key_of_mk_key)

lemma site_key_fresh: "Child x \<in> set (site_plan r es) \<Longrightarrow> key_of x \<noteq> site_key ns name"
proof -
  assume "Child x \<in> set (site_plan r es)"
  then have "key_of x \<in> set (map key_of (children (site_plan r es)))" by (simp add: set_children)
  moreover have "site_key ns name \<notin> set (map key_of (children (site_plan r es)))"
    by (cases "es_RAN (es_Spec es)") (simp_all add: site_plan_def Let_def site_key_def)
  ultimately show ?thesis by metis
qed

lemma gitea_key_site: "gitea_auth_key \<noteq> site_key ns name"
  by (simp add: gitea_auth_key_def site_key_def)

lemma step_ok: "run_state (step r n fn) w = ((None, es), w') \<longleftrightarrow> run_state fn w = ((None, es), w')"
  by (auto simp: step_def Let_def split: prod.splits option.splits)

lemma put_status_EdgeSite: "put_status (KEdgeSite t) (KEdgeSite s) = KEdgeSite t \<Longrightarrow> es_Status t = es_Status s"
  by (simp add: put_status_def) (metis EdgeSite.select_convs(3) EdgeSite.surjective EdgeSite.update_convs(3))

text \<open>The parts of a reconcile that returned no error.\<close>

lemma EdgeSite_Reconcile_parts:
  assumes run: "run_state (EdgeSite_Reconcile r ns name) w = ((res, None), w')"
    and site: "run_state (get_as (esr_Client r) as_EdgeSite (site_key ns name)) w = (Inr es0, w0)"
  obtains es w1 w2 y where "run_state (deriveAddressing r es0) w0 = ((None, es), w1)"
    "run_state (for_until_err (site_step r es) (site_steps r es)) w1 = (None, w2)"
    "run_state (kStatusUpdate (esr_Client r) (KEdgeSite (emitted_site r es))) w2 = (Inr y, w')"
proof -
  obtain e es w1 where d: "run_state (step r ''DeriveAddressing'' (deriveAddressing r es0)) w0 = ((e, es), w1)" by (metis surj_pair)
  from run site d have e: "e = None" by (cases e) (simp_all add: EdgeSite_Reconcile_def)
  obtain e2 w2 where l: "run_state (for_until_err (site_step r es) (site_steps r es)) w1 = (e2, w2)" by force
  from run site d e l have e2: "e2 = None" by (cases e2) (simp_all add: EdgeSite_Reconcile_def Let_def)
  obtain u w3 where u: "run_state (kStatusUpdate (esr_Client r) (KEdgeSite (emitted_site r es))) w2 = (u, w3)" by force
  from run site d e l e2 u obtain y where "u = Inr y" "w3 = w'"
    by (cases u) (simp_all add: EdgeSite_Reconcile_def Let_def)
  with that d e l e2 u show thesis unfolding e step_ok by blast
qed

context edgesite_delivery
begin

lemma run_item_frame:
  "run_state (run_item r es p) w = (None, w') \<Longrightarrow> (\<And>x. p = Child x \<Longrightarrow> key_of x \<noteq> k) \<Longrightarrow> view w' k = view w k"
  by (cases p) (use applyOwned_effect frameD [OF gitPut_all_view] in auto)

lemma site_steps_keep:
  assumes run: "run_state (for_until_err (site_step r es) (site_steps r es)) w = (None, w')"
    and vip: "es_N2VIP (es_Spec es) \<noteq> ''''"
  shows "view w' (site_key ns name) = view w (site_key ns name)"
proof -
  have "run_state (for_until_err (run_item r es) (site_plan r es)) w = (None, w')"
    using run unfolding site_steps_ok site_steps_plan [OF vip] for_until_err_map .
  from for_until_err_all [OF this, of "\<lambda>v. view v (site_key ns name) = view w (site_key ns name)" "\<lambda>_ _. True"]
  show ?thesis using run_item_frame site_key_fresh by metis
qed

text \<open>Up to the status write: the site as it was derived is stored, and every item of its plan is in place.\<close>

lemma Reconcile_emitted:
  assumes run: "run_state (EdgeSite_Reconcile r ns name) w = ((res, None), w')"
    and site: "view w (site_key ns name) = Some (KEdgeSite es0)"
    and calm: "\<And>k. \<not> terminating view w k"
  shows "\<exists>es w2 y. (\<exists>base vip. es_Spec es = fill_spec (itoa (siteIndex name)) base vip (es_Spec es0))
      \<and> key_of (KEdgeSite es) = site_key ns name \<and> \<not> needs_fill (es_Spec es) \<and> view w2 (site_key ns name) = Some (KEdgeSite es)
      \<and> (\<forall>p \<in> set (site_plan r es). in_place view repo (user_at view w) (deploy_repo r es) es p w2)
      \<and> run_state (kStatusUpdate (esr_Client r) (KEdgeSite (emitted_site r es))) w2 = (Inr y, w')"
proof -
  obtain g w0 where g: "run_state (get_as (esr_Client r) as_EdgeSite (site_key ns name)) w = (g, w0)" by force
  have v0: "view w0 = view w" using frameD [OF get_as_frame g] .
  obtain es1 where gi: "g = Inr es1"
  proof (cases g)
    case (Inl e)
    with run g have "IsNotFound e" by (auto simp: EdgeSite_Reconcile_def IgnoreNotFound_def split: if_splits)
    with get_as_missing [OF g [unfolded Inl]] site show ?thesis by simp
  qed (use that in blast)
  with get_as_ok [OF g [unfolded gi]] site have "es1 = es0" by (auto simp: as_simps)
  note g = g [unfolded gi this]
  have key: "key_of (KEdgeSite es0) = site_key ns name" using view_key [OF site] .
  from key have nm: "om_Name (es_Meta es0) = name" by (simp add: site_key_of site_key_def)
  from EdgeSite_Reconcile_parts [OF run g] obtain es w1 w2 y where
    d: "run_state (deriveAddressing r es0) w0 = ((None, es), w1)" and
    l: "run_state (for_until_err (site_step r es) (site_steps r es)) w1 = (None, w2)" and
    u: "run_state (kStatusUpdate (esr_Client r) (KEdgeSite (emitted_site r es))) w2 = (Inr y, w')" .
  have "is_site view w0 es0" using site key v0 by (simp add: is_site_def)
  from derive_ok [OF this d] obtain base vip where spec: "es_Spec es = fill_spec (itoa (siteIndex name)) base vip (es_Spec es0)"
    and full: "\<not> needs_fill (es_Spec es)" and s1: "is_site view w1 es" and k1: "key_of (KEdgeSite es) = site_key ns name"
    and v1: "\<And>k. k \<noteq> site_key ns name \<Longrightarrow> view w1 k = view w k"
    unfolding nm key v0 by blast
  have vip1: "es_N2VIP (es_Spec es) \<noteq> ''''" using full by (auto simp: needs_fill_def)
  have "\<not> terminating view w1 (key_of x)" if "Child x \<in> set (site_plan r es)" for x
    using calm [of "key_of x"] v1 site_key_fresh [OF that] by (simp add: terminating_def)
  then have place: "\<forall>p \<in> set (site_plan r es). in_place view repo (user_at view w1) (deploy_repo r es) es p w2"
    by (intro site_steps_in_place [OF l vip1])
  have "user_at view w1 = user_at view w" using v1 [OF gitea_key_site] by (simp add: user_at_def)
  moreover have "view w2 (site_key ns name) = Some (KEdgeSite es)"
    using site_steps_keep [OF l vip1, of ns name] s1 k1 by (simp add: is_site_def)
  ultimately show ?thesis using spec k1 full place u by (intro exI [of _ es] exI [of _ w2] exI [of _ y]) auto
qed

text \<open>The status write that follows leaves all of it.\<close>

lemma emitted_status:
  assumes u: "run_state (kStatusUpdate (esr_Client r) (KEdgeSite (emitted_site r es))) w2 = (Inr y, w')"
    and k: "key_of (KEdgeSite es) = site_key ns name" and es: "view w2 (site_key ns name) = Some (KEdgeSite es)"
    and place: "\<forall>p \<in> set (site_plan r es). in_place view repo user rp es p w2"
  shows "(\<forall>p \<in> set (site_plan r es). in_place view repo user rp es p w')
    \<and> (\<exists>s. y = KEdgeSite s \<and> view w' = (view w2)(site_key ns name \<mapsto> KEdgeSite s) \<and> es_Spec s = es_Spec es
        \<and> es_Status s = es_Status (emitted_site r es))"
proof -
  have ek: "key_of (KEdgeSite (emitted_site r es)) = site_key ns name" using k by (simp add: emitted_site_def key_of_def)
  from status_ok [OF u] ek es have z: "same_intent (KEdgeSite es) y"
    and st: "put_status y (KEdgeSite (emitted_site r es)) = y" and vw: "view w' = (view w2)(site_key ns name \<mapsto> y)" by auto
  have "in_place view repo user rp es p w'" if p: "p \<in> set (site_plan r es)" for p
  proof (cases p)
    case (Child x)
    with place p site_key_fresh vw show ?thesis by force
  next
    case (Files fs)
    with place p frameD [OF kstatus_repo u] show ?thesis by force
  qed
  moreover from same_intent_EdgeSite [OF z] obtain s where "y = KEdgeSite s" "es_Spec s = es_Spec es" by blast
  ultimately show ?thesis using put_status_EdgeSite [of s "emitted_site r es"] st vw by auto
qed

lemma Reconcile_in_place:
  assumes run: "run_state (EdgeSite_Reconcile r ns name) w = ((res, None), w')"
    and site: "view w (site_key ns name) = Some (KEdgeSite es0)"
    and calm: "\<And>k. \<not> terminating view w k"
  shows "\<exists>es s. (\<exists>base vip. es_Spec es = fill_spec (itoa (siteIndex name)) base vip (es_Spec es0)) \<and> om_Name (es_Meta es) = name
      \<and> (\<forall>p \<in> set (site_plan r es). in_place view repo (user_at view w) (deploy_repo r es) es p w')
      \<and> view w' (site_key ns name) = Some (KEdgeSite s) \<and> es_Spec s = es_Spec es \<and> es_Status s = es_Status (emitted_site r es)"
proof -
  from Reconcile_emitted [OF run site calm] obtain es w2 y where
    f: "\<exists>base vip. es_Spec es = fill_spec (itoa (siteIndex name)) base vip (es_Spec es0)" and k: "key_of (KEdgeSite es) = site_key ns name"
    and e: "view w2 (site_key ns name) = Some (KEdgeSite es)"
      "\<forall>p \<in> set (site_plan r es). in_place view repo (user_at view w) (deploy_repo r es) es p w2"
    and u: "run_state (kStatusUpdate (esr_Client r) (KEdgeSite (emitted_site r es))) w2 = (Inr y, w')" by blast
  from k have "om_Name (es_Meta es) = name" by (simp add: site_key_of site_key_def)
  moreover obtain s where "view w' (site_key ns name) = Some (KEdgeSite s)" "es_Spec s = es_Spec es" "es_Status s = es_Status (emitted_site r es)"
    and "\<forall>p \<in> set (site_plan r es). in_place view repo (user_at view w) (deploy_repo r es) es p w'"
    using emitted_status [OF u k e] by auto
  ultimately show ?thesis using f by (intro exI [of _ es] exI [of _ s]) simp
qed

end

section \<open>A concrete cluster\<close>

interpretation lab_site: edgesite_delivery lab_reconciler cl_view lab_repo
  using lab.delivery_world_axioms by (simp add: edgesite_delivery_def)

definition lab1 :: lab where
  "lab1 = lab0\<lparr>cl_objects := KEdgeSite (new_EdgeSite ''default'' ''edge1'' ''192.168.1.7'' ''upf-only'') # cl_objects lab0\<rparr>"

definition edge1 :: EdgeSite where
  "edge1 = new_EdgeSite ''default'' ''edge1'' ''192.168.1.7'' ''upf-only''"

lemma cl_view_calm: "list_all alive (cl_objects w) \<Longrightarrow> \<not> terminating cl_view w k"
  by (auto simp: terminating_def alive_def cl_view_def find_Some_iff list_all_length)

lemma lab1_calm: "\<not> terminating cl_view lab1 k"
proof -
  have "list_all alive (cl_objects lab1)" by code_simp
  then show ?thesis by (rule cl_view_calm)
qed

lemma lab1_reads:
  "run_state (get_as mem_client as_EdgeSite (site_key ''default'' ''edge1'')) lab1 = (Inr edge1, lab1)"
  "cl_view lab1 (site_key ''default'' ''edge1'') = Some (KEdgeSite edge1)"
  by code_simp+

text \<open>
  Against the in-memory server and Gitea a reconcile always succeeds, when the site and the
  credentials are there: no step of it can fail for a reason of its own.
\<close>

lemma mem_applyOwned_ok:
  assumes "esr_Client r = mem_client"
  shows "\<exists>w'. run_state (applyOwned r es x) w = (None, w')"
proof (cases "cl_view w (key_of x)")
  case None
  with assms show ?thesis
    by (simp add: applyOwned_def mem_client_def mem_get_def mem_create_def notFound_def Let_def)
next
  case (Some cur)
  with assms show ?thesis
    by (simp add: applyOwned_def mem_client_def mem_get_def mem_update_def Let_def) (simp add: set_version_def)
qed

lemma lab_items_ok:
  assumes "cl_view w gitea_auth_key = Some (KSecret sec)" and "\<And>x. Child x \<in> set ps \<Longrightarrow> key_of x \<noteq> gitea_auth_key"
  shows "\<exists>w'. run_state (for_until_err (run_item lab_reconciler es) ps) w = (None, w')"
  using assms
proof (induction ps arbitrary: w)
  case (Cons p ps)
  have "\<exists>w1. run_state (run_item lab_reconciler es p) w = (None, w1) \<and> cl_view w1 gitea_auth_key = cl_view w gitea_auth_key"
  proof (cases p)
    case (Child x)
    obtain w1 where w1: "run_state (applyOwned lab_reconciler es x) w = (None, w1)"
      using mem_applyOwned_ok [of lab_reconciler es x w] by auto
    with lab_site.applyOwned_effect [OF w1] Child Cons.prems(2) [of x] show ?thesis by auto
  next
    case (Files fs)
    obtain w1 where "run_state (run_item lab_reconciler es p) w = (None, w1)"
      using lab_deliver_ok [OF Cons.prems(1)] Files by fastforce
    with lab_site.run_item_frame [OF this] Files show ?thesis by auto
  qed
  then obtain w1 where w1: "run_state (run_item lab_reconciler es p) w = (None, w1)"
    "cl_view w1 gitea_auth_key = Some (KSecret sec)" using Cons.prems(1) by auto
  from Cons.IH [OF w1(2)] Cons.prems(2) w1(1) show ?case by (auto simp: for_until_err_None_Cons)
qed simp

lemma mem_derive_ok:
  assumes c: "esr_Client r = mem_client" and w: "edgesite_world r cl_view" and s: "is_site cl_view w es"
  shows "\<exists>es' w'. run_state (deriveAddressing r es) w = ((None, es'), w')"
proof -
  obtain e es' w' where run: "run_state (deriveAddressing r es) w = ((e, es'), w')" by (metis surj_pair)
  obtain base w1 where b: "run_state (ranBase r es) w = (base, w1)" by force
  define V where "V = (if es_Colocated (es_Spec es) then ret (base @ ''.240'') else allocateRanVIP r es base)"
  obtain vip w2 where v: "run_state V w1 = (vip, w2)" by force
  have "frame cl_view V" unfolding V_def by (intro frame_intros edgesite_world.allocateRanVIP_frame [OF w])
  from frameD [OF this v] frameD [OF edgesite_world.ranBase_frame [OF w] b] have "cl_view w2 = cl_view w" by simp
  then have "cl_view w2 (key_of (KEdgeSite (es\<lparr>es_Spec := f\<rparr>))) = Some (KEdgeSite es)" for f
    using s by (simp add: is_site_def key_of_def)
  then have upd: "\<exists>y w3. run_state (kUpdate mem_client (KEdgeSite (es\<lparr>es_Spec := f\<rparr>))) w2 = (Inr (KEdgeSite y), w3)" for f
    by (simp add: mem_client_def mem_update_def Let_def put_status_def set_deleted_def stamp_def)
  have "e = None"
  proof (cases "needs_fill (es_Spec es)")
    case False
    with run b v show ?thesis by (simp add: deriveAddressing_eq derive_spec_def Let_def flip: V_def)
  next
    case True
    obtain y w3 where "run_state (kUpdate mem_client (KEdgeSite (es\<lparr>es_Spec := fill_spec (itoa (siteIndex (om_Name (es_Meta es)))) base vip (es_Spec es)\<rparr>))) w2
        = (Inr (KEdgeSite y), w3)" using upd by blast
    with True run b v c show ?thesis by (simp add: deriveAddressing_eq derive_spec_def Let_def decode_as_def flip: V_def)
  qed
  with run show ?thesis by blast
qed

lemma mem_status_ok: "cl_view w (key_of x) = Some z \<Longrightarrow> \<exists>y w'. run_state (kStatusUpdate mem_client x) w = (Inr y, w')"
  by (simp add: mem_client_def mem_status_def Let_def)

lemma lab_Reconcile_ok:
  assumes site: "cl_view w (site_key ns name) = Some (KEdgeSite es0)" and sec: "cl_view w gitea_auth_key = Some (KSecret sec)"
  shows "\<exists>w'. run_state (EdgeSite_Reconcile lab_reconciler ns name) w = ((NoRequeue, None), w')"
proof -
  have k: "key_of (KEdgeSite es0) = site_key ns name" using cl_view_key [OF site] by simp
  have g: "run_state (get_as mem_client as_EdgeSite (site_key ns name)) w = (Inr es0, w)"
    using site by (simp add: get_as_def mem_client_def mem_get_def decode_as_def)
  have s: "is_site cl_view w es0" using site k by (simp add: is_site_def)
  obtain es w1 where d: "run_state (deriveAddressing lab_reconciler es0) w = ((None, es), w1)"
    using mem_derive_ok [OF _ lab_site.edgesite_world_axioms s] by auto
  from lab_site.derive_ok [OF s d] have full: "\<not> needs_fill (es_Spec es)" and s1: "is_site cl_view w1 es"
    and k1: "key_of (KEdgeSite es) = site_key ns name" and v1: "\<And>x. x \<noteq> site_key ns name \<Longrightarrow> cl_view w1 x = cl_view w x"
    unfolding k by blast+
  have vip: "es_N2VIP (es_Spec es) \<noteq> ''''" using full by (auto simp: needs_fill_def)
  have sec1: "cl_view w1 gitea_auth_key = Some (KSecret sec)" using v1 [OF gitea_key_site] sec by simp
  have "\<exists>w2. run_state (for_until_err (run_item lab_reconciler es) (site_plan lab_reconciler es)) w1 = (None, w2)"
    by (rule lab_items_ok [OF sec1]) (use site_plan_ok [of lab_reconciler es] in \<open>auto simp: plan_ok_def\<close>)
  then obtain w2 where l: "run_state (for_until_err (site_step lab_reconciler es) (site_steps lab_reconciler es)) w1 = (None, w2)"
    unfolding site_steps_ok site_steps_plan [OF vip] for_until_err_map by blast
  have "cl_view w2 (key_of (KEdgeSite (emitted_site lab_reconciler es))) = Some (KEdgeSite es)"
    using lab_site.site_steps_keep [OF l vip, of ns name] s1 k1 by (simp add: is_site_def emitted_site_def key_of_def)
  from mem_status_ok [OF this] obtain y w3 where "run_state (kStatusUpdate mem_client (KEdgeSite (emitted_site lab_reconciler es))) w2 = (Inr y, w3)" by blast
  with g d l step_ok [of lab_reconciler "''DeriveAddressing''" "deriveAddressing lab_reconciler es0" w es w1] show ?thesis
    by (simp add: EdgeSite_Reconcile_def Let_def)
qed

lemma lab1_secret: "cl_view lab1 gitea_auth_key = Some (KSecret \<lparr>sec_Meta = named_meta ''default'' ''gitea-auth'',
    sec_Data = [(''username'', ''nephio''), (''password'', ''secret'')]\<rparr>)"
  by code_simp

text \<open>A cluster that refuses every creation.\<close>

definition full_reconciler :: "lab EdgeSiteReconciler" where
  "full_reconciler = lab_reconciler\<lparr>esr_Client := mem_client\<lparr>kCreate := (\<lambda>x. ret (Inl (ErrorString ''quota exceeded'')))\<rparr>\<rparr>"

section \<open>Properties\<close>

text \<open>C1. A reconcile that returns no error has put in place everything a site of its role consists of:
  the cluster, control-plane, UPF, multus and datapath packages, the four IP claims, the mesh link
  and slice of a UPF-only site, and for a site with a control plane the N2 exposure, the slice, the
  starter subscribers and the gNB in its deploy repository. The site has all its addresses, and its
  status says Deploying with a true Ready condition.\<close>

theorem EdgeSite_Reconcile_establishes:
  assumes world: "edgesite_delivery r view repo"
    and conds: "status_conditions (SetStatusCondition (esr_Env r))"
    and site: "view w (site_key ns name) = Some (KEdgeSite es0)"
    and calm: "\<And>k. \<not> terminating view w k"
    and run: "run_state (EdgeSite_Reconcile r ns name) w = ((res, None), w')"
  shows "\<exists>es s. (\<exists>base vip. es_Spec es = fill_spec (itoa (siteIndex name)) base vip (es_Spec es0))
      \<and> (\<forall>p \<in> set (site_plan r es). in_place view repo (user_at view w) (deploy_repo r es) es p w')
      \<and> view w' (site_key ns name) = Some (KEdgeSite s) \<and> es_Spec s = es_Spec es
      \<and> ess_Phase (es_Status s) = ''Deploying'' \<and> ess_Cluster (es_Status s) = ''cluster-'' @ name
      \<and> map_option cond_Status (find_cond ''Ready'' (ess_Conditions (es_Status s))) = Some ConditionTrue"
proof -
  from edgesite_delivery.Reconcile_in_place [OF world run site calm] obtain es s where
    f: "\<exists>base vip. es_Spec es = fill_spec (itoa (siteIndex name)) base vip (es_Spec es0)" "om_Name (es_Meta es) = name"
    and p: "\<forall>p \<in> set (site_plan r es). in_place view repo (user_at view w) (deploy_repo r es) es p w'"
    and s: "view w' (site_key ns name) = Some (KEdgeSite s)" "es_Spec s = es_Spec es" "es_Status s = es_Status (emitted_site r es)"
    by blast
  define c where "c = \<lparr>cond_Type = ''Ready'', cond_Status = ConditionTrue, cond_Reason = ''Emitted'',
       cond_Message = ''all KRM emitted (cluster/CP/UPF PackageVariants + IPClaims'' @ meshNote (es_Role (es_Spec es)) @ '')'',
       cond_ObservedGeneration = om_Generation (es_Meta es)\<rparr>"
  have "map_option cond_Status (find_cond ''Ready'' (ess_Conditions (es_Status s))) = Some ConditionTrue"
    using status_conditions.set_cond_found [OF conds, of c] by (simp add: s emitted_site_def setCondition_def c_def)
  moreover have "ess_Phase (es_Status s) = ''Deploying''" "ess_Cluster (es_Status s) = ''cluster-'' @ name"
    by (simp_all add: s emitted_site_def f)
  ultimately show ?thesis using f(1) p s(1,2) by (intro exI [of _ es] exI [of _ s]) simp
qed

theorem EdgeSite_Reconcile_establishes_witness:
  "\<exists>w' s. run_state (EdgeSite_Reconcile lab_reconciler ''default'' ''edge1'') lab1 = ((NoRequeue, None), w')
     \<and> cl_view w' (site_key ''default'' ''edge1'') = Some (KEdgeSite s) \<and> ess_Phase (es_Status s) = ''Deploying''"
proof -
  obtain w' where run: "run_state (EdgeSite_Reconcile lab_reconciler ''default'' ''edge1'') lab1 = ((NoRequeue, None), w')"
    using lab_Reconcile_ok [OF lab1_reads(2) lab1_secret] by auto
  have "SetStatusCondition (esr_Env lab_reconciler) = put_condition" by (simp add: lab_env_def)
  then have c: "status_conditions (SetStatusCondition (esr_Env lab_reconciler))"
    using put_condition.status_conditions_axioms by simp
  from EdgeSite_Reconcile_establishes [OF lab_site.edgesite_delivery_axioms c lab1_reads(2) lab1_calm run] run
  show ?thesis by blast
qed

text \<open>C3. A reconcile stops at the first step that fails: the error it returns names the site and that
  step and carries the step's own error, the status it tries to write says Failed, and none of the
  later steps runs.\<close>

theorem EdgeSite_Reconcile_fails_fast:
  assumes "run_state (get_as (esr_Client r) as_EdgeSite (site_key ns name)) w = (Inr es0, w0)"
    and "run_state (deriveAddressing r es0) w0 = ((None, es), w1)"
    and "site_steps r es = ps @ (n, a) # qs"
    and "run_state (for_until_err (site_step r es) ps) w1 = (None, w2)"
    and "run_state a w2 = (Some err, w3)"
    and "run_state (kStatusUpdate (esr_Client r) (KEdgeSite (failed_site r n err es))) w3 = (u, w4)"
  shows "run_state (EdgeSite_Reconcile r ns name) w =
    ((NoRequeue, Some (WrapError (''EdgeSite '' @ quote (om_Name (es_Meta es)) @ '' step '' @ quote n @ '': '') err)), w4)"
proof -
  have d: "run_state (step r ''DeriveAddressing'' (deriveAddressing r es0)) w0 = ((None, es), w1)"
    using assms(2) by (simp add: step_ok)
  have "run_state (site_step r es (n, a)) w2 = (Some (step_error (failed_site r n err es) n err), w4)"
    using assms(5,6) by (simp add: site_step_def step_def Let_def)
  then have "run_state (for_until_err (site_step r es) (site_steps r es)) w1 = (Some (step_error (failed_site r n err es) n err), w4)"
    unfolding assms(3) for_until_err_append using assms(4) by simp
  then show ?thesis
    using assms(1) d by (simp add: EdgeSite_Reconcile_def Let_def step_error_def failed_site_def)
qed

theorem EdgeSite_Reconcile_fails_fast_witness:
  "\<exists>w'. run_state (EdgeSite_Reconcile full_reconciler ''default'' ''edge1'') lab1 =
     ((NoRequeue, Some (WrapError (''EdgeSite '' @ quote ''edge1'' @ '' step '' @ quote ''ClusterPackageVariant'' @ '': '') (ErrorString ''quota exceeded''))), w')"
proof -
  define D where "D = run_state (deriveAddressing full_reconciler edge1) lab1"
  define es where "es = snd (fst D)"
  have get: "run_state (get_as (esr_Client full_reconciler) as_EdgeSite (site_key ''default'' ''edge1'')) lab1 = (Inr edge1, lab1)"
    by code_simp
  have "fst (fst D) = None \<and> \<not> es_Colocated (es_Spec es) \<and> om_Name (es_Meta es) = ''edge1''"
    unfolding es_def D_def by code_simp
  then have d: "run_state (deriveAddressing full_reconciler edge1) lab1 = ((None, es), snd D)" and c: "\<not> es_Colocated (es_Spec es)"
    and nm: "om_Name (es_Meta es) = ''edge1''" by (simp_all add: es_def flip: D_def) (metis prod.collapse)
  define a where "a = pkgVariant full_reconciler es (''cluster-'' @ om_Name (es_Meta es)) ''cluster-ck8s-byoh'' (MgmtRepo full_reconciler)
    (''cluster-'' @ om_Name (es_Meta es)) True"
  obtain qs where st: "site_steps full_reconciler es = [] @ (''ClusterPackageVariant'', a) # qs"
    using c by (simp add: site_steps_def Let_def a_def)
  have "fst (run_state a (snd D)) = Some (ErrorString ''quota exceeded'')" unfolding a_def es_def D_def by code_simp
  then have f: "run_state a (snd D) = (Some (ErrorString ''quota exceeded''), snd (run_state a (snd D)))" by (metis prod.collapse)
  have e: "run_state (for_until_err (site_step full_reconciler es) []) (snd D) = (None, snd D)" by simp
  obtain u w4 where "run_state (kStatusUpdate (esr_Client full_reconciler) (KEdgeSite (failed_site full_reconciler ''ClusterPackageVariant''
      (ErrorString ''quota exceeded'') es))) (snd (run_state a (snd D))) = (u, w4)" by force
  from EdgeSite_Reconcile_fails_fast [OF get d st e f this] nm show ?thesis by simp
qed

text \<open>C10. Applying an unstructured child (a PackageVariant or an IPClaim) again changes nothing in the
  cluster once it is in place, so a reconcile loop cuts no new package revisions.\<close>

theorem applyOwned_no_churn:
  assumes world: "edgesite_world r view" and wf: "json_wf (u_Spec u)"
    and first: "run_state (applyOwned r es (KUnstructured u)) w = (None, w1)" and calm: "\<not> terminating view w (key_of (KUnstructured u))"
    and again: "run_state (applyOwned r es (KUnstructured u)) w1 = (res, w2)"
  shows "view w2 = view w1"
proof -
  from edgesite_world.applyOwned_effect [OF world first] calm obtain y where
    y: "view w1 (key_of (KUnstructured u)) = Some y" "settled es (KUnstructured u) y" by blast
  from edgesite_world.applyOwned_found [OF world again y(1)] settled_unchanged [OF wf y(2)] show ?thesis by blast
qed

theorem applyOwned_no_churn_witness:
  "cl_view (snd (run_state (applyOwned (mem_reconciler quiet_env) site4 (ip_claim site4 ''site-4-pod'' ''network''))
      (snd (run_state (applyOwned (mem_reconciler quiet_env) site4 (ip_claim site4 ''site-4-pod'' ''network'')) two_sites))))
   = cl_view (snd (run_state (applyOwned (mem_reconciler quiet_env) site4 (ip_claim site4 ''site-4-pod'' ''network'')) two_sites))"
proof -
  let ?x = "ip_claim site4 ''site-4-pod'' ''network''" and ?r = "mem_reconciler quiet_env :: cluster EdgeSiteReconciler"
  obtain u where u: "?x = KUnstructured u" by (simp add: ip_claim_def)
  have wf: "json_wf (u_Spec u)" using u by (auto simp: ip_claim_def)
  have "fst (run_state (applyOwned ?r site4 ?x) two_sites) = None" by code_simp
  then have first: "run_state (applyOwned ?r site4 ?x) two_sites = (None, snd (run_state (applyOwned ?r site4 ?x) two_sites))"
    by (metis prod.collapse)
  have "list_all alive (cl_objects two_sites)" by code_simp
  note calm = cl_view_calm [OF this, of "key_of ?x"]
  show ?thesis
    by (rule applyOwned_no_churn [OF mem_sites.edgesite_world_axioms wf first [unfolded u] calm [unfolded u] prod.collapse [symmetric], folded u])
qed

text \<open>A reconcile of a site that does not exist (any more) returns neither an error nor a requeue and
  changes nothing.\<close>

theorem EdgeSite_Reconcile_gone:
  assumes world: "edgesite_delivery r view repo"
    and gone: "run_state (get_as (esr_Client r) as_EdgeSite (site_key ns name)) w = (Inl e, w1)" "IsNotFound e"
  shows "\<exists>w'. run_state (EdgeSite_Reconcile r ns name) w = ((NoRequeue, None), w') \<and> view w' = view w \<and> repo w' = repo w"
proof -
  have d: "delivery_world (esr_Client r) view (esr_Env r) repo" using world by (simp add: edgesite_delivery_def)
  have "run_state (EdgeSite_Reconcile r ns name) w = ((NoRequeue, None), w1)"
    using gone by (simp add: EdgeSite_Reconcile_def IgnoreNotFound_def)
  with frameD [OF delivery_world.get_as_repo [OF d] gone(1)]
    frameD [OF kube_api.get_as_frame [OF delivery_world.axioms(1) [OF d]] gone(1)]
  show ?thesis by blast
qed

theorem EdgeSite_Reconcile_gone_witness:
  "\<exists>w'. run_state (EdgeSite_Reconcile lab_reconciler ''default'' ''edge9'') lab1 = ((NoRequeue, None), w')
     \<and> cl_view w' = cl_view lab1 \<and> lab_repo w' = lab_repo lab1"
proof -
  have g: "run_state (get_as (esr_Client lab_reconciler) as_EdgeSite (site_key ''default'' ''edge9'')) lab1 = (Inl notFound, lab1)"
    by code_simp
  have n: "IsNotFound notFound" by (simp add: notFound_def)
  show ?thesis by (rule EdgeSite_Reconcile_gone [OF lab_site.edgesite_delivery_axioms g n])
qed

end
