(* ===== verification/Fleet_Controller.thy ===== *)
theory Fleet_Controller
  imports Upsert "HOL-Library.List_Lexorder" "HOL-Library.Char_ord"
begin

text \<open>
  The Fleet reconciler, \<open>operator/internal/controller/fleet_controller.go\<close>: a Fleet lists
  servers, the controller keeps one EdgeSite per entry and deletes the EdgeSites whose entry is
  gone. The lemmas show what the cluster holds after a reconcile, site by site, errors included.
\<close>

section \<open>Definitions\<close>

record 'w FleetReconciler =
  flr_Client :: "'w kclient"
  flr_Env :: "'w env"

definition fleetLabel :: string where
  "fleetLabel = ''fleet.sdcore.nephio.io/fleet''"

definition managedLabel :: string where
  "managedLabel = ''fleet.sdcore.nephio.io/managed''"

definition fleet_site_name :: "FleetSite \<Rightarrow> string" where
  "fleet_site_name s = (if fs_Name s = '''' then ''site-'' @ ReplaceAll (fs_Server s) (CHR ''.'') ''-'' else fs_Name s)"

text \<open>The map \<open>desired\<close>, as its entries: an entry without a server is skipped, a later entry of the
  same name replaces an earlier one.\<close>

definition desired_sites :: "FleetSite list \<Rightarrow> (string \<times> FleetSite) list" where
  "desired_sites sites =
     foldl (\<lambda>m s. if fs_Server s = '''' then m else upsert (fleet_site_name s) s m) [] sites"

definition fleet_owner :: "Fleet \<Rightarrow> OwnerReference" where
  "fleet_owner fl = \<lparr>or_APIVersion = SchemeGroupVersion, or_Kind = ''Fleet'', or_Name = om_Name (fl_Meta fl),
     or_UID = om_UID (fl_Meta fl), or_Controller = Some True, or_BlockOwnerDeletion = Some True\<rparr>"

definition site_role :: "FleetSite \<Rightarrow> string" where
  "site_role s = (if fs_Role s = '''' then ''upf-only'' else fs_Role s)"

text \<open>The EdgeSite created for an entry, and an existing one with the declared fields reasserted.\<close>

definition fleet_new_site :: "Fleet \<Rightarrow> string \<Rightarrow> FleetSite \<Rightarrow> EdgeSite" where
  "fleet_new_site fl name s = \<lparr>es_Meta = (named_meta (om_Namespace (fl_Meta fl)) name)\<lparr>
        om_Labels := [(fleetLabel, om_Name (fl_Meta fl)), (managedLabel, ''true'')], om_OwnerReferences := [fleet_owner fl]\<rparr>,
     es_Spec = zero_EdgeSiteSpec\<lparr>es_Server := fs_Server s, es_User := fs_User s, es_Role := site_role s, es_RAN := fs_RAN s\<rparr>,
     es_Status = zero_EdgeSiteStatus\<rparr>"

definition fleet_updated_site :: "Fleet \<Rightarrow> FleetSite \<Rightarrow> EdgeSite \<Rightarrow> EdgeSite" where
  "fleet_updated_site fl s cur = cur\<lparr>
     es_Meta := (es_Meta cur)\<lparr>om_Labels := upsert managedLabel ''true'' (upsert fleetLabel (om_Name (fl_Meta fl)) (om_Labels (es_Meta cur)))\<rparr>,
     es_Spec := (es_Spec cur)\<lparr>es_Server := fs_Server s, es_User := fs_User s, es_Role := site_role s, es_RAN := fs_RAN s\<rparr>\<rparr>"

definition fleet_key :: "Fleet \<Rightarrow> string \<Rightarrow> ObjectKey" where
  "fleet_key fl name = mk_key (sdcoreGVK ''EdgeSite'') (om_Namespace (fl_Meta fl)) name"

definition applyEdgeSite :: "'w FleetReconciler \<Rightarrow> Fleet \<Rightarrow> string \<times> FleetSite \<Rightarrow> ('w, error option) io" where
  "applyEdgeSite r fl p = do {
     g \<leftarrow> get_as (flr_Client r) as_EdgeSite (fleet_key fl (fst p));
     case g of
       Inl err \<Rightarrow>
         if IsNotFound err then do { c \<leftarrow> kCreate (flr_Client r) (KEdgeSite (fleet_new_site fl (fst p) (snd p))); ret (err_of c) }
         else ret (Some err)
     | Inr cur \<Rightarrow> do { u \<leftarrow> kUpdate (flr_Client r) (KEdgeSite (fleet_updated_site fl (snd p) cur)); ret (err_of u) } }"

text \<open>The entries in the order the code handles them: sorted by name.\<close>

definition fleet_order :: "Fleet \<Rightarrow> (string \<times> FleetSite) list" where
  "fleet_order fl = (let d = desired_sites (fl_Sites fl) in
     map (\<lambda>n. (n, the (map_of d n))) (sort (map fst d)))"

definition apply_report :: "string \<Rightarrow> error option \<Rightarrow> string list" where
  "apply_report name e = (case e of None \<Rightarrow> [] | Some err \<Rightarrow> [name @ '': '' @ Error err])"

definition delete_report :: "EdgeSite \<Rightarrow> error \<Rightarrow> string" where
  "delete_report es err = ''delete '' @ om_Name (es_Meta es) @ '': '' @ Error err"

definition retire :: "'w FleetReconciler \<Rightarrow> string list \<Rightarrow> EdgeSite \<Rightarrow> ('w, string list) io" where
  "retire r keep es =
     (if om_Name (es_Meta es) \<in> set keep \<or> om_DeletionTimestamp (es_Meta es) \<noteq> None then ret []
      else do {
        e \<leftarrow> kDelete (flr_Client r) (KEdgeSite es);
        ret (case e of None \<Rightarrow> []
          | Some err \<Rightarrow> if IsNotFound err then [] else [delete_report es err]) })"

definition fleet_status :: "'w FleetReconciler \<Rightarrow> Fleet \<Rightarrow> ConditionStatus \<Rightarrow> string \<Rightarrow> string \<Rightarrow> Fleet" where
  "fleet_status r fl st reason msg = fl\<lparr>fl_Status := (fl_Status fl)\<lparr>fls_Message := msg,
     fls_Conditions := setCondition (flr_Env r) (fls_Conditions (fl_Status fl)) ''Ready'' st reason msg (om_Generation (fl_Meta fl))\<rparr>\<rparr>"

definition fleet_fail :: "'w FleetReconciler \<Rightarrow> Fleet \<Rightarrow> error \<Rightarrow> ('w, Result \<times> error option) io" where
  "fleet_fail r fl err = do {
     u \<leftarrow> kStatusUpdate (flr_Client r) (KFleet (fleet_status r fl ConditionFalse ''Failed'' (Error err)));
     ret (NoRequeue, Some err) }"

definition partial_message :: "int \<Rightarrow> string list \<Rightarrow> string" where
  "partial_message n errs = itoa (n - int (length errs)) @ ''/'' @ itoa n @ '' site(s) reconciled; errors: '' @ Join errs ''; ''"

text \<open>The status at the end of a pass that made the reports \<open>errs\<close>.\<close>

definition fleet_finish :: "'w FleetReconciler \<Rightarrow> Fleet \<Rightarrow> string list \<Rightarrow> ('w, Result \<times> error option) io" where
  "fleet_finish r fl errs =
     (let n = int (length (desired_sites (fl_Sites fl)));
          fl' = fl\<lparr>fl_Status := (fl_Status fl)\<lparr>fls_Sites := n\<rparr>\<rparr>
      in if errs \<noteq> [] then do {
           u \<leftarrow> kStatusUpdate (flr_Client r) (KFleet (fleet_status r fl' ConditionFalse ''PartialFailure'' (partial_message n errs)));
           ret (requeue_seconds 15, None) }
         else do {
           u \<leftarrow> kStatusUpdate (flr_Client r) (KFleet (fleet_status r fl' ConditionTrue ''Reconciled''
                  (itoa n @ '' site(s) reconciled into EdgeSites'')));
           ret (NoRequeue, None) })"

definition Fleet_Reconcile :: "'w FleetReconciler \<Rightarrow> string \<Rightarrow> string \<Rightarrow> ('w, Result \<times> error option) io" where
  "Fleet_Reconcile r ns name = do {
     g \<leftarrow> get_as (flr_Client r) as_Fleet (mk_key (sdcoreGVK ''Fleet'') ns name);
     case g of Inl err \<Rightarrow> ret (NoRequeue, IgnoreNotFound err)
     | Inr fl \<Rightarrow> do {
         let desired = map fst (desired_sites (fl_Sites fl));
         errs1 \<leftarrow> for_collect (\<lambda>p. do { e \<leftarrow> applyEdgeSite r fl p; ret (apply_report (fst p) e) }) (fleet_order fl);
         l \<leftarrow> list_as (flr_Client r) as_EdgeSite (sdcoreGVK ''EdgeSite'')
               [InNamespace (om_Namespace (fl_Meta fl)), MatchingLabels [(fleetLabel, om_Name (fl_Meta fl))]];
         case l of Inl err \<Rightarrow> fleet_fail r fl (WrapError ''list managed EdgeSites: '' err)
         | Inr owned \<Rightarrow> do {
             errs2 \<leftarrow> for_collect (retire r desired) owned;
             fleet_finish r fl (errs1 @ errs2) } } }"

section \<open>The desired sites\<close>

lemma desired_distinct: "distinct (map fst (desired_sites sites))"
proof -
  have "distinct (map fst m) \<Longrightarrow>
      distinct (map fst (foldl (\<lambda>m s. if fs_Server s = '''' then m else upsert (fleet_site_name s) s m) m sites))" for m
    by (induction sites arbitrary: m) simp_all
  then show ?thesis by (simp add: desired_sites_def)
qed

text \<open>The entry that counts for a name is the last one with a server.\<close>

lemma map_of_desired:
  "map_of (desired_sites sites) n = find (\<lambda>s. fs_Server s \<noteq> '''' \<and> fleet_site_name s = n) (rev sites)"
proof -
  have "map_of (foldl (\<lambda>m s. if fs_Server s = '''' then m else upsert (fleet_site_name s) s m) m sites) n =
      (case find (\<lambda>s. fs_Server s \<noteq> '''' \<and> fleet_site_name s = n) (rev sites) of Some s \<Rightarrow> Some s | None \<Rightarrow> map_of m n)" for m
    by (induction sites arbitrary: m) (auto simp: find_append split: option.splits)
  then show ?thesis by (simp add: desired_sites_def split: option.splits)
qed

lemma fleet_order_sorted:
  "sorted (map fst (fleet_order fl))" "distinct (map fst (fleet_order fl))"
  "set (map fst (fleet_order fl)) = set (map fst (desired_sites (fl_Sites fl)))"
  using desired_distinct [of "fl_Sites fl"] by (simp_all add: fleet_order_def Let_def comp_def)

lemma fleet_order_entry:
  "(n, s) \<in> set (fleet_order fl) \<longleftrightarrow> map_of (desired_sites (fl_Sites fl)) n = Some s"
proof -
  have "n \<in> fst ` set (desired_sites (fl_Sites fl)) \<longleftrightarrow> map_of (desired_sites (fl_Sites fl)) n \<noteq> None"
    by (simp add: map_of_eq_None_iff)
  then show ?thesis by (auto simp: fleet_order_def Let_def image_iff)
qed

section \<open>One site\<close>

text \<open>The declared part of an EdgeSite is what the entry says, and it carries the Fleet's labels.\<close>

definition declared :: "Fleet \<Rightarrow> string \<times> FleetSite \<Rightarrow> kobject \<Rightarrow> bool" where
  "declared fl p y = (case y of KEdgeSite es \<Rightarrow>
       om_Name (es_Meta es) = fst p \<and> es_Server (es_Spec es) = fs_Server (snd p) \<and> es_User (es_Spec es) = fs_User (snd p)
     \<and> es_Role (es_Spec es) = site_role (snd p) \<and> es_RAN (es_Spec es) = fs_RAN (snd p)
     \<and> map_of (om_Labels (es_Meta es)) fleetLabel = Some (om_Name (fl_Meta fl)) | _ \<Rightarrow> False)"

lemma declared_intent: "declared fl p x \<Longrightarrow> same_intent x y \<Longrightarrow> declared fl p y"
  by (cases x; cases y) (auto simp: declared_def same_intent_def key_of_def)

lemma fleetLabel_managed [simp]: "fleetLabel \<noteq> managedLabel"
  by (simp add: fleetLabel_def managedLabel_def)

lemma declared_new: "declared fl p (KEdgeSite (fleet_new_site fl (fst p) (snd p)))"
  by (simp add: declared_def fleet_new_site_def)

lemma declared_updated:
  "om_Name (es_Meta cur) = fst p \<Longrightarrow> declared fl p (KEdgeSite (fleet_updated_site fl (snd p) cur))"
  by (simp add: declared_def fleet_updated_site_def)

lemma fleet_keys [simp]:
  "key_of (KEdgeSite (fleet_new_site fl n s)) = fleet_key fl n"
  "key_of (KEdgeSite (fleet_updated_site fl s cur)) = key_of (KEdgeSite cur)"
  "fleet_key fl m = fleet_key fl n \<longleftrightarrow> m = n"
  by (simp_all add: fleet_new_site_def fleet_updated_site_def fleet_key_def key_of_mk_key)

text \<open>What a site has beyond the declared fields: the derived addresses above all, and its owners.\<close>

definition derived_part :: "EdgeSite \<Rightarrow> EdgeSiteSpec \<times> OwnerReference list" where
  "derived_part es = ((es_Spec es)\<lparr>es_Server := '''', es_User := '''', es_Role := '''', es_RAN := None\<rparr>, om_OwnerReferences (es_Meta es))"

lemma derived_part_updated: "derived_part (fleet_updated_site fl s cur) = derived_part cur"
  by (simp add: derived_part_def fleet_updated_site_def)

lemma derived_part_intent: "same_intent (KEdgeSite es) y \<Longrightarrow> \<exists>es'. y = KEdgeSite es' \<and> derived_part es' = derived_part es"
  by (cases y) (auto simp: same_intent_def derived_part_def)

locale fleet_world = kube_api "flr_Client r" view
  for r :: "'w FleetReconciler" and view
begin

lemma applyEdgeSite_effect:
  assumes run: "run_state (applyEdgeSite r fl p) w = (res, w')"
  shows "(res = None \<and> (\<exists>y. declared fl p y \<and> view w' = (view w)(fleet_key fl (fst p) \<mapsto> y)
      \<and> (\<forall>cur. view w (fleet_key fl (fst p)) = Some (KEdgeSite cur) \<longrightarrow> (\<exists>es. y = KEdgeSite es \<and> derived_part es = derived_part cur))))
    \<or> (res \<noteq> None \<and> view w' = view w)"
proof -
  obtain g w1 where g: "run_state (get_as (flr_Client r) as_EdgeSite (fleet_key fl (fst p))) w = (g, w1)" by force
  have v1: "view w1 = view w" using frameD [OF get_as_frame g] .
  show ?thesis
  proof (cases g)
    case (Inl e)
    show ?thesis
    proof (cases "IsNotFound e")
      case False
      with run g Inl v1 show ?thesis by (auto simp: applyEdgeSite_def)
    next
      case True
      obtain u w2 where u: "run_state (kCreate (flr_Client r) (KEdgeSite (fleet_new_site fl (fst p) (snd p)))) w1 = (u, w2)" by force
      from run g Inl True u have res: "res = err_of u" "w' = w2" by (auto simp: applyEdgeSite_def)
      show ?thesis
      proof (cases u)
        case (Inl err)
        with res create_err [OF u [unfolded Inl]] v1 show ?thesis by simp
      next
        case (Inr y)
        from create_ok [OF u [unfolded Inr]] declared_intent [OF declared_new]
        have "declared fl p y" "view w2 = (view w1)(fleet_key fl (fst p) \<mapsto> y)" "view w1 (fleet_key fl (fst p)) = None" by auto
        with res Inr v1 show ?thesis by auto
      qed
    qed
  next
    case (Inr cur)
    have cur: "view w (fleet_key fl (fst p)) = Some (KEdgeSite cur)"
      using get_as_ok [OF g [unfolded Inr]] by (auto simp: as_simps)
    note key = view_key [OF cur]
    have nm: "om_Name (es_Meta cur) = fst p" using key by (simp add: key_of_mk_key fleet_key_def)
    obtain u w2 where u: "run_state (kUpdate (flr_Client r) (KEdgeSite (fleet_updated_site fl (snd p) cur))) w1 = (u, w2)" by force
    from run g Inr u have res: "res = err_of u" "w' = w2" by (auto simp: applyEdgeSite_def)
    show ?thesis
    proof (cases u)
      case (Inl err)
      with res update_err [OF u [unfolded Inl]] v1 show ?thesis by simp
    next
      case (Inr y)
      have "om_Finalizers (es_Meta (fleet_updated_site fl (snd p) cur)) = om_Finalizers (es_Meta cur)"
        by (simp add: fleet_updated_site_def)
      with update_live [OF u [unfolded Inr], of "KEdgeSite cur"] cur key v1
      have "same_intent (KEdgeSite (fleet_updated_site fl (snd p) cur)) y" "view w2 = (view w)(fleet_key fl (fst p) \<mapsto> y)" by auto
      with res Inr declared_intent [OF declared_updated [OF nm]] derived_part_intent [of _ y] derived_part_updated [of fl "snd p" cur] cur
      show ?thesis by fastforce
    qed
  qed
qed

end

sublocale fleet_world \<subseteq> entry: upsert_contract view "applyEdgeSite r fl" "\<lambda>p. fleet_key fl (fst p)" "declared fl"
  for fl
proof
  fix p w w'
  assume "run_state (applyEdgeSite r fl p) w = (None, w')"
  from applyEdgeSite_effect [OF this] show "\<exists>y. view w' (fleet_key fl (fst p)) = Some y \<and> declared fl p y" by auto
next
  fix p w res w' k
  assume "run_state (applyEdgeSite r fl p) w = (res, w')" "k \<noteq> fleet_key fl (fst p)"
  with applyEdgeSite_effect show "view w' k = view w k" by fastforce
next
  fix p w e w'
  assume "run_state (applyEdgeSite r fl p) w = (Some e, w')"
  from applyEdgeSite_effect [OF this] show "view w' = view w" by simp
qed

section \<open>The reconcile\<close>

text \<open>A site that is on its way out, or gone.\<close>

definition leaving :: "('w \<Rightarrow> ObjectKey \<Rightarrow> kobject option) \<Rightarrow> 'w \<Rightarrow> ObjectKey \<Rightarrow> bool" where
  "leaving view w k \<longleftrightarrow> (\<forall>y. view w k = Some y \<longrightarrow> om_DeletionTimestamp (meta_of y) \<noteq> None)"

text \<open>The sites a Fleet manages: in its namespace, with its label.\<close>

definition managed :: "('w \<Rightarrow> ObjectKey \<Rightarrow> kobject option) \<Rightarrow> 'w \<Rightarrow> Fleet \<Rightarrow> EdgeSite \<Rightarrow> bool" where
  "managed view w fl es \<longleftrightarrow> view w (key_of (KEdgeSite es)) = Some (KEdgeSite es)
     \<and> om_Namespace (es_Meta es) = om_Namespace (fl_Meta fl)
     \<and> map_of (om_Labels (es_Meta es)) fleetLabel = Some (om_Name (fl_Meta fl))"

lemma fleet_key_of: "key_of (KEdgeSite es) = fleet_key fl n \<longleftrightarrow> om_Name (es_Meta es) = n \<and> om_Namespace (es_Meta es) = om_Namespace (fl_Meta fl)"
  by (auto simp: fleet_key_def key_of_mk_key)

context fleet_world
begin

lemma list_managed:
  assumes "run_state (list_as (flr_Client r) as_EdgeSite (sdcoreGVK ''EdgeSite'')
      [InNamespace (om_Namespace (fl_Meta fl)), MatchingLabels [(fleetLabel, om_Name (fl_Meta fl))]]) w = (Inr owned, w')"
  shows "es \<in> set owned \<longleftrightarrow> managed view w fl es"
  using list_as_ok [OF assms, of es] by (auto simp: as_simps managed_def)

lemma retire_frame:
  "run_state (retire r keep es) w = (rep, w') \<Longrightarrow> k \<noteq> key_of (KEdgeSite es) \<or> om_Name (es_Meta es) \<in> set keep \<Longrightarrow> view w' k = view w k"
proof -
  assume run: "run_state (retire r keep es) w = (rep, w')" and k: "k \<noteq> key_of (KEdgeSite es) \<or> om_Name (es_Meta es) \<in> set keep"
  obtain e w1 where d: "run_state (kDelete (flr_Client r) (KEdgeSite es)) w = (e, w1)" by force
  from run d k show ?thesis
    using delete_ok [of "KEdgeSite es" w w1] delete_err [of "KEdgeSite es" w _ w1] by (cases e) (auto simp: retire_def split: if_splits)
qed

lemma retire_all_frame:
  "run_state (for_collect (retire r keep) owned) w = (errs, w') \<Longrightarrow>
   (\<And>es. es \<in> set owned \<Longrightarrow> k \<noteq> key_of (KEdgeSite es) \<or> om_Name (es_Meta es) \<in> set keep) \<Longrightarrow> view w' k = view w k"
proof (induction owned arbitrary: w errs w')
  case (Cons es owned)
  obtain e1 w1 where 1: "run_state (retire r keep es) w = (e1, w1)" by force
  obtain e2 w2 where 2: "run_state (for_collect (retire r keep) owned) w1 = (e2, w2)" by force
  from Cons.prems(1) 1 2 have "w' = w2" by simp
  with Cons.IH [OF 2] retire_frame [OF 1] Cons.prems(2) show ?case by simp
qed simp

text \<open>What a deletion leaves under any key: nothing new, and the declared content of what stays.\<close>

lemma retire_evolves:
  assumes run: "run_state (retire r keep es) w = (rep, w')" and y: "view w' k = Some y"
  shows "\<exists>z. view w k = Some z \<and> same_intent z y"
    and "leaving view w k \<Longrightarrow> om_DeletionTimestamp (meta_of y) \<noteq> None"
proof -
  obtain e w1 where d: "run_state (kDelete (flr_Client r) (KEdgeSite es)) w = (e, w1)" by force
  have w': "w' = w \<or> w' = w1" using run d by (auto simp: retire_def split: if_splits)
  have "(\<exists>z. view w k = Some z \<and> same_intent z y) \<and> (leaving view w k \<longrightarrow> om_DeletionTimestamp (meta_of y) \<noteq> None)"
    using w' y d delete_ok [of "KEdgeSite es" w w1] delete_err [of "KEdgeSite es" w _ w1]
    by (cases e; cases "k = key_of (KEdgeSite es)") (auto simp: leaving_def)
  then show "\<exists>z. view w k = Some z \<and> same_intent z y"
    and "leaving view w k \<Longrightarrow> om_DeletionTimestamp (meta_of y) \<noteq> None" by blast+
qed

text \<open>A site that is no longer wanted is gone or on its way out, or its failure is reported.\<close>

lemma retire_done:
  assumes run: "run_state (retire r keep es) w = (rep, w')" and "om_Name (es_Meta es) \<notin> set keep"
    and marked: "om_DeletionTimestamp (es_Meta es) \<noteq> None \<Longrightarrow> leaving view w (key_of (KEdgeSite es))"
  shows "leaving view w' (key_of (KEdgeSite es)) \<or> (\<exists>e. delete_report es e \<in> set rep)"
proof (cases "om_DeletionTimestamp (es_Meta es) = None")
  case False
  with run marked show ?thesis by (auto simp: retire_def)
next
  case True
  obtain e w1 where d: "run_state (kDelete (flr_Client r) (KEdgeSite es)) w = (e, w1)" by force
  from run d True assms(2) have w1: "w1 = w'" by (auto simp: retire_def)
  show ?thesis
  proof (cases e)
    case None
    with delete_ok [OF d [unfolded None]] w1 show ?thesis by (auto simp: leaving_def)
  next
    case (Some err)
    show ?thesis
    proof (cases "IsNotFound err")
      case True
      with delete_missing [OF d [unfolded Some]] delete_err [OF d [unfolded Some]] w1 show ?thesis by (auto simp: leaving_def)
    next
      case False
      with run d \<open>om_DeletionTimestamp (es_Meta es) = None\<close> assms(2) Some show ?thesis by (auto simp: retire_def)
    qed
  qed
qed

lemma retire_all_evolves:
  "run_state (for_collect (retire r keep) owned) w = (errs, w') \<Longrightarrow> view w' k = Some y \<Longrightarrow>
   (\<exists>z. view w k = Some z \<and> same_intent z y) \<and> (leaving view w k \<longrightarrow> om_DeletionTimestamp (meta_of y) \<noteq> None)"
proof (induction owned arbitrary: w errs)
  case (Cons es owned)
  obtain e1 w1 where 1: "run_state (retire r keep es) w = (e1, w1)" by force
  obtain e2 w2 where 2: "run_state (for_collect (retire r keep) owned) w1 = (e2, w2)" by force
  from Cons.prems(1) 1 2 have "w' = w2" by simp
  with Cons.IH [of w1 e2] 2 Cons.prems(2) obtain z where z: "view w1 k = Some z" "same_intent z y"
    and l: "leaving view w1 k \<longrightarrow> om_DeletionTimestamp (meta_of y) \<noteq> None" by blast
  from retire_evolves [OF 1 z(1)] z l show ?case by (auto simp: leaving_def same_intent_def)
qed (auto simp: leaving_def)

lemma retire_all_done:
  "run_state (for_collect (retire r keep) owned) w = (errs, w') \<Longrightarrow> es \<in> set owned \<Longrightarrow> om_Name (es_Meta es) \<notin> set keep \<Longrightarrow>
   (om_DeletionTimestamp (es_Meta es) \<noteq> None \<Longrightarrow> leaving view w (key_of (KEdgeSite es))) \<Longrightarrow>
   leaving view w' (key_of (KEdgeSite es)) \<or> (\<exists>e. delete_report es e \<in> set errs)"
proof (induction owned arbitrary: w errs w')
  case (Cons a owned)
  obtain e1 w1 where 1: "run_state (retire r keep a) w = (e1, w1)" by force
  obtain e2 w2 where 2: "run_state (for_collect (retire r keep) owned) w1 = (e2, w2)" by force
  from Cons.prems(1) 1 2 have w': "w' = w2" "errs = e1 @ e2" by auto
  have keeps: "leaving view w' (key_of (KEdgeSite es))" if "leaving view w1 (key_of (KEdgeSite es))"
    using retire_all_evolves [OF 2] w' that by (auto simp: leaving_def)
  have keeps1: "leaving view w1 (key_of (KEdgeSite es))" if "leaving view w (key_of (KEdgeSite es))"
    using retire_evolves(2) [OF 1] that by (auto simp: leaving_def)
  show ?case
  proof (cases "a = es")
    case True
    with retire_done [OF 1] Cons.prems(3,4) keeps w' show ?thesis by auto
  next
    case False
    with Cons.IH [OF 2] Cons.prems(2-4) keeps1 w' show ?thesis by auto
  qed
qed simp

end

section \<open>What a reconcile leaves\<close>

definition fleetKey :: "string \<Rightarrow> string \<Rightarrow> ObjectKey" where
  "fleetKey ns name = mk_key (sdcoreGVK ''Fleet'') ns name"

text \<open>
  The contract of one pass, over the reports \<open>errs\<close> it makes: every declared entry is an EdgeSite
  with the declared fields or has a report, every managed EdgeSite without an entry is leaving or
  has a report.
\<close>

definition fleet_pass :: "('w \<Rightarrow> ObjectKey \<Rightarrow> kobject option) \<Rightarrow> 'w \<Rightarrow> Fleet \<Rightarrow> string list \<Rightarrow> 'w \<Rightarrow> bool" where
  "fleet_pass view w fl errs w' \<longleftrightarrow>
     (\<forall>p \<in> set (fleet_order fl). terminating view w (fleet_key fl (fst p))
        \<or> (\<exists>e. fst p @ '': '' @ Error e \<in> set errs)
        \<or> (\<exists>y. view w' (fleet_key fl (fst p)) = Some y \<and> declared fl p y))
   \<and> (\<forall>es. managed view w' fl es \<longrightarrow> om_Name (es_Meta es) \<in> fst ` set (fleet_order fl)
        \<or> om_DeletionTimestamp (es_Meta es) \<noteq> None \<or> (\<exists>e. delete_report es e \<in> set errs))"

text \<open>What the status of the Fleet says of a pass: the number of sites, the message, the Ready condition.\<close>

definition reported :: "Fleet \<Rightarrow> string list \<Rightarrow> FleetStatus \<Rightarrow> bool" where
  "reported fl errs st \<longleftrightarrow>
     (let n = int (length (fleet_order fl));
          msg = (if errs = [] then itoa n @ '' site(s) reconciled into EdgeSites'' else partial_message n errs)
      in fls_Sites st = n \<and> fls_Message st = msg
       \<and> find_cond ''Ready'' (fls_Conditions st) = Some \<lparr>cond_Type = ''Ready'',
           cond_Status = (if errs = [] then ConditionTrue else ConditionFalse),
           cond_Reason = (if errs = [] then ''Reconciled'' else ''PartialFailure''),
           cond_Message = msg, cond_ObservedGeneration = om_Generation (fl_Meta fl)\<rparr>)"

context fleet_world
begin

lemma fleet_phases:
  assumes a: "run_state (for_collect (\<lambda>p. do { e \<leftarrow> applyEdgeSite r fl p; ret (apply_report (fst p) e) }) (fleet_order fl)) w = (errs1, w1)"
    and l: "run_state (list_as (flr_Client r) as_EdgeSite (sdcoreGVK ''EdgeSite'')
      [InNamespace (om_Namespace (fl_Meta fl)), MatchingLabels [(fleetLabel, om_Name (fl_Meta fl))]]) w1 = (Inr owned, w2)"
    and d: "run_state (for_collect (retire r (map fst (desired_sites (fl_Sites fl)))) owned) w2 = (errs2, w3)"
  shows "fleet_pass view w fl (errs1 @ errs2) w3"
proof -
  let ?keep = "map fst (desired_sites (fl_Sites fl))"
  note ord = fleet_order_sorted [of fl]
  have v2: "view w2 = view w1" using frameD [OF list_as_frame l] .
  have owned: "es \<in> set owned \<longleftrightarrow> managed view w1 fl es" for es by (rule list_managed [OF l])
  have "distinct (map (\<lambda>p. fleet_key fl (fst p)) (fleet_order fl))"
    using ord(2) by (simp add: distinct_map inj_on_def)
  note put = entry.put_collect_ok [OF a this]
  have kept: "view w3 (fleet_key fl (fst p)) = view w1 (fleet_key fl (fst p))" if "p \<in> set (fleet_order fl)" for p
  proof -
    have "fst p \<in> set ?keep" using that ord(3) by auto
    with retire_all_frame [OF d, of "fleet_key fl (fst p)"] v2 show ?thesis by (metis fleet_key_of)
  qed
  have gone: "om_DeletionTimestamp (es_Meta es) \<noteq> None \<or> (\<exists>e. delete_report es e \<in> set errs2)"
    if m: "managed view w3 fl es" and out: "om_Name (es_Meta es) \<notin> fst ` set (fleet_order fl)" for es
  proof -
    have nk: "om_Name (es_Meta es) \<notin> set ?keep" using out ord(3) by auto
    have here: "view w3 (key_of (KEdgeSite es)) = Some (KEdgeSite es)" using m by (simp add: managed_def)
    from retire_all_evolves [OF d here] obtain z where z: "view w1 (key_of (KEdgeSite es)) = Some z" "same_intent z (KEdgeSite es)"
      using v2 by auto
    then obtain es0 where es0: "z = KEdgeSite es0" by (cases z) (auto simp: same_intent_def)
    with z m have "managed view w1 fl es0" and nm: "om_Name (es_Meta es0) = om_Name (es_Meta es)"
      by (auto simp: managed_def same_intent_def key_of_mk_key)
    then have "es0 \<in> set owned" by (simp add: owned)
    from retire_all_done [OF d this] nk nm z es0 v2
    have "leaving view w3 (key_of (KEdgeSite es0)) \<or> (\<exists>e. delete_report es0 e \<in> set errs2)"
      by (auto simp: leaving_def same_intent_def)
    with here nm z es0 show ?thesis by (auto simp: leaving_def delete_report_def same_intent_def)
  qed
  show ?thesis
    unfolding fleet_pass_def using put kept gone by (fastforce simp: apply_report_def)
qed

text \<open>The status write at the end keeps the contract: it changes the Fleet object only.\<close>

lemma fleet_pass_status:
  assumes u: "run_state (kStatusUpdate (flr_Client r) (KFleet x)) w1 = (res, w2)" and p: "fleet_pass view w fl errs w1"
  shows "fleet_pass view w fl errs w2"
proof -
  have "view w2 k = view w1 k" if "key_GVK k = sdcoreGVK ''EdgeSite''" for k
  proof -
    have "k \<noteq> key_of (KFleet x)" using that by (auto simp: key_of_def sdcoreGVK_def)
    with status_other [OF u] show ?thesis by blast
  qed
  then have "view w2 (fleet_key fl n) = view w1 (fleet_key fl n)" "managed view w2 fl es = managed view w1 fl es" for n es
    by (simp_all add: fleet_key_def mk_key_def managed_def key_of_def)
  with p show ?thesis by (simp add: fleet_pass_def)
qed

end

context fleet_world
begin

lemma fleet_object_kept:
  assumes a: "run_state (for_collect (\<lambda>p. do { e \<leftarrow> applyEdgeSite r fl p; ret (apply_report (fst p) e) }) (fleet_order fl)) w = (errs1, w1)"
    and l: "run_state (list_as (flr_Client r) as_EdgeSite g os) w1 = (res, w2)"
    and d: "run_state (for_collect (retire r keep) owned) w2 = (errs2, w3)"
  shows "view w3 (fleetKey ns name) = view w (fleetKey ns name)"
proof -
  have k: "fleetKey ns name \<noteq> fleet_key fl n" "fleetKey ns name \<noteq> key_of (KEdgeSite es)" for n es
    by (auto simp: fleetKey_def fleet_key_def mk_key_def key_of_def sdcoreGVK_def)
  have "view w1 (fleetKey ns name) = view w (fleetKey ns name)"
    by (rule entry.put_collect_frame [OF a]) (auto simp: k)
  with retire_all_frame [OF d, of "fleetKey ns name"] frameD [OF list_as_frame l] k show ?thesis by simp
qed

end

context fleet_world
begin

lemma fleet_status_written:
  assumes u: "run_state (kStatusUpdate (flr_Client r) (KFleet x)) w = (res, w')"
    and v: "view w (key_of (KFleet x)) = Some (KFleet fl)"
  shows "view w' (key_of (KFleet x)) = Some (KFleet fl) \<or>
    (\<exists>fl'. view w' (key_of (KFleet x)) = Some (KFleet fl') \<and> fl_Status fl' = fl_Status x \<and> fl_Sites fl' = fl_Sites fl)"
proof -
  { fix y assume y: "view w' (key_of (KFleet x)) = Some y" "same_intent (KFleet fl) y" "put_status y (KFleet x) = y"
    from y(2) obtain fl' where fl': "y = KFleet fl'" by (cases y) (auto simp: same_intent_def)
    with y(3) have "fl'\<lparr>fl_Status := fl_Status x\<rparr> = fl'" by (simp add: put_status_def)
    from arg_cong [OF this, of fl_Status] y fl'
    have "\<exists>fl'. view w' (key_of (KFleet x)) = Some (KFleet fl') \<and> fl_Status fl' = fl_Status x \<and> fl_Sites fl' = fl_Sites fl"
      by (simp add: same_intent_def) }
  with status_written [OF u v] show ?thesis by blast
qed

lemma fleet_finished:
  assumes conds: "status_conditions (SetStatusCondition (flr_Env r))"
    and fl: "view w (fleetKey ns name) = Some (KFleet fl)"
    and run: "run_state (fleet_finish r fl errs) w = (res, w')"
  shows "res = (if errs = [] then NoRequeue else requeue_seconds 15, None)
    \<and> (\<forall>w0. fleet_pass view w0 fl errs w \<longrightarrow> fleet_pass view w0 fl errs w')
    \<and> (view w' (fleetKey ns name) = Some (KFleet fl)
       \<or> (\<exists>fl'. view w' (fleetKey ns name) = Some (KFleet fl') \<and> reported fl errs (fl_Status fl') \<and> fl_Sites fl' = fl_Sites fl))"
proof -
  have n: "length (fleet_order fl) = length (desired_sites (fl_Sites fl))"
    by (simp add: fleet_order_def Let_def)
  obtain x u where x: "run_state (kStatusUpdate (flr_Client r) (KFleet x)) w = (u, w')" "fl_Meta x = fl_Meta fl"
    and res: "res = (if errs = [] then NoRequeue else requeue_seconds 15, None)" and rep: "reported fl errs (fl_Status x)"
  proof (cases "errs = []")
    case True
    let ?n = "int (length (desired_sites (fl_Sites fl)))"
    let ?x = "fleet_status r (fl\<lparr>fl_Status := (fl_Status fl)\<lparr>fls_Sites := ?n\<rparr>\<rparr>) ConditionTrue ''Reconciled'' (itoa ?n @ '' site(s) reconciled into EdgeSites'')"
    obtain u w1 where "run_state (kStatusUpdate (flr_Client r) (KFleet ?x)) w = (u, w1)" by force
    with run True that [of ?x u] show ?thesis
      by (simp add: fleet_finish_def Let_def reported_def n fleet_status_def setCondition_found [OF conds])
  next
    case False
    let ?n = "int (length (desired_sites (fl_Sites fl)))"
    let ?x = "fleet_status r (fl\<lparr>fl_Status := (fl_Status fl)\<lparr>fls_Sites := ?n\<rparr>\<rparr>) ConditionFalse ''PartialFailure'' (partial_message ?n errs)"
    obtain u w1 where "run_state (kStatusUpdate (flr_Client r) (KFleet ?x)) w = (u, w1)" by force
    with run False that [of ?x u] show ?thesis
      by (simp add: fleet_finish_def Let_def reported_def n fleet_status_def setCondition_found [OF conds])
  qed
  have key: "key_of (KFleet x) = fleetKey ns name"
    using view_key [OF fl] x(2) by (simp add: key_of_def)
  show ?thesis
    using res fleet_pass_status [OF x(1)] fleet_status_written [OF x(1), unfolded key, OF fl] rep by auto
qed

lemma fleet_reconciled:
  assumes conds: "status_conditions (SetStatusCondition (flr_Env r))"
    and fl: "view w (fleetKey ns name) = Some (KFleet fl)"
    and run: "run_state (Fleet_Reconcile r ns name) w = ((q, None), w')"
  shows "\<exists>errs. fleet_pass view w fl errs w' \<and> q = (if errs = [] then NoRequeue else requeue_seconds 15)
    \<and> (view w' (fleetKey ns name) = Some (KFleet fl)
       \<or> (\<exists>fl'. view w' (fleetKey ns name) = Some (KFleet fl') \<and> reported fl errs (fl_Status fl') \<and> fl_Sites fl' = fl_Sites fl))"
proof -
  obtain g w0 where g: "run_state (get_as (flr_Client r) as_Fleet (mk_key (sdcoreGVK ''Fleet'') ns name)) w = (g, w0)" by force
  have v0: "view w0 = view w" using frameD [OF get_as_frame g] .
  have gf: "g = Inr fl"
  proof (cases g)
    case (Inl e)
    with run g have "IsNotFound e" by (auto simp: Fleet_Reconcile_def IgnoreNotFound_def split: if_splits)
    with get_as_missing [OF g [unfolded Inl]] fl show ?thesis by (simp add: fleetKey_def)
  next
    case (Inr fl')
    with get_as_ok [OF g [unfolded Inr]] fl show ?thesis by (auto simp: as_simps fleetKey_def)
  qed
  obtain errs1 w1 where a: "run_state (for_collect (\<lambda>p. do { e \<leftarrow> applyEdgeSite r fl p; ret (apply_report (fst p) e) }) (fleet_order fl)) w0 = (errs1, w1)" by force
  obtain l w2 where l: "run_state (list_as (flr_Client r) as_EdgeSite (sdcoreGVK ''EdgeSite'')
      [InNamespace (om_Namespace (fl_Meta fl)), MatchingLabels [(fleetLabel, om_Name (fl_Meta fl))]]) w1 = (l, w2)" by force
  obtain owned where lo: "l = Inr owned"
    using run g gf a l by (cases l) (auto simp: Fleet_Reconcile_def fleet_fail_def split: prod.splits)
  obtain errs2 w3 where d: "run_state (for_collect (retire r (map fst (desired_sites (fl_Sites fl)))) owned) w2 = (errs2, w3)" by force
  have run4: "run_state (fleet_finish r fl (errs1 @ errs2)) w3 = ((q, None), w')"
    using run g gf a l lo d by (simp add: Fleet_Reconcile_def)
  have "fleet_pass view w0 fl (errs1 @ errs2) w3" by (rule fleet_phases [OF a l [unfolded lo] d])
  then have pass: "fleet_pass view w fl (errs1 @ errs2) w3"
    using v0 by (simp add: fleet_pass_def terminating_def)
  have "view w3 (fleetKey ns name) = Some (KFleet fl)"
    using fleet_object_kept [OF a l d] fl v0 by simp
  from fleet_finished [OF conds this run4] pass show ?thesis by blast
qed

end

context fleet_world
begin

lemma apply_all_keeps:
  "run_state (for_collect (\<lambda>p. do { e \<leftarrow> applyEdgeSite r fl p; ret (apply_report (fst p) e) }) ps) w = (errs, w') \<Longrightarrow>
   view w k = Some (KEdgeSite es) \<Longrightarrow> \<exists>es'. view w' k = Some (KEdgeSite es') \<and> derived_part es' = derived_part es"
proof (induction ps arbitrary: w errs es)
  case (Cons p ps)
  obtain e w1 where e: "run_state (applyEdgeSite r fl p) w = (e, w1)" by force
  obtain es2 w2 where r: "run_state (for_collect (\<lambda>p. do { e \<leftarrow> applyEdgeSite r fl p; ret (apply_report (fst p) e) }) ps) w1 = (es2, w2)" by force
  from Cons.prems(1) e r have w': "w' = w2" by simp
  have "\<exists>es1. view w1 k = Some (KEdgeSite es1) \<and> derived_part es1 = derived_part es"
    using applyEdgeSite_effect [OF e] Cons.prems(2) by (cases "k = fleet_key fl (fst p)") auto
  then obtain es1 where "view w1 k = Some (KEdgeSite es1)" "derived_part es1 = derived_part es" by blast
  with Cons.IH [of w1 es2 es1] r w' show ?case by auto
qed auto

lemma retire_all_keeps:
  assumes "run_state (for_collect (retire r keep) owned) w = (errs, w')" and "view w' k = Some (KEdgeSite es')"
  shows "\<exists>es. view w k = Some (KEdgeSite es) \<and> derived_part es' = derived_part es"
proof -
  from retire_all_evolves [OF assms] obtain z where z: "view w k = Some z" "same_intent z (KEdgeSite es')" by blast
  then obtain es where "z = KEdgeSite es" by (cases z) (auto simp: same_intent_def)
  with z derived_part_intent [of es "KEdgeSite es'"] show ?thesis by auto
qed

lemma status_keeps_sites:
  assumes "run_state (kStatusUpdate (flr_Client r) (KFleet x)) w = (res, w')" and "view w' k = Some (KEdgeSite es')"
  shows "view w k = Some (KEdgeSite es')"
proof (cases "k = key_of (KFleet x)")
  case True
  with view_key [OF assms(2)] show ?thesis by (simp add: key_of_def sdcoreGVK_def)
next
  case False
  with assms status_other [OF assms(1)] show ?thesis by simp
qed

lemma Fleet_Reconcile_phases:
  assumes "run_state (Fleet_Reconcile r ns name) w = (res, w')"
  obtains (same) "view w' = view w"
  | (phases) fl errs1 w1 errs2 owned w2 w3 x u w0 where
      "view w0 = view w" "view w2 = view w1"
      "run_state (for_collect (\<lambda>p. do { e \<leftarrow> applyEdgeSite r fl p; ret (apply_report (fst p) e) }) (fleet_order fl)) w0 = (errs1, w1)"
      "run_state (for_collect (retire r (map fst (desired_sites (fl_Sites fl)))) owned) w2 = (errs2, w3)"
      "run_state (kStatusUpdate (flr_Client r) (KFleet x)) w3 = (u, w')"
proof -
  obtain g w0 where g: "run_state (get_as (flr_Client r) as_Fleet (mk_key (sdcoreGVK ''Fleet'') ns name)) w = (g, w0)" by force
  have v0: "view w0 = view w" using frameD [OF get_as_frame g] .
  show ?thesis
  proof (cases g)
    case (Inl e)
    with assms g v0 same show ?thesis by (simp add: Fleet_Reconcile_def)
  next
    case (Inr fl)
    obtain errs1 w1 where a: "run_state (for_collect (\<lambda>p. do { e \<leftarrow> applyEdgeSite r fl p; ret (apply_report (fst p) e) }) (fleet_order fl)) w0 = (errs1, w1)" by force
    obtain l w2 where l: "run_state (list_as (flr_Client r) as_EdgeSite (sdcoreGVK ''EdgeSite'')
        [InNamespace (om_Namespace (fl_Meta fl)), MatchingLabels [(fleetLabel, om_Name (fl_Meta fl))]]) w1 = (l, w2)" by force
    have v2: "view w2 = view w1" using frameD [OF list_as_frame l] .
    show ?thesis
    proof (cases l)
      case (Inl e)
      with assms g a l \<open>g = Inr fl\<close> have "run_state (fleet_fail r fl (WrapError ''list managed EdgeSites: '' e)) w2 = (res, w')"
        by (simp add: Fleet_Reconcile_def)
      then obtain x u where "run_state (kStatusUpdate (flr_Client r) (KFleet x)) w2 = (u, w')"
        by (auto simp: fleet_fail_def split: prod.splits)
      with phases [of w0 w2 w1 fl errs1 "[]" "[]" w2 x u] v0 v2 a show ?thesis by simp
    next
      case (Inr owned)
      obtain errs2 w3 where d: "run_state (for_collect (retire r (map fst (desired_sites (fl_Sites fl)))) owned) w2 = (errs2, w3)" by force
      with assms g a l Inr \<open>g = Inr fl\<close> have "run_state (fleet_finish r fl (errs1 @ errs2)) w3 = (res, w')"
        by (simp add: Fleet_Reconcile_def)
      then obtain x u where "run_state (kStatusUpdate (flr_Client r) (KFleet x)) w3 = (u, w')"
        by (auto simp: fleet_finish_def Let_def split: prod.splits if_splits)
      with phases [of w0 w2 w1 fl errs1 owned errs2 w3 x u] v0 v2 a d show ?thesis by simp
    qed
  qed
qed

lemma fleet_keeps:
  assumes "run_state (Fleet_Reconcile r ns name) w = (res, w')"
    and es: "view w k = Some (KEdgeSite es)" and es': "view w' k = Some (KEdgeSite es')"
  shows "derived_part es' = derived_part es"
  using assms(1)
proof (cases rule: Fleet_Reconcile_phases)
  case same
  with es es' show ?thesis by simp
next
  case (phases fl errs1 w1 errs2 owned w2 w3 x u w0)
  from retire_all_keeps [OF phases(4) status_keeps_sites [OF phases(5) es']] phases(2)
  obtain es1 where "view w1 k = Some (KEdgeSite es1)" "derived_part es' = derived_part es1" by auto
  with apply_all_keeps [OF phases(3), of k es] phases(1) es show ?thesis by auto
qed

end

interpretation put_fleet: fleet_world "\<lparr>flr_Client = mem_client, flr_Env = E\<rparr>" cl_view
  for E :: "'x cluster_scheme env"
  by (simp add: fleet_world_def mem.kube_api_axioms)

section \<open>A Fleet of one site\<close>

definition demo_fleet :: Fleet where
  "demo_fleet = \<lparr>fl_Meta = named_meta ''default'' ''f'',
     fl_Sites = [\<lparr>fs_Server = ''10.0.0.4'', fs_User = '''', fs_Role = '''', fs_Name = ''a'', fs_RAN = None\<rparr>],
     fl_Status = \<lparr>fls_Sites = 0, fls_Message = '''', fls_Conditions = []\<rparr>\<rparr>"

text \<open>A site of the Fleet whose entry is gone, and one whose entry is there, with an address already derived.\<close>

definition demo_stale :: EdgeSite where
  "demo_stale = (let s = new_EdgeSite ''default'' ''b'' ''10.0.0.5'' ''edge'' in s\<lparr>es_Meta := (es_Meta s)\<lparr>om_Labels := [(fleetLabel, ''f'')]\<rparr>\<rparr>)"

definition demo_kept :: EdgeSite where
  "demo_kept = (let s = new_EdgeSite ''default'' ''a'' ''10.0.0.9'' ''edge'' in s\<lparr>es_Spec := (es_Spec s)\<lparr>es_N2VIP := ''10.0.0.240''\<rparr>\<rparr>)"

definition demo_fleet_world :: cluster where
  "demo_fleet_world = \<lparr>cl_objects = [KFleet demo_fleet, KEdgeSite demo_stale, KEdgeSite demo_kept], cl_revision = 1\<rparr>"

definition demo_fleet_reconciler :: "cluster FleetReconciler" where
  "demo_fleet_reconciler = \<lparr>flr_Client = mem_client, flr_Env = quiet_env\<rparr>"

lemma demo_fleet_runs:
  "fst (run_state (Fleet_Reconcile demo_fleet_reconciler ''default'' ''f'') demo_fleet_world) = (NoRequeue, None)"
  "cl_view demo_fleet_world (fleetKey ''default'' ''f'') = Some (KFleet demo_fleet)"
  "cl_view demo_fleet_world (fleet_key demo_fleet ''a'') = Some (KEdgeSite demo_kept)"
  "(case cl_view (snd (run_state (Fleet_Reconcile demo_fleet_reconciler ''default'' ''f'') demo_fleet_world)) (fleet_key demo_fleet ''a'')
     of Some (KEdgeSite es) \<Rightarrow> es_Server (es_Spec es) = ''10.0.0.4'' | _ \<Rightarrow> False)"
  by code_simp+

lemma demo_fleet_api: "kube_api (flr_Client demo_fleet_reconciler) cl_view"
    "status_conditions (SetStatusCondition (flr_Env demo_fleet_reconciler))"
  by (simp_all add: demo_fleet_reconciler_def mem.kube_api_axioms quiet_env_def put_condition.status_conditions_axioms)

section \<open>Properties\<close>

text \<open>The order a Fleet's sites are handled in: by name, each name once, and the entry that counts
  for a name is the last one in the list that has a server (entries without one are skipped, an entry
  without a name is named after its server).\<close>

theorem fleet_order_correct:
  "sorted (map fst (fleet_order fl)) \<and> distinct (map fst (fleet_order fl)) \<and>
   (\<forall>n s. (n, s) \<in> set (fleet_order fl) \<longleftrightarrow>
      find (\<lambda>t. fs_Server t \<noteq> '''' \<and> fleet_site_name t = n) (rev (fl_Sites fl)) = Some s)"
  by (simp add: fleet_order_sorted fleet_order_entry map_of_desired)

text \<open>C11. A reconcile of a Fleet that returns no error leaves, for a list of reports that is empty exactly
  when no retry is asked for: every declared entry as an EdgeSite of its namespace with the declared
  server, user, role and RAN and with the Fleet's label, or a report naming it; every EdgeSite with the
  Fleet's label and no entry gone or being deleted, or a report naming it. A failing site never keeps
  the others from being handled, and the status, when it could be written, carries the number of
  sites, the reports and the Ready condition.\<close>

theorem Fleet_Reconcile_correct:
  assumes "kube_api (flr_Client r) view" and "status_conditions (SetStatusCondition (flr_Env r))"
    and "view w (fleetKey ns name) = Some (KFleet fl)"
    and "run_state (Fleet_Reconcile r ns name) w = ((q, None), w')"
  shows "\<exists>errs. fleet_pass view w fl errs w' \<and> q = (if errs = [] then NoRequeue else requeue_seconds 15)
    \<and> (view w' (fleetKey ns name) = Some (KFleet fl)
       \<or> (\<exists>fl'. view w' (fleetKey ns name) = Some (KFleet fl') \<and> reported fl errs (fl_Status fl') \<and> fl_Sites fl' = fl_Sites fl))"
  using fleet_world.fleet_reconciled [OF fleet_world.intro, OF assms(1), OF assms(2), OF assms(3), OF assms(4)] .

theorem Fleet_Reconcile_correct_witness:
  "\<exists>errs w'. run_state (Fleet_Reconcile demo_fleet_reconciler ''default'' ''f'') demo_fleet_world = ((NoRequeue, None), w')
     \<and> errs = [] \<and> fleet_pass cl_view demo_fleet_world demo_fleet errs w'"
proof -
  obtain w' where run: "run_state (Fleet_Reconcile demo_fleet_reconciler ''default'' ''f'') demo_fleet_world = ((NoRequeue, None), w')"
    using demo_fleet_runs(1) by (metis prod.collapse)
  from Fleet_Reconcile_correct [OF demo_fleet_api(1), OF demo_fleet_api(2), OF demo_fleet_runs(2), OF run]
  show ?thesis using run by (auto simp: NoRequeue_def requeue_seconds_def Seconds_def split: if_splits)
qed

text \<open>C34. Whatever its outcome, a reconcile of a Fleet changes of an EdgeSite that was there before and is
  there after nothing but the declared server, user, role, RAN and the labels: the derived addresses,
  the N2 VIP among them, and the owners stay.\<close>

theorem Fleet_Reconcile_keeps_derived:
  assumes "kube_api (flr_Client r) view" and "run_state (Fleet_Reconcile r ns name) w = (res, w')"
    and "view w k = Some (KEdgeSite es)" and "view w' k = Some (KEdgeSite es')"
  shows "derived_part es' = derived_part es"
  using fleet_world.fleet_keeps [OF fleet_world.intro, OF assms(1), OF assms(2), OF assms(3), OF assms(4)] .

theorem Fleet_Reconcile_keeps_derived_witness:
  "\<exists>es. cl_view (snd (run_state (Fleet_Reconcile demo_fleet_reconciler ''default'' ''f'') demo_fleet_world)) (fleet_key demo_fleet ''a'')
     = Some (KEdgeSite es) \<and> es_Server (es_Spec es) = ''10.0.0.4'' \<and> derived_part es = derived_part demo_kept"
proof -
  obtain res w' where run: "run_state (Fleet_Reconcile demo_fleet_reconciler ''default'' ''f'') demo_fleet_world = (res, w')" by (metis surj_pair)
  with demo_fleet_runs(4) obtain es where "cl_view w' (fleet_key demo_fleet ''a'') = Some (KEdgeSite es)" "es_Server (es_Spec es) = ''10.0.0.4''"
    by (auto split: option.splits kobject.splits)
  with Fleet_Reconcile_keeps_derived [OF demo_fleet_api(1), OF run, OF demo_fleet_runs(3)] run show ?thesis by auto
qed

end
