(* ===== verification/Network_Controller.thy ===== *)
theory Network_Controller
  imports Upsert
begin

text \<open>
  The NetworkFabric reconciler, \<open>operator/internal/controller/network_controller.go\<close>: a fabric
  becomes an ipam \<open>NetworkInstance\<close> with its prefixes and an empty \<open>VLANIndex\<close>, both named
  after it. The lemmas show what the cluster holds after a reconcile on every branch, and that a
  second one writes nothing.
\<close>

section \<open>Definitions\<close>

definition networkInstanceGVK :: GVK where
  "networkInstanceGVK = \<lparr>gvk_Group = ''ipam.resource.nephio.org'', gvk_Version = ''v1alpha1'', gvk_Kind = ''NetworkInstance''\<rparr>"

definition vlanIndexGVK :: GVK where
  "vlanIndexGVK = \<lparr>gvk_Group = ''vlan.resource.nephio.org'', gvk_Version = ''v1alpha1'', gvk_Kind = ''VLANIndex''\<rparr>"

record 'w NetworkReconciler =
  nwr_Client :: "'w kclient"
  nwr_Env :: "'w env"

definition fabric_ns :: "NetworkFabric \<Rightarrow> string" where
  "fabric_ns nf = (if om_Namespace (nf_Meta nf) = '''' then ''default'' else om_Namespace (nf_Meta nf))"

text \<open>One entry of \<open>spec.prefixes\<close>: the labels only when there are some.\<close>

definition prefix_entry :: "FabricPrefix \<Rightarrow> json" where
  "prefix_entry p = JObj ([(''prefix'', JStr (fp_Prefix p))]
     @ (if fp_Labels p \<noteq> [] then [(''labels'', JObj (map (\<lambda>(k, v). (k, JStr v)) (fp_Labels p)))] else []))"

text \<open>
  The two backend objects. \<open>SetNestedSlice\<close> and \<open>SetNestedMap\<close> fail only when the path runs
  through a field that is no map, and an object made by \<open>SetGroupVersionKind\<close>, \<open>SetName\<close> and
  \<open>SetNamespace\<close> has no \<open>spec\<close>: the error return after \<open>SetNestedSlice\<close> is never taken.
\<close>

definition network_instance :: "NetworkFabric \<Rightarrow> kobject" where
  "network_instance nf = KUnstructured \<lparr>u_GVK = networkInstanceGVK, u_Meta = named_meta (fabric_ns nf) (om_Name (nf_Meta nf)),
     u_Spec = JObj [(''prefixes'', JList (map prefix_entry (nf_Prefixes nf)))]\<rparr>"

definition vlan_index :: "NetworkFabric \<Rightarrow> kobject" where
  "vlan_index nf = KUnstructured \<lparr>u_GVK = vlanIndexGVK, u_Meta = named_meta (fabric_ns nf) (om_Name (nf_Meta nf)), u_Spec = JObj []\<rparr>"

definition ensure :: "'w NetworkReconciler \<Rightarrow> kobject \<Rightarrow> ('w, error option) io" where
  "ensure r obj = do {
     g \<leftarrow> kGet (nwr_Client r) (key_of obj);
     case g of
       Inl err \<Rightarrow> if IsNotFound err then do { c \<leftarrow> kCreate (nwr_Client r) obj; ret (err_of c) } else ret (Some err)
     | Inr cur \<Rightarrow>
         if spec_unchanged obj cur then ret None
         else do {
           u \<leftarrow> kUpdate (nwr_Client r) (set_version (om_ResourceVersion (meta_of cur)) obj);
           ret (err_of u) } }"

definition fabric_failed :: "'w NetworkReconciler \<Rightarrow> NetworkFabric \<Rightarrow> error \<Rightarrow> NetworkFabric" where
  "fabric_failed r nf err = nf\<lparr>nf_Status := (nf_Status nf)\<lparr>nfs_Conditions :=
     setCondition (nwr_Env r) (nfs_Conditions (nf_Status nf)) ''Ready'' ConditionFalse ''ReconcileFailed'' (Error err) (om_Generation (nf_Meta nf))\<rparr>\<rparr>"

definition network_fail :: "'w NetworkReconciler \<Rightarrow> NetworkFabric \<Rightarrow> error \<Rightarrow> ('w, Result \<times> error option) io" where
  "network_fail r nf err = do {
     u \<leftarrow> kStatusUpdate (nwr_Client r) (KNetworkFabric (fabric_failed r nf err));
     ret (requeue_seconds 15, None) }"

definition fabric_ready :: "'w NetworkReconciler \<Rightarrow> NetworkFabric \<Rightarrow> string \<Rightarrow> NetworkFabric" where
  "fabric_ready r nf now = nf\<lparr>nf_Status := (nf_Status nf)\<lparr>nfs_LastReconcile := now, nfs_Conditions :=
     setCondition (nwr_Env r) (nfs_Conditions (nf_Status nf)) ''Ready'' ConditionTrue ''Reconciled''
       (''backend NetworkInstance + VLANIndex '' @ [CHR 0x27] @ om_Name (nf_Meta nf) @ [CHR 0x27] @ '' ready ('' @ itoa (int (length (nf_Prefixes nf))) @ '' prefixes)'')
       (om_Generation (nf_Meta nf))\<rparr>\<rparr>"

definition Network_Reconcile :: "'w NetworkReconciler \<Rightarrow> string \<Rightarrow> string \<Rightarrow> ('w, Result \<times> error option) io" where
  "Network_Reconcile r ns name = do {
     g \<leftarrow> get_as (nwr_Client r) as_NetworkFabric (mk_key (sdcoreGVK ''NetworkFabric'') ns name);
     case g of Inl err \<Rightarrow> ret (NoRequeue, IgnoreNotFound err)
     | Inr nf \<Rightarrow> do {
         e1 \<leftarrow> ensure r (network_instance nf);
         case e1 of Some err \<Rightarrow> network_fail r nf (WrapError (''reconcile NetworkInstance '' @ om_Name (nf_Meta nf) @ '': '') err)
         | None \<Rightarrow> do {
             e2 \<leftarrow> ensure r (vlan_index nf);
             case e2 of Some err \<Rightarrow> network_fail r nf (WrapError (''reconcile VLANIndex '' @ om_Name (nf_Meta nf) @ '': '') err)
             | None \<Rightarrow> do {
                 now \<leftarrow> now_rfc3339 (nwr_Env r);
                 u \<leftarrow> kStatusUpdate (nwr_Client r) (KNetworkFabric (fabric_ready r nf now));
                 ret (NoRequeue, None) } } } }"

section \<open>The backend objects\<close>

lemma ensure_put_changed: "ensure r x = put_changed (nwr_Client r) x"
  unfolding ensure_def put_changed_def by (rule refl)

lemma backend_keys:
  "key_of (network_instance nf) = mk_key networkInstanceGVK (fabric_ns nf) (om_Name (nf_Meta nf))"
  "key_of (vlan_index nf) = mk_key vlanIndexGVK (fabric_ns nf) (om_Name (nf_Meta nf))"
  by (simp_all add: network_instance_def vlan_index_def key_of_mk_key)

lemma backend_keys_distinct [simp]:
  "key_of (network_instance nf) \<noteq> key_of (vlan_index nf')" "key_of (vlan_index nf') \<noteq> key_of (network_instance nf)"
  "key_of (KNetworkFabric nf'') \<noteq> key_of (network_instance nf)" "key_of (KNetworkFabric nf'') \<noteq> key_of (vlan_index nf)"
  by (simp_all add: backend_keys) (simp_all add: networkInstanceGVK_def vlanIndexGVK_def key_of_mk_key sdcoreGVK_def)

text \<open>The labels of a prefix are a Go map: no key twice.\<close>

definition fabric_wf :: "NetworkFabric \<Rightarrow> bool" where
  "fabric_wf nf \<longleftrightarrow> list_all (\<lambda>p. distinct (map fst (fp_Labels p))) (nf_Prefixes nf)"

lemma json_wf_labels: "distinct (map fst ls) \<Longrightarrow> json_wf (JObj (map (\<lambda>(k, v). (k, JStr v)) ls))"
  by (simp add: list_all_iff split_beta comp_def)

lemma json_wf_backend: "fabric_wf nf \<Longrightarrow> json_wf (JObj [(''prefixes'', JList (map prefix_entry (nf_Prefixes nf)))])"
  using json_wf_labels by (auto simp: fabric_wf_def list_all_iff prefix_entry_def)

text \<open>A backend object that holds what the fabric wants: its spec is the wanted one, entry by entry.\<close>

definition holds :: "kobject \<Rightarrow> kobject \<Rightarrow> bool" where
  "holds x y \<longleftrightarrow> key_of y = key_of x \<and> spec_unchanged x y \<and> om_DeletionTimestamp (meta_of y) = None"

lemma holds_intent:
  assumes "same_intent x y" and "x = KUnstructured u" and "json_wf (u_Spec u)"
  shows "spec_unchanged x y"
proof -
  from assms(1,2) obtain v where "y = KUnstructured v" "u_Spec v = u_Spec u"
    by (cases y) (auto simp: same_intent_def)
  with assms show ?thesis by (simp add: spec_unchanged_def DeepEqual_refl)
qed

lemma holds_backend:
  assumes "fabric_wf nf" and "x = network_instance nf \<or> x = vlan_index nf" and "same_intent x y \<or> spec_unchanged x y"
  shows "spec_unchanged x y"
  using assms holds_intent [of x y] json_wf_backend [of nf] by (auto simp: network_instance_def vlan_index_def)

locale network_world = kube_api "nwr_Client r" view
  for r :: "'w NetworkReconciler" and view +
  assumes now_frame: "frame view (now_rfc3339 (nwr_Env r))"
begin

lemma ensure_effect:
  assumes "run_state (ensure r x) w = (res, w')"
  shows "(res = None \<longrightarrow> \<not> terminating view w (key_of x) \<longrightarrow>
      (\<exists>y. view w' (key_of x) = Some y \<and> (same_intent x y \<or> spec_unchanged x y) \<and> om_DeletionTimestamp (meta_of y) = None))
    \<and> (\<forall>k. k \<noteq> key_of x \<longrightarrow> view w' k = view w k) \<and> (res \<noteq> None \<longrightarrow> view w' = view w)"
  using put_changed_effect assms unfolding ensure_put_changed .

lemma ensure_holds:
  assumes run: "run_state (ensure r x) w = (None, w')" and wf: "fabric_wf nf" "x = network_instance nf \<or> x = vlan_index nf"
    and calm: "\<not> terminating view w (key_of x)"
  shows "\<exists>y. view w' (key_of x) = Some y \<and> holds x y"
proof -
  from ensure_effect [OF run] calm obtain y where y: "view w' (key_of x) = Some y" "same_intent x y \<or> spec_unchanged x y"
    "om_DeletionTimestamp (meta_of y) = None" by auto
  with holds_backend [OF wf, of y] view_key [OF y(1)] show ?thesis by (auto simp: holds_def)
qed

lemma ensure_stable:
  assumes run: "run_state (ensure r x) w = (res, w')" and y: "view w (key_of x) = Some y" "holds x y"
  shows "view w' = view w"
  using put_changed_found [of x w res w' y] run y by (auto simp: ensure_put_changed holds_def)

lemma fabric_read:
  assumes nf: "view w (mk_key (sdcoreGVK ''NetworkFabric'') ns name) = Some (KNetworkFabric nf)"
    and run: "run_state (Network_Reconcile r ns name) w = ((q, None), w')"
  obtains w0 where "view w0 = view w"
    "run_state (get_as (nwr_Client r) as_NetworkFabric (mk_key (sdcoreGVK ''NetworkFabric'') ns name)) w = (Inr nf, w0)"
proof -
  obtain g w0 where g: "run_state (get_as (nwr_Client r) as_NetworkFabric (mk_key (sdcoreGVK ''NetworkFabric'') ns name)) w = (g, w0)" by force
  have v0: "view w0 = view w" using frameD [OF get_as_frame g] .
  have "g = Inr nf"
  proof (cases g)
    case (Inl e)
    with run g have "IsNotFound e" by (auto simp: Network_Reconcile_def IgnoreNotFound_def split: if_splits)
    with get_as_missing [OF g [unfolded Inl]] nf show ?thesis by simp
  next
    case (Inr nf')
    with get_as_ok [OF g [unfolded Inr]] nf show ?thesis by (auto simp: as_simps)
  qed
  with that v0 g show thesis by blast
qed

end

section \<open>The reconcile\<close>

definition fabricKey :: "string \<Rightarrow> string \<Rightarrow> ObjectKey" where
  "fabricKey ns name = mk_key (sdcoreGVK ''NetworkFabric'') ns name"

text \<open>The fabric as stored: as it was, or with the given Ready condition.\<close>

definition fabric_reports ::
    "('w \<Rightarrow> ObjectKey \<Rightarrow> kobject option) \<Rightarrow> 'w \<Rightarrow> ObjectKey \<Rightarrow> NetworkFabric \<Rightarrow> ConditionStatus \<Rightarrow> bool" where
  "fabric_reports view w k nf st \<longleftrightarrow> view w k = Some (KNetworkFabric nf) \<or>
     (\<exists>nf' c. view w k = Some (KNetworkFabric nf') \<and> nf_Prefixes nf' = nf_Prefixes nf
        \<and> find_cond ''Ready'' (nfs_Conditions (nf_Status nf')) = Some c \<and> cond_Status c = st)"

context network_world
begin

lemma fabric_status_written:
  assumes u: "run_state (kStatusUpdate (nwr_Client r) (KNetworkFabric x)) w = (res, w')"
    and v: "view w (key_of (KNetworkFabric x)) = Some (KNetworkFabric nf)"
    and c: "find_cond ''Ready'' (nfs_Conditions (nf_Status x)) = Some c" "cond_Status c = st"
  shows "fabric_reports view w' (key_of (KNetworkFabric x)) nf st"
proof -
  { fix y assume y: "view w' (key_of (KNetworkFabric x)) = Some y" "same_intent (KNetworkFabric nf) y" "put_status y (KNetworkFabric x) = y"
    from y(2) obtain nf' where nf': "y = KNetworkFabric nf'" by (cases y) (auto simp: same_intent_def)
    with y(3) have "nf'\<lparr>nf_Status := nf_Status x\<rparr> = nf'" by (simp add: put_status_def)
    from arg_cong [OF this, of nf_Status] y nf' c have ?thesis by (auto simp: same_intent_def fabric_reports_def) }
  with status_written [OF u v] show ?thesis by (auto simp: fabric_reports_def)
qed

lemma network_failed:
  assumes conds: "status_conditions (SetStatusCondition (nwr_Env r))"
    and v: "view w (key_of (KNetworkFabric nf)) = Some (KNetworkFabric nf)"
    and run: "run_state (network_fail r nf err) w = ((q, e), w')"
  shows "q = requeue_seconds 15 \<and> e = None \<and> fabric_reports view w' (key_of (KNetworkFabric nf)) nf ConditionFalse"
proof -
  have k: "key_of (KNetworkFabric (fabric_failed r nf err)) = key_of (KNetworkFabric nf)"
    by (simp add: key_of_def fabric_failed_def)
  obtain u w1 where u: "run_state (kStatusUpdate (nwr_Client r) (KNetworkFabric (fabric_failed r nf err))) w = (u, w1)" by force
  with run have "q = requeue_seconds 15" "e = None" "w' = w1" by (auto simp: network_fail_def)
  with fabric_status_written [OF u, unfolded k, OF v] show ?thesis
    by (simp add: fabric_failed_def setCondition_found [OF conds])
qed

lemma network_fail_writes:
  assumes "run_state (network_fail r nf err) w = (res, w')"
  shows "\<exists>x u. key_of (KNetworkFabric x) = key_of (KNetworkFabric nf) \<and> run_state (kStatusUpdate (nwr_Client r) (KNetworkFabric x)) w = (u, w')"
proof -
  obtain u w1 where "run_state (kStatusUpdate (nwr_Client r) (KNetworkFabric (fabric_failed r nf err))) w = (u, w1)" by force
  moreover from this assms have "w1 = w'" by (simp add: network_fail_def)
  moreover have "key_of (KNetworkFabric (fabric_failed r nf err)) = key_of (KNetworkFabric nf)" by (simp add: key_of_def fabric_failed_def)
  ultimately show ?thesis by blast
qed

lemma network_reconciled:
  assumes conds: "status_conditions (SetStatusCondition (nwr_Env r))"
    and nf: "view w (fabricKey ns name) = Some (KNetworkFabric nf)" and wf: "fabric_wf nf"
    and calm: "\<not> terminating view w (key_of (network_instance nf))" "\<not> terminating view w (key_of (vlan_index nf))"
    and run: "run_state (Network_Reconcile r ns name) w = ((q, None), w')"
  shows "if q = NoRequeue
    then (\<exists>y. view w' (key_of (network_instance nf)) = Some y \<and> holds (network_instance nf) y)
      \<and> (\<exists>y. view w' (key_of (vlan_index nf)) = Some y \<and> holds (vlan_index nf) y)
      \<and> fabric_reports view w' (fabricKey ns name) nf ConditionTrue
    else q = requeue_seconds 15 \<and> fabric_reports view w' (fabricKey ns name) nf ConditionFalse"
proof -
  have nr: "requeue_seconds 15 \<noteq> NoRequeue" by (simp add: NoRequeue_def requeue_seconds_def Seconds_def)
  have fk: "key_of (KNetworkFabric nf) = fabricKey ns name" using view_key [OF nf] .
  obtain w0 where v0: "view w0 = view w" and g: "run_state (get_as (nwr_Client r) as_NetworkFabric (mk_key (sdcoreGVK ''NetworkFabric'') ns name)) w = (Inr nf, w0)"
    using fabric_read [OF nf [unfolded fabricKey_def] run] .
  obtain e1 w1 where e1: "run_state (ensure r (network_instance nf)) w0 = (e1, w1)" by force
  have f1: "view w1 (key_of (KNetworkFabric nf)) = Some (KNetworkFabric nf)"
    using ensure_effect [OF e1] v0 nf fk by (metis backend_keys_distinct(3))
  show ?thesis
  proof (cases e1)
    case (Some err)
    with run g e1 have "run_state (network_fail r nf (WrapError (''reconcile NetworkInstance '' @ om_Name (nf_Meta nf) @ '': '') err)) w1 = ((q, None), w')"
      by (simp add: Network_Reconcile_def)
    from network_failed [OF conds f1 this] fk nr show ?thesis by simp
  next
    case None
    obtain e2 w2 where e2: "run_state (ensure r (vlan_index nf)) w1 = (e2, w2)" by force
    have f2: "view w2 (key_of (KNetworkFabric nf)) = Some (KNetworkFabric nf)"
      using ensure_effect [OF e2] f1 by simp
    show ?thesis
    proof (cases e2)
      case (Some err)
      with run g e1 None e2 have "run_state (network_fail r nf (WrapError (''reconcile VLANIndex '' @ om_Name (nf_Meta nf) @ '': '') err)) w2 = ((q, None), w')"
        by (simp add: Network_Reconcile_def)
      from network_failed [OF conds f2 this] fk nr show ?thesis by simp
    next
      case None
      obtain now w3 where n: "run_state (now_rfc3339 (nwr_Env r)) w2 = (now, w3)" by force
      obtain u w4 where u: "run_state (kStatusUpdate (nwr_Client r) (KNetworkFabric (fabric_ready r nf now))) w3 = (u, w4)" by force
      have q: "q = NoRequeue" "w' = w4" using run g e1 \<open>e1 = None\<close> e2 None n u by (simp_all add: Network_Reconcile_def)
      have k: "key_of (KNetworkFabric (fabric_ready r nf now)) = key_of (KNetworkFabric nf)"
        by (simp add: key_of_def fabric_ready_def)
      note v3 = frameD [OF now_frame n]
      have "view w4 x = view w2 x" if "x \<noteq> key_of (KNetworkFabric nf)" for x
        using status_other [OF u, of x] that v3 k by simp
      then have same: "view w4 (key_of (network_instance nf)) = view w1 (key_of (network_instance nf))"
          "view w4 (key_of (vlan_index nf)) = view w2 (key_of (vlan_index nf))"
        using ensure_effect [OF e2] by (metis backend_keys_distinct)+
      have "\<exists>y. view w1 (key_of (network_instance nf)) = Some y \<and> holds (network_instance nf) y"
        using ensure_holds [OF e1 [unfolded \<open>e1 = None\<close>] wf] calm(1) v0 by (simp add: terminating_def)
      moreover have "\<exists>y. view w2 (key_of (vlan_index nf)) = Some y \<and> holds (vlan_index nf) y"
        using ensure_holds [OF e2 [unfolded None] wf] calm(2) v0 ensure_effect [OF e1] by (simp add: terminating_def)
      moreover have "fabric_reports view w4 (fabricKey ns name) nf ConditionTrue"
        using fabric_status_written [OF u, unfolded k, of nf] f2 v3 fk by (simp add: fabric_ready_def setCondition_found [OF conds])
      ultimately show ?thesis using q same by simp
    qed
  qed
qed

text \<open>Once the backend holds what the fabric wants, a reconcile writes neither object again.\<close>

lemma network_stable:
  assumes nf: "view w (fabricKey ns name) = Some (KNetworkFabric nf)"
    and y: "view w (key_of (network_instance nf)) = Some y1" "holds (network_instance nf) y1"
      "view w (key_of (vlan_index nf)) = Some y2" "holds (vlan_index nf) y2"
    and run: "run_state (Network_Reconcile r ns name) w = ((q, None), w')" and k: "k \<noteq> fabricKey ns name"
  shows "view w' k = view w k"
proof -
  have fk: "key_of (KNetworkFabric nf) = fabricKey ns name" using view_key [OF nf] .
  obtain w0 where v0: "view w0 = view w" and g: "run_state (get_as (nwr_Client r) as_NetworkFabric (mk_key (sdcoreGVK ''NetworkFabric'') ns name)) w = (Inr nf, w0)"
    using fabric_read [OF nf [unfolded fabricKey_def] run] .
  obtain e1 w1 where e1: "run_state (ensure r (network_instance nf)) w0 = (e1, w1)" by force
  have v1: "view w1 = view w" using ensure_stable [OF e1, of y1] v0 y by simp
  obtain e2 w2 where e2: "run_state (ensure r (vlan_index nf)) w1 = (e2, w2)" by force
  have v2: "view w2 = view w" using ensure_stable [OF e2, of y2] v1 y by simp
  obtain now w3 where n: "run_state (now_rfc3339 (nwr_Env r)) w2 = (now, w3)" by force
  note v3 = frameD [OF now_frame n]
  have "\<exists>x u v. key_of (KNetworkFabric x) = key_of (KNetworkFabric nf) \<and> view v = view w
      \<and> run_state (kStatusUpdate (nwr_Client r) (KNetworkFabric x)) v = (u, w')"
  proof (cases e1)
    case (Some err)
    with run g e1 have "run_state (network_fail r nf (WrapError (''reconcile NetworkInstance '' @ om_Name (nf_Meta nf) @ '': '') err)) w1 = ((q, None), w')"
      by (simp add: Network_Reconcile_def)
    from network_fail_writes [OF this] v1 show ?thesis by blast
  next
    case e1n: None
    show ?thesis
    proof (cases e2)
      case (Some err)
      with run g e1 e1n e2 have "run_state (network_fail r nf (WrapError (''reconcile VLANIndex '' @ om_Name (nf_Meta nf) @ '': '') err)) w2 = ((q, None), w')"
        by (simp add: Network_Reconcile_def)
      from network_fail_writes [OF this] v2 show ?thesis by blast
    next
      case None
      obtain u w4 where "run_state (kStatusUpdate (nwr_Client r) (KNetworkFabric (fabric_ready r nf now))) w3 = (u, w4)" by force
      with run g e1 e1n e2 None n have "run_state (kStatusUpdate (nwr_Client r) (KNetworkFabric (fabric_ready r nf now))) w3 = (u, w')"
        by (simp add: Network_Reconcile_def)
      moreover have "key_of (KNetworkFabric (fabric_ready r nf now)) = key_of (KNetworkFabric nf)" by (simp add: key_of_def fabric_ready_def)
      ultimately show ?thesis using v2 v3 by metis
    qed
  qed
  with k show ?thesis using status_other fk by metis
qed

end

section \<open>A fabric in memory\<close>

definition demo_fabric :: NetworkFabric where
  "demo_fabric = \<lparr>nf_Meta = named_meta ''default'' ''vpc'',
     nf_Prefixes = [\<lparr>fp_Prefix = ''10.0.0.0/8'', fp_Labels = [(''nephio.org/network-name'', ''vpc'')]\<rparr>],
     nf_Status = \<lparr>nfs_LastReconcile = '''', nfs_Conditions = []\<rparr>\<rparr>"

definition demo_fabric_world :: cluster where
  "demo_fabric_world = \<lparr>cl_objects = [KNetworkFabric demo_fabric], cl_revision = 1\<rparr>"

definition demo_network_reconciler :: "cluster NetworkReconciler" where
  "demo_network_reconciler = \<lparr>nwr_Client = mem_client, nwr_Env = quiet_env\<rparr>"

interpretation demo_network: network_world demo_network_reconciler cl_view
  by (simp add: network_world_def network_world_axioms_def demo_network_reconciler_def mem.kube_api_axioms quiet_env_def frame_return)

lemma demo_network_conds: "status_conditions (SetStatusCondition (nwr_Env demo_network_reconciler))"
  by (simp add: demo_network_reconciler_def quiet_env_def put_condition.status_conditions_axioms)

text \<open>The same cluster with the backend already in place.\<close>

definition demo_fabric_done :: cluster where
  "demo_fabric_done = \<lparr>cl_objects = [KNetworkFabric demo_fabric, network_instance demo_fabric, vlan_index demo_fabric], cl_revision = 3\<rparr>"

lemma demo_fabric_runs:
  "cl_view demo_fabric_world (fabricKey ''default'' ''vpc'') = Some (KNetworkFabric demo_fabric)"
  "fabric_wf demo_fabric"
  "cl_view demo_fabric_world (key_of (network_instance demo_fabric)) = None"
  "cl_view demo_fabric_world (key_of (vlan_index demo_fabric)) = None"
  "fst (run_state (Network_Reconcile demo_network_reconciler ''default'' ''vpc'') demo_fabric_world) = (NoRequeue, None)"
  "fst (run_state (Network_Reconcile demo_network_reconciler ''default'' ''vpc'') demo_fabric_done) = (NoRequeue, None)"
  "cl_view demo_fabric_done (fabricKey ''default'' ''vpc'') = Some (KNetworkFabric demo_fabric)"
  "cl_view demo_fabric_done (key_of (network_instance demo_fabric)) = Some (network_instance demo_fabric)"
  "cl_view demo_fabric_done (key_of (vlan_index demo_fabric)) = Some (vlan_index demo_fabric)"
  "holds (network_instance demo_fabric) (network_instance demo_fabric)"
  "holds (vlan_index demo_fabric) (vlan_index demo_fabric)"
  by code_simp+

section \<open>Properties\<close>

text \<open>C12. A reconcile of a NetworkFabric that asks for no retry has put a \<open>NetworkInstance\<close> with exactly
  the fabric's prefixes and labels and a \<open>VLANIndex\<close> with an empty spec into the fabric's namespace
  (\<open>default\<close> when it has none), and reports Ready; one that asks for a retry in 15 seconds reports
  Ready false. (A status that could not be written is left as it was.)\<close>

theorem Network_Reconcile_correct:
  assumes "network_world r view" and "status_conditions (SetStatusCondition (nwr_Env r))"
    and "view w (fabricKey ns name) = Some (KNetworkFabric nf)" and "fabric_wf nf"
    and "\<not> terminating view w (key_of (network_instance nf))" and "\<not> terminating view w (key_of (vlan_index nf))"
    and "run_state (Network_Reconcile r ns name) w = ((q, None), w')"
  shows "if q = NoRequeue
    then (\<exists>y. view w' (key_of (network_instance nf)) = Some y \<and> holds (network_instance nf) y)
      \<and> (\<exists>y. view w' (key_of (vlan_index nf)) = Some y \<and> holds (vlan_index nf) y)
      \<and> fabric_reports view w' (fabricKey ns name) nf ConditionTrue
    else q = requeue_seconds 15 \<and> fabric_reports view w' (fabricKey ns name) nf ConditionFalse"
  using network_world.network_reconciled [OF assms(1), OF assms(2), OF assms(3), OF assms(4), OF assms(5), OF assms(6), OF assms(7)] .

theorem Network_Reconcile_correct_witness:
  "\<exists>y w'. run_state (Network_Reconcile demo_network_reconciler ''default'' ''vpc'') demo_fabric_world = ((NoRequeue, None), w')
     \<and> cl_view w' (key_of (network_instance demo_fabric)) = Some y \<and> holds (network_instance demo_fabric) y"
proof -
  obtain w' where run: "run_state (Network_Reconcile demo_network_reconciler ''default'' ''vpc'') demo_fabric_world = ((NoRequeue, None), w')"
    using demo_fabric_runs(5) by (metis prod.collapse)
  have "\<not> terminating cl_view demo_fabric_world (key_of (network_instance demo_fabric))"
    "\<not> terminating cl_view demo_fabric_world (key_of (vlan_index demo_fabric))"
    by (simp_all add: terminating_def demo_fabric_runs)
  from Network_Reconcile_correct [OF demo_network.network_world_axioms, OF demo_network_conds, OF demo_fabric_runs(1), OF demo_fabric_runs(2), OF this(1), OF this(2), OF run]
  show ?thesis using run by auto
qed

text \<open>Once the backend objects hold what the fabric wants, a reconcile leaves every object but the fabric
  itself exactly as it was, resource versions included: the 15-second and watch-driven runs cause no
  writes to the resource backend.\<close>

theorem Network_Reconcile_no_churn:
  assumes "network_world r view" and "view w (fabricKey ns name) = Some (KNetworkFabric nf)"
    and "view w (key_of (network_instance nf)) = Some y1" and "holds (network_instance nf) y1"
    and "view w (key_of (vlan_index nf)) = Some y2" and "holds (vlan_index nf) y2"
    and "run_state (Network_Reconcile r ns name) w = ((q, None), w')" and "k \<noteq> fabricKey ns name"
  shows "view w' k = view w k"
  using network_world.network_stable [OF assms(1), OF assms(2), OF assms(3), OF assms(4), OF assms(5), OF assms(6), OF assms(7), OF assms(8)] .

theorem Network_Reconcile_no_churn_witness:
  "cl_view (snd (run_state (Network_Reconcile demo_network_reconciler ''default'' ''vpc'') demo_fabric_done)) (key_of (network_instance demo_fabric))
     = Some (network_instance demo_fabric)"
proof -
  obtain w' where run: "run_state (Network_Reconcile demo_network_reconciler ''default'' ''vpc'') demo_fabric_done = ((NoRequeue, None), w')"
    using demo_fabric_runs(6) by (metis prod.collapse)
  have k: "key_of (network_instance demo_fabric) \<noteq> fabricKey ''default'' ''vpc''"
    by (simp add: backend_keys fabricKey_def networkInstanceGVK_def sdcoreGVK_def)
  from Network_Reconcile_no_churn [OF demo_network.network_world_axioms, OF demo_fabric_runs(7), OF demo_fabric_runs(8), OF demo_fabric_runs(10),
      OF demo_fabric_runs(9), OF demo_fabric_runs(11), OF run, OF k]
  show ?thesis using run demo_fabric_runs(8) by simp
qed

end
