(* ===== verification/Clientset.thy ===== *)
theory Clientset
  imports Kube_Laws
begin

text \<open>
  The typed \<open>kubernetes.Clientset\<close> some controllers use beside the controller-runtime client: the
  REST verbs on one cluster's API server (the operations of a \<^typ>\<open>'w kclient\<close>, a deletion by
  name being a deletion of the object with that key), the listing of pods by a label selector that
  the server parses, the logs of a container and the execution of a command in one. It is library
  code, hence a parameter.
\<close>

text \<open>
  An execution fails when \<open>NewSPDYExecutor\<close> cannot build the request, or when the stream fails:
  then what the command wrote to its standard error is known.
\<close>

datatype exec_outcome = ExecBuildError error | ExecStreamError string error | ExecDone

record ExecRequest =
  ex_Namespace :: string
  ex_Pod :: string
  ex_Container :: string
  ex_Command :: "string list"

record 'w Clientset =
  cs_Rest :: "'w kclient"
  cs_ListPods :: "string \<Rightarrow> string \<Rightarrow> ('w, error + Pod list) io"
  cs_GetLogs :: "string \<Rightarrow> string \<Rightarrow> string \<Rightarrow> int \<Rightarrow> ('w, error + string) io"
  cs_Exec :: "ExecRequest \<Rightarrow> ('w, exec_outcome) io"

text \<open>A deletion by kind, namespace and name.\<close>

definition deleteService :: "'w Clientset \<Rightarrow> string \<Rightarrow> string \<Rightarrow> ('w, error option) io" where
  "deleteService cs ns name = kDelete (cs_Rest cs) (KService \<lparr>svc_Meta = named_meta ns name, svc_Selector = [], svc_Ports = [],
     svc_ClusterIP = '''', svc_IngressIPs = []\<rparr>)"

definition deleteEndpointSlice :: "'w Clientset \<Rightarrow> string \<Rightarrow> string \<Rightarrow> ('w, error option) io" where
  "deleteEndpointSlice cs ns name = kDelete (cs_Rest cs) (KEndpointSlice \<lparr>eps_Meta = named_meta ns name, eps_AddressType = '''',
     eps_Addresses = [], eps_Ready = False, eps_PortName = '''', eps_Protocol = '''', eps_Port = 0\<rparr>)"

definition serviceKey :: "string \<Rightarrow> string \<Rightarrow> ObjectKey" where
  "serviceKey ns name = mk_key (coreGVK ''Service'') ns name"

definition epsKey :: "string \<Rightarrow> string \<Rightarrow> ObjectKey" where
  "epsKey ns name = mk_key epsGVK ns name"

end
