(* ===== verification/MeshLink_Controller.thy ===== *)
theory MeshLink_Controller
  imports Clientset Git_Delivery Upsert
begin

text \<open>
  The MeshLink reconciler, \<open>operator/internal/controller/meshlink_controller.go\<close> with
  \<open>mesh_clustermesh.go\<close> and \<open>mesh_helpers.go\<close>: the services that connect an edge cluster and a
  control-plane cluster (N2: \<open>amf-cp\<close> on both sides, N4: a service and an endpoint slice for the
  edge's UPF), the shared CA delivered through Git, and the finalizer that lets a deletion clean up
  the peer clusters first.
\<close>

section \<open>Definitions\<close>

definition meshFinalizer :: string where
  "meshFinalizer = ''sdcore.nephio.io/meshlink-cleanup''"

definition requeueMesh :: Result where
  "requeueMesh = requeue_seconds 20"

text \<open>
  What the reconciler uses of the libraries: \<open>ctrl.GetConfig\<close>, \<open>clientcmd.RESTConfigFromKubeConfig\<close>,
  \<open>kubernetes.NewForConfig\<close> and the finalizer functions of \<open>controllerutil\<close>.
\<close>

record ('w, 'c) mesh_lib =
  GetConfig :: "('w, error + 'c) io"
  RESTConfigFromKubeConfig :: "string \<Rightarrow> error + 'c"
  NewForConfig :: "'c \<Rightarrow> error + 'w Clientset"
  ContainsFinalizer :: "string list \<Rightarrow> string \<Rightarrow> bool"
  AddFinalizer :: "string list \<Rightarrow> string \<Rightarrow> string list \<times> bool"
  RemoveFinalizer :: "string list \<Rightarrow> string \<Rightarrow> string list"

record ('w, 'c) MeshLinkReconciler =
  mlr_Client :: "'w kclient"
  mlr_Env :: "'w env"
  mlr_Lib :: "('w, 'c) mesh_lib"

definition kubeconfig_key :: "string \<Rightarrow> ObjectKey" where
  "kubeconfig_key name = mk_key (coreGVK ''Secret'') ''default'' (''cluster-'' @ name @ ''-kubeconfig'')"

definition clusterClient :: "('w, 'c) MeshLinkReconciler \<Rightarrow> string \<Rightarrow> ('w, error + 'w Clientset) io" where
  "clusterClient r name =
     (if name = '''' \<or> name = ''mgmt'' then do {
        g \<leftarrow> GetConfig (mlr_Lib r);
        ret (case g of Inl e \<Rightarrow> Inl e | Inr cfg \<Rightarrow> NewForConfig (mlr_Lib r) cfg) }
      else do {
        s \<leftarrow> get_as (mlr_Client r) as_Secret (kubeconfig_key name);
        ret (case s of Inl e \<Rightarrow> Inl e
          | Inr sec \<Rightarrow> (case map_of (sec_Data sec) ''value'' of
              None \<Rightarrow> Inl (ErrorString (''kubeconfig secret for '' @ name @ '' has no '' @ [CHR 0x27] @ ''value'' @ [CHR 0x27]))
            | Some raw \<Rightarrow> (case RESTConfigFromKubeConfig (mlr_Lib r) raw of Inl e \<Rightarrow> Inl e
                | Inr cfg \<Rightarrow> NewForConfig (mlr_Lib r) cfg))) })"

definition owned_service :: "Service \<Rightarrow> Service \<Rightarrow> Service" where
  "owned_service svc cur = cur\<lparr>svc_Meta := (svc_Meta cur)\<lparr>om_Annotations := om_Annotations (svc_Meta svc)\<rparr>,
     svc_Selector := svc_Selector svc, svc_Ports := svc_Ports svc\<rparr>"

text \<open>An error of the first read that is not a missing object is not returned: the service is read again.\<close>

definition apply_service :: "'w Clientset \<Rightarrow> Service \<Rightarrow> ('w, error option) io" where
  "apply_service cs svc = do {
     let k = serviceKey ''default'' (om_Name (svc_Meta svc));
     g \<leftarrow> get_as (cs_Rest cs) as_Service k;
     if (case g of Inl err \<Rightarrow> IsNotFound err | Inr x \<Rightarrow> False)
     then do { c \<leftarrow> kCreate (cs_Rest cs) (KService svc); ret (err_of c) }
     else do {
       g2 \<leftarrow> get_as (cs_Rest cs) as_Service k;
       case g2 of Inl err \<Rightarrow> ret (Some err)
       | Inr cur \<Rightarrow> do { u \<leftarrow> kUpdate (cs_Rest cs) (KService (owned_service svc cur)); ret (err_of u) } } }"

definition amf_service :: "string \<Rightarrow> Service" where
  "amf_service shared = \<lparr>svc_Meta = (named_meta ''default'' ''amf-cp'')\<lparr>om_Annotations :=
       [(''service.cilium.io/global'', ''true''), (''service.cilium.io/shared'', shared)]\<rparr>,
     svc_Selector = [(''app'', ''amf'')],
     svc_Ports = [\<lparr>sp_Name = ''n2'', sp_Protocol = ''SCTP'', sp_Port = 38412, sp_TargetPort = 38412\<rparr>],
     svc_ClusterIP = '''', svc_IngressIPs = []\<rparr>"

definition ensureAmfGlobal :: "'w Clientset \<Rightarrow> string \<Rightarrow> ('w, error option) io" where
  "ensureAmfGlobal cs shared = apply_service cs (amf_service shared)"

definition n4_service :: "string \<Rightarrow> Service" where
  "n4_service name = \<lparr>svc_Meta = named_meta ''default'' name, svc_Selector = [],
     svc_Ports = [\<lparr>sp_Name = ''pfcp'', sp_Protocol = ''UDP'', sp_Port = 8805, sp_TargetPort = 8805\<rparr>],
     svc_ClusterIP = '''', svc_IngressIPs = []\<rparr>"

definition n4_endpoints :: "string \<Rightarrow> string \<Rightarrow> EndpointSlice" where
  "n4_endpoints name ip = \<lparr>eps_Meta = (named_meta ''default'' (name @ ''-x''))\<lparr>om_Labels := [(''kubernetes.io/service-name'', name)]\<rparr>,
     eps_AddressType = ''IPv4'', eps_Addresses = [ip], eps_Ready = True, eps_PortName = ''pfcp'', eps_Protocol = ''UDP'', eps_Port = 8805\<rparr>"

definition ensureN4Endpoint :: "'w Clientset \<Rightarrow> string \<Rightarrow> string \<Rightarrow> ('w, error option) io" where
  "ensureN4Endpoint cs name ip = do {
     e \<leftarrow> apply_service cs (n4_service name);
     case e of Some err \<Rightarrow> ret (Some err)
     | None \<Rightarrow> do {
         g \<leftarrow> get_as (cs_Rest cs) as_EndpointSlice (epsKey ''default'' (name @ ''-x''));
         if (case g of Inl err \<Rightarrow> IsNotFound err | Inr x \<Rightarrow> False)
         then do { c \<leftarrow> kCreate (cs_Rest cs) (KEndpointSlice (n4_endpoints name ip)); ret (err_of c) }
         else do { u \<leftarrow> kUpdate (cs_Rest cs) (KEndpointSlice (n4_endpoints name ip)); ret (err_of u) } } }"

text \<open>The pod's address; no pod at all is the empty address without an error.\<close>

definition podIP :: "'w Clientset \<Rightarrow> string \<Rightarrow> ('w, error + string) io" where
  "podIP cs selector = do {
     l \<leftarrow> cs_ListPods cs ''default'' selector;
     ret (case l of Inl e \<Rightarrow> Inl e | Inr [] \<Rightarrow> Inr '''' | Inr (p # ps) \<Rightarrow> Inr (pod_IP p)) }"

definition mesh_upf_name :: "MeshLink \<Rightarrow> string" where
  "mesh_upf_name ml = (if ml_UPFName (ml_Spec ml) = '''' then ''upf-'' @ ml_Edge (ml_Spec ml) else ml_UPFName (ml_Spec ml))"

definition deliverViaGit :: "('w, 'c) MeshLinkReconciler \<Rightarrow> string \<Rightarrow> string \<Rightarrow> string \<Rightarrow> ('w, error option) io" where
  "deliverViaGit r repo path yaml = gitPut (mlr_Env r) (mlr_Client r) repo path yaml"

text \<open>The loop over the two repositories of the retired file; \<open>Inl\<close> is the panic of \<^const>\<open>removeFromGit\<close>.\<close>

fun retire_legacy :: "('w, 'c) MeshLinkReconciler \<Rightarrow> string list \<Rightarrow> ('w, string + error option) io" where
  "retire_legacy r [] = ret (Inr None)"
| "retire_legacy r (repo # repos) = do {
     e \<leftarrow> removeFromGit (mlr_Env r) (mlr_Client r) repo ''clustermesh/cilium-clustermesh.yaml'';
     case e of Inl p \<Rightarrow> ret (Inl p)
     | Inr (Some err) \<Rightarrow> ret (Inr (Some (WrapError (''retire legacy cilium-clustermesh from '' @ repo @ '': '') err)))
     | Inr None \<Rightarrow> retire_legacy r repos }"

definition caPath :: string where
  "caPath = ''clustermesh/cilium-ca.yaml''"

definition cilium_ca_key :: ObjectKey where
  "cilium_ca_key = mk_key (coreGVK ''Secret'') ''kube-system'' ''cilium-ca''"

definition ensureClusterMesh :: "('w, 'c) MeshLinkReconciler \<Rightarrow> MeshLink \<Rightarrow> 'w Clientset \<Rightarrow> ('w, string + error option) io" where
  "ensureClusterMesh r ml cpCS =
     (if ml_Edge (ml_Spec ml) = '''' \<or> ml_Edge (ml_Spec ml) = ''mgmt'' then ret (Inr None)
      else do {
        let cp = (if ml_ControlPlane (ml_Spec ml) = '''' then ''mgmt'' else ml_ControlPlane (ml_Spec ml));
        s \<leftarrow> get_as (cs_Rest cpCS) as_Secret cilium_ca_key;
        case s of Inl err \<Rightarrow> ret (Inr (Some (WrapError ''read control-plane cilium-ca: '' err)))
        | Inr ca \<Rightarrow> do {
            e \<leftarrow> deliverViaGit r (deployRepoFor (ml_Edge (ml_Spec ml))) caPath
                   (secretYAML ''cilium-ca'' ''kube-system'' (sec_Data ca));
            case e of Some err \<Rightarrow> ret (Inr (Some (WrapError ''deliver shared cilium-ca to edge repo: '' err)))
            | None \<Rightarrow> retire_legacy r [deployRepoFor cp, deployRepoFor (ml_Edge (ml_Spec ml))] } })"

text \<open>Errors of the deletions are swallowed: a peer that is gone must not keep the MeshLink.\<close>

definition cleanupRemote :: "('w, 'c) MeshLinkReconciler \<Rightarrow> MeshLink \<Rightarrow> ('w, unit) io" where
  "cleanupRemote r ml = do {
     cp \<leftarrow> clusterClient r (ml_ControlPlane (ml_Spec ml));
     u \<leftarrow> (case cp of Inl err \<Rightarrow> ret ()
       | Inr cs \<Rightarrow> do {
           e1 \<leftarrow> deleteService cs ''default'' (mesh_upf_name ml);
           e2 \<leftarrow> deleteEndpointSlice cs ''default'' (mesh_upf_name ml @ ''-x'');
           e3 \<leftarrow> deleteService cs ''default'' ''amf-cp'';
           ret () });
     edge \<leftarrow> clusterClient r (ml_Edge (ml_Spec ml));
     case edge of Inl err \<Rightarrow> ret ()
     | Inr cs \<Rightarrow> do { e4 \<leftarrow> deleteService cs ''default'' ''amf-cp''; ret () } }"

definition mesh_failed :: "('w, 'c) MeshLinkReconciler \<Rightarrow> MeshLink \<Rightarrow> string \<Rightarrow> error \<Rightarrow> MeshLink" where
  "mesh_failed r ml what err = ml\<lparr>ml_Status := (ml_Status ml)\<lparr>mls_Phase := ''Failed'', mls_Message := what @ '': '' @ Error err,
     mls_Conditions := setCondition (mlr_Env r) (mls_Conditions (ml_Status ml)) ''Ready'' ConditionFalse (what @ ''Failed'')
       (what @ '': '' @ Error err) (om_Generation (ml_Meta ml))\<rparr>\<rparr>"

definition mesh_fail :: "('w, 'c) MeshLinkReconciler \<Rightarrow> MeshLink \<Rightarrow> string \<Rightarrow> error \<Rightarrow> ('w, Result \<times> error option) io" where
  "mesh_fail r ml what err = do {
     u \<leftarrow> kStatusUpdate (mlr_Client r) (KMeshLink (mesh_failed r ml what err));
     ret (requeueMesh, None) }"

definition mesh_wired :: "('w, 'c) MeshLinkReconciler \<Rightarrow> MeshLink \<Rightarrow> MeshLink" where
  "mesh_wired r ml = ml\<lparr>ml_Status := (ml_Status ml)\<lparr>mls_Phase := ''N4Wired'',
     mls_Message := ''N2 amf-cp + N4 '' @ mesh_upf_name ml @ '' wired ('' @ ml_Edge (ml_Spec ml) @ '' <-> '' @ ml_ControlPlane (ml_Spec ml) @ '')'',
     mls_Conditions := setCondition (mlr_Env r) (mls_Conditions (ml_Status ml)) ''Ready'' ConditionTrue ''Wired''
       (''N2 amf-cp + N4 '' @ mesh_upf_name ml @ '' wired between '' @ ml_Edge (ml_Spec ml) @ '' and '' @ ml_ControlPlane (ml_Spec ml))
       (om_Generation (ml_Meta ml))\<rparr>\<rparr>"

text \<open>The wiring of the two clusters: \<open>Inr None\<close> when every step succeeded, else the failing step and its error.\<close>

definition mesh_wire :: "('w, 'c) MeshLinkReconciler \<Rightarrow> MeshLink \<Rightarrow> 'w Clientset \<Rightarrow> 'w Clientset \<Rightarrow> ('w, string + (string \<times> error) option) io" where
  "mesh_wire r ml edgeCS cpCS = do {
     m \<leftarrow> ensureClusterMesh r ml cpCS;
     case m of Inl p \<Rightarrow> ret (Inl p)
     | Inr (Some err) \<Rightarrow> ret (Inr (Some (''clustermesh'', err)))
     | Inr None \<Rightarrow> do {
         e1 \<leftarrow> ensureAmfGlobal cpCS ''true'';
         case e1 of Some err \<Rightarrow> ret (Inr (Some (''amf-cp export'', err)))
         | None \<Rightarrow> do {
             e2 \<leftarrow> ensureAmfGlobal edgeCS ''false'';
             case e2 of Some err \<Rightarrow> ret (Inr (Some (''amf-cp consume'', err)))
             | None \<Rightarrow> do {
                 ip \<leftarrow> podIP edgeCS ''app=upf'';
                 case ip of Inl err \<Rightarrow> ret (Inr None)
                 | Inr a \<Rightarrow>
                     if a = '''' then ret (Inr None)
                     else do {
                       e3 \<leftarrow> ensureN4Endpoint cpCS (mesh_upf_name ml) a;
                       ret (Inr (case e3 of Some err \<Rightarrow> Some (''N4 endpoint'', err) | None \<Rightarrow> None)) } } } } }"

text \<open>The reconcile of a MeshLink that is not being deleted and carries the finalizer.\<close>

definition mesh_connect :: "('w, 'c) MeshLinkReconciler \<Rightarrow> MeshLink \<Rightarrow> ('w, string + Result \<times> error option) io" where
  "mesh_connect r ml = do {
     edge \<leftarrow> clusterClient r (ml_Edge (ml_Spec ml));
     case edge of Inl err \<Rightarrow> do { f \<leftarrow> mesh_fail r ml ''edge client'' err; ret (Inr f) }
     | Inr edgeCS \<Rightarrow> do {
         cp \<leftarrow> clusterClient r (ml_ControlPlane (ml_Spec ml));
         case cp of Inl err \<Rightarrow> do { f \<leftarrow> mesh_fail r ml ''control-plane client'' err; ret (Inr f) }
         | Inr cpCS \<Rightarrow> do {
             m \<leftarrow> mesh_wire r ml edgeCS cpCS;
             case m of Inl p \<Rightarrow> ret (Inl p)
             | Inr (Some (what, err)) \<Rightarrow> do { f \<leftarrow> mesh_fail r ml what err; ret (Inr f) }
             | Inr None \<Rightarrow> do {
                 u \<leftarrow> kStatusUpdate (mlr_Client r) (KMeshLink (mesh_wired r ml));
                 ret (Inr (requeueMesh, None)) } } } }"

definition set_finalizers :: "string list \<Rightarrow> MeshLink \<Rightarrow> MeshLink" where
  "set_finalizers fs ml = ml\<lparr>ml_Meta := (ml_Meta ml)\<lparr>om_Finalizers := fs\<rparr>\<rparr>"

definition MeshLink_Reconcile :: "('w, 'c) MeshLinkReconciler \<Rightarrow> string \<Rightarrow> string \<Rightarrow> ('w, string + Result \<times> error option) io" where
  "MeshLink_Reconcile r ns name = do {
     g \<leftarrow> get_as (mlr_Client r) as_MeshLink (mk_key (sdcoreGVK ''MeshLink'') ns name);
     case g of Inl err \<Rightarrow> ret (Inr (NoRequeue, IgnoreNotFound err))
     | Inr ml \<Rightarrow>
         if om_DeletionTimestamp (ml_Meta ml) \<noteq> None then
           if ContainsFinalizer (mlr_Lib r) (om_Finalizers (ml_Meta ml)) meshFinalizer then do {
             c \<leftarrow> cleanupRemote r ml;
             u \<leftarrow> kUpdate (mlr_Client r) (KMeshLink (set_finalizers (RemoveFinalizer (mlr_Lib r) (om_Finalizers (ml_Meta ml)) meshFinalizer) ml));
             ret (Inr (NoRequeue, err_of u)) }
           else ret (Inr (NoRequeue, None))
         else (case AddFinalizer (mlr_Lib r) (om_Finalizers (ml_Meta ml)) meshFinalizer of
             (fs, True) \<Rightarrow> do {
               u \<leftarrow> kUpdate (mlr_Client r) (KMeshLink (set_finalizers fs ml));
               case decode_as as_MeshLink u of Inl err \<Rightarrow> ret (Inr (NoRequeue, Some err))
               | Inr ml' \<Rightarrow> mesh_connect r ml' }
           | (fs, False) \<Rightarrow> mesh_connect r ml) }"

definition meshKey :: "string \<Rightarrow> string \<Rightarrow> ObjectKey" where
  "meshKey ns name = mk_key (sdcoreGVK ''MeshLink'') ns name"

section \<open>What the libraries promise\<close>

locale finalizer_laws =
  fixes L :: "('w, 'c) mesh_lib"
  assumes contains_iff: "ContainsFinalizer L fs f \<longleftrightarrow> f \<in> set fs"
    and add_new: "f \<notin> set fs \<Longrightarrow> AddFinalizer L fs f = (fs @ [f], True)"
    and add_old: "f \<in> set fs \<Longrightarrow> AddFinalizer L fs f = (fs, False)"
    and remove_eq: "RemoveFinalizer L fs f = filter (\<lambda>g. g \<noteq> f) fs"

text \<open>
  The management cluster and its peers. A clientset may well be one for the management cluster
  itself, so all that is known of its calls is that they change no object but the one they
  name; reading the local configuration changes nothing.
\<close>

locale mesh_world = finalizer_laws "mlr_Lib r" + delivery_world "mlr_Client r" view "mlr_Env r" repo
  for r :: "('w, 'c) MeshLinkReconciler" and view and repo +
  assumes config_frame: "frame view (GetConfig (mlr_Lib r))"
    and peer_get: "NewForConfig (mlr_Lib r) cfg = Inr cs \<Longrightarrow> frame view (kGet (cs_Rest cs) k)"
    and peer_pods: "NewForConfig (mlr_Lib r) cfg = Inr cs \<Longrightarrow> frame view (cs_ListPods cs ns sel)"
    and peer_create: "NewForConfig (mlr_Lib r) cfg = Inr cs \<Longrightarrow> k \<noteq> key_of x \<Longrightarrow> frame (\<lambda>w. view w k) (kCreate (cs_Rest cs) x)"
    and peer_update: "NewForConfig (mlr_Lib r) cfg = Inr cs \<Longrightarrow> k \<noteq> key_of x \<Longrightarrow> frame (\<lambda>w. view w k) (kUpdate (cs_Rest cs) x)"
    and peer_delete: "NewForConfig (mlr_Lib r) cfg = Inr cs \<Longrightarrow> k \<noteq> key_of x \<Longrightarrow> frame (\<lambda>w. view w k) (kDelete (cs_Rest cs) x)"

section \<open>Calls leave the MeshLink alone\<close>

lemma clusterClient_new:
  "run_state (clusterClient r name) w = (Inr cs, w') \<Longrightarrow> \<exists>cfg. NewForConfig (mlr_Lib r) cfg = Inr cs"
  by (auto simp: clusterClient_def split: if_splits sum.splits option.splits prod.splits)

lemma delete_keys:
  "serviceKey ns n = mk_key (coreGVK ''Service'') ns n" "epsKey ns n = mk_key epsGVK ns n"
  by (simp_all add: serviceKey_def epsKey_def)

lemma mesh_object_keys [simp]:
  "key_of (KService s) = serviceKey (om_Namespace (svc_Meta s)) (om_Name (svc_Meta s))"
  "key_of (KEndpointSlice e) = epsKey (om_Namespace (eps_Meta e)) (om_Name (eps_Meta e))"
  "mk_key (sdcoreGVK kd) ns n \<noteq> serviceKey ns' n'" "mk_key (sdcoreGVK kd) ns n \<noteq> epsKey ns' n'" "serviceKey ns n \<noteq> epsKey ns' n'" "epsKey ns n \<noteq> serviceKey ns' n'"
  "serviceKey ns n = serviceKey ns' n' \<longleftrightarrow> ns = ns' \<and> n = n'" "epsKey ns n = epsKey ns' n' \<longleftrightarrow> ns = ns' \<and> n = n'"
  by (simp_all add: meshKey_def serviceKey_def epsKey_def key_of_mk_key sdcoreGVK_def coreGVK_def epsGVK_def)

context mesh_world
begin

lemma clusterClient_frame: "frame view (clusterClient r name)"
  unfolding clusterClient_def by (intro frame_intros config_frame get_as_frame)

lemmas mesh_view = frame_comp [OF clusterClient_frame, of "\<lambda>v. v k" for k]

lemma peer_get_as: "NewForConfig (mlr_Lib r) cfg = Inr cs \<Longrightarrow> frame view (get_as (cs_Rest cs) f k)"
  unfolding get_as_def by (intro frame_intros peer_get)

lemma deletes_frame:
  assumes "NewForConfig (mlr_Lib r) cfg = Inr cs"
  shows "frame (\<lambda>w. view w (mk_key (sdcoreGVK kd) ns n)) (deleteService cs ns' n')"
    and "frame (\<lambda>w. view w (mk_key (sdcoreGVK kd) ns n)) (deleteEndpointSlice cs ns' n')"
  unfolding deleteService_def deleteEndpointSlice_def by (rule peer_delete [OF assms]; simp)+

lemma cleanupRemote_frame: "frame (\<lambda>w. view w (mk_key (sdcoreGVK kd) ns n)) (cleanupRemote r ml)"
proof -
  have del: "frame (\<lambda>w. view w (mk_key (sdcoreGVK kd) ns n)) (deleteService cs ns' n')" "frame (\<lambda>w. view w (mk_key (sdcoreGVK kd) ns n)) (deleteEndpointSlice cs ns' n')"
    if "run_state (clusterClient r name) w = (Inr cs, w')" for cs ns' n' name w w'
    using clusterClient_new [OF that] deletes_frame by blast+
  show ?thesis
    unfolding cleanupRemote_def
    by (rule frame_bind_run [OF mesh_view], rule frame_bind; (intro frame_bind_run [OF mesh_view])?; intro frame_intros; rule del; simp)
qed

lemma apply_service_frame:
  assumes "NewForConfig (mlr_Lib r) cfg = Inr cs" and "om_Namespace (svc_Meta svc) = ''default''"
  shows "frame (\<lambda>w. view w (mk_key (sdcoreGVK kd) ns n)) (apply_service cs svc)"
  unfolding apply_service_def Let_def
  by (intro frame_intros frame_comp [OF peer_get_as [OF assms(1)], of "\<lambda>v. v (mk_key (sdcoreGVK kd) ns n)"] peer_create [OF assms(1)] peer_update [OF assms(1)]) simp_all

lemma ensureN4Endpoint_frame:
  assumes "NewForConfig (mlr_Lib r) cfg = Inr cs"
  shows "frame (\<lambda>w. view w (mk_key (sdcoreGVK kd) ns n)) (ensureN4Endpoint cs name ip)"
  unfolding ensureN4Endpoint_def
  by (intro frame_intros apply_service_frame [OF assms] frame_comp [OF peer_get_as [OF assms], of "\<lambda>v. v (mk_key (sdcoreGVK kd) ns n)"]
      peer_create [OF assms] peer_update [OF assms]) (simp_all add: n4_service_def)

lemma retire_legacy_frame: "frame view (retire_legacy r repos)"
proof (induction repos)
  case (Cons rp repos)
  show ?case
    unfolding retire_legacy.simps
    by (rule frame_bind [OF removeFromGit_view]) (auto intro!: frame_intros Cons split: sum.split option.split)
qed (simp add: frame_intros)

lemma mesh_wire_frame:
  assumes e: "NewForConfig (mlr_Lib r) cfg = Inr edgeCS" and c: "NewForConfig (mlr_Lib r) cfg' = Inr cpCS"
  shows "frame (\<lambda>w. view w (mk_key (sdcoreGVK kd) ns n)) (mesh_wire r ml edgeCS cpCS)"
proof -
  have m: "frame view (ensureClusterMesh r ml cpCS)"
    unfolding ensureClusterMesh_def deliverViaGit_def Let_def
    by (intro frame_intros peer_get_as [OF c] gitPut_view retire_legacy_frame)
  have a: "frame (\<lambda>w. view w (mk_key (sdcoreGVK kd) ns n)) (ensureAmfGlobal edgeCS s)" "frame (\<lambda>w. view w (mk_key (sdcoreGVK kd) ns n)) (ensureAmfGlobal cpCS s)" for s
    unfolding ensureAmfGlobal_def by (rule apply_service_frame [OF e] apply_service_frame [OF c]; simp add: amf_service_def)+
  have p: "frame view (podIP edgeCS s)" for s unfolding podIP_def by (intro frame_intros peer_pods [OF e])
  show ?thesis
    unfolding mesh_wire_def
    by (intro frame_intros frame_comp [OF m, of "\<lambda>v. v (mk_key (sdcoreGVK kd) ns n)"] a frame_comp [OF p, of "\<lambda>v. v (mk_key (sdcoreGVK kd) ns n)"] ensureN4Endpoint_frame [OF c])
qed

end

section \<open>The finalizer\<close>

lemma set_finalizers_simps [simp]:
  "ml_Meta (set_finalizers fs ml) = (ml_Meta ml)\<lparr>om_Finalizers := fs\<rparr>"
  "key_of (KMeshLink (set_finalizers fs ml)) = key_of (KMeshLink ml)"
  by (simp_all add: set_finalizers_def key_of_def)

text \<open>The MeshLink is stored and carries the finalizer.\<close>

definition guarded :: "('w \<Rightarrow> ObjectKey \<Rightarrow> kobject option) \<Rightarrow> 'w \<Rightarrow> ObjectKey \<Rightarrow> bool" where
  "guarded view w k \<longleftrightarrow> (\<exists>x. view w k = Some x \<and> meshFinalizer \<in> set (om_Finalizers (meta_of x)))"

context mesh_world
begin

lemma mesh_deleted:
  assumes ml: "view w (meshKey ns name) = Some (KMeshLink ml)" and del: "om_DeletionTimestamp (ml_Meta ml) \<noteq> None"
    and fin: "meshFinalizer \<in> set (om_Finalizers (ml_Meta ml))"
    and run: "run_state (MeshLink_Reconcile r ns name) w = (res, w')"
  shows "\<exists>e. res = Inr (NoRequeue, e) \<and>
    (case e of Some err \<Rightarrow> view w' (meshKey ns name) = view w (meshKey ns name)
     | None \<Rightarrow> if set (om_Finalizers (ml_Meta ml)) = {meshFinalizer} then view w' (meshKey ns name) = None
         else \<exists>y. view w' (meshKey ns name) = Some y \<and> om_Finalizers (meta_of y) = filter (\<lambda>g. g \<noteq> meshFinalizer) (om_Finalizers (ml_Meta ml)))"
proof -
  let ?k = "meshKey ns name" and ?fs = "filter (\<lambda>g. g \<noteq> meshFinalizer) (om_Finalizers (ml_Meta ml))"
  obtain g w0 where g: "run_state (get_as (mlr_Client r) as_MeshLink (mk_key (sdcoreGVK ''MeshLink'') ns name)) w = (g, w0)" by force
  have v0: "view w0 = view w" using frameD [OF get_as_frame g] .
  show ?thesis
  proof (cases g)
    case (Inl e)
    have "\<not> IsNotFound e" using get_as_missing [OF g [unfolded Inl]] ml by (auto simp: meshKey_def)
    with run g Inl v0 show ?thesis by (auto simp: MeshLink_Reconcile_def IgnoreNotFound_def)
  next
    case (Inr ml')
    have mleq: "ml' = ml" using get_as_ok [OF g [unfolded Inr]] ml by (auto simp: as_simps meshKey_def)
    obtain c w1 where c: "run_state (cleanupRemote r ml) w0 = (c, w1)" by (metis surj_pair)
    have v1: "view w1 ?k = view w ?k" using frameD [OF cleanupRemote_frame c] v0 by (simp add: meshKey_def)
    obtain u w2 where u: "run_state (kUpdate (mlr_Client r) (KMeshLink (set_finalizers ?fs ml))) w1 = (u, w2)" by force
    have res: "res = Inr (NoRequeue, err_of u)" "w' = w2"
      using run g Inr mleq del fin c u by (auto simp: MeshLink_Reconcile_def contains_iff remove_eq)
    have k: "key_of (KMeshLink (set_finalizers ?fs ml)) = ?k" using view_key [OF ml] by simp
    show ?thesis
    proof (cases u)
      case (Inl e)
      with update_err [OF u [unfolded Inl]] res v1 show ?thesis by simp
    next
      case (Inr y)
      from update_ok [OF u [unfolded Inr]] k v1 ml del have y: "om_Finalizers (meta_of y) = ?fs" "om_DeletionTimestamp (meta_of y) \<noteq> None"
        "view w2 ?k = (if live y then Some y else None)" by auto
      have only: "set (om_Finalizers (ml_Meta ml)) = {meshFinalizer} \<longleftrightarrow> ?fs = []"
        using fin by (auto simp: filter_empty_conv)
      have "live y \<longleftrightarrow> ?fs \<noteq> []" unfolding live_def y(1) using y(2) by blast
      with y(1,3) res Inr show ?thesis unfolding only by simp
    qed
  qed
qed

text \<open>Wiring the two clusters writes the status of the MeshLink and nothing else of the operator's own objects.\<close>

lemma mesh_connect_lasting:
  "frame (\<lambda>w. map_option lasting (view w (mk_key (sdcoreGVK kd) ns n))) (mesh_connect r ml)"
proof -
  let ?v = "\<lambda>w. map_option lasting (view w (mk_key (sdcoreGVK kd) ns n))"
  have cl: "frame ?v (clusterClient r name)" for name
    by (rule frame_comp [OF clusterClient_frame, of "\<lambda>v. map_option lasting (v (mk_key (sdcoreGVK kd) ns n))"])
  have fail: "frame ?v (do { f \<leftarrow> mesh_fail r ml what err; ret (Inr f) })" for what err
    unfolding mesh_fail_def by (intro frame_intros status_lasting)
  have wire: "frame ?v (mesh_wire r ml edge cp)"
    if "run_state (clusterClient r a) w = (Inr edge, w1)" "run_state (clusterClient r b) v = (Inr cp, v1)" for a b edge cp w w1 v v1
    using clusterClient_new [OF that(1)] clusterClient_new [OF that(2)] frame_comp [OF mesh_wire_frame, of _ edge _ cp "map_option lasting"] by blast
  show ?thesis
    unfolding mesh_connect_def
  proof (rule frame_bind_run [OF cl], rule frame_case_sum)
    fix edge w w1
    assume edge: "run_state (clusterClient r (ml_Edge (ml_Spec ml))) w = (edge, w1)"
    show "frame ?v (do { f \<leftarrow> mesh_fail r ml ''edge client'' err; ret (Inr f) })" for err by (rule fail)
    fix edgeCS
    assume "edge = Inr edgeCS"
    note edge = edge [unfolded this]
    show "frame ?v (do { cp \<leftarrow> clusterClient r (ml_ControlPlane (ml_Spec ml));
         case cp of Inl err \<Rightarrow> do { f \<leftarrow> mesh_fail r ml ''control-plane client'' err; ret (Inr f) }
         | Inr cpCS \<Rightarrow> do {
             m \<leftarrow> mesh_wire r ml edgeCS cpCS;
             case m of Inl p \<Rightarrow> ret (Inl p)
             | Inr (Some (what, err)) \<Rightarrow> do { f \<leftarrow> mesh_fail r ml what err; ret (Inr f) }
             | Inr None \<Rightarrow> do {
                 u \<leftarrow> kStatusUpdate (mlr_Client r) (KMeshLink (mesh_wired r ml));
                 ret (Inr (requeueMesh, None)) } } })"
      by (rule frame_bind_run [OF cl], rule frame_case_sum, rule fail, rule frame_bind [OF wire [OF edge]], blast)
        (auto intro!: frame_intros fail status_lasting split: sum.split option.split)
  qed
qed

lemma mesh_connect_guarded:
  assumes run: "run_state (mesh_connect r ml) w = (res, w')" and g: "guarded view w (meshKey ns name)"
  shows "guarded view w' (meshKey ns name)"
  using frameD [OF mesh_connect_lasting run, of "''MeshLink''" ns name] g
  by (cases "view w' (meshKey ns name)") (auto simp: guarded_def meshKey_def lasting_def)

text \<open>
  A reconcile of a MeshLink that is not being deleted: it is still there with the declared part and the owners it
  had; its finalizers are what they were with the controller's own, which may be missing only when the reconcile
  failed before it wrote anything.
\<close>

lemma mesh_pass:
  assumes ml: "view w (meshKey ns name) = Some (KMeshLink ml)" and del: "om_DeletionTimestamp (ml_Meta ml) = None"
    and run: "run_state (MeshLink_Reconcile r ns name) w = (res, w')"
  shows "\<exists>fs. map_option lasting (view w' (meshKey ns name)) = Some (SMeshLink (ml_Spec ml), fs, om_OwnerReferences (ml_Meta ml), None)
    \<and> (if meshFinalizer \<in> set (om_Finalizers (ml_Meta ml)) then fs = om_Finalizers (ml_Meta ml)
       else fs = om_Finalizers (ml_Meta ml) @ [meshFinalizer]
         \<or> view w' (meshKey ns name) = view w (meshKey ns name) \<and> (\<exists>q e. res = Inr (q, Some e)))"
proof -
  let ?k = "meshKey ns name" and ?fs = "om_Finalizers (ml_Meta ml)"
  obtain g w0 where g: "run_state (get_as (mlr_Client r) as_MeshLink (mk_key (sdcoreGVK ''MeshLink'') ns name)) w = (g, w0)" by force
  have v0: "view w0 = view w" using frameD [OF get_as_frame g] .
  show ?thesis
  proof (cases g)
    case (Inl e)
    have "\<not> IsNotFound e" using get_as_missing [OF g [unfolded Inl]] ml by (auto simp: meshKey_def)
    with run g Inl v0 ml del show ?thesis by (auto simp: MeshLink_Reconcile_def IgnoreNotFound_def lasting_def)
  next
    case (Inr ml')
    have mleq: "ml' = ml" using get_as_ok [OF g [unfolded Inr]] ml by (auto simp: as_simps meshKey_def)
    show ?thesis
    proof (cases "meshFinalizer \<in> set ?fs")
      case True
      with run g Inr mleq del have "run_state (mesh_connect r ml) w0 = (res, w')" by (simp add: MeshLink_Reconcile_def add_old)
      from frameD [OF mesh_connect_lasting this, of "''MeshLink''" ns name, folded meshKey_def] v0 ml del True
      show ?thesis by (simp add: lasting_def)
    next
      case False
      let ?x = "KMeshLink (set_finalizers (?fs @ [meshFinalizer]) ml)"
      obtain u w1 where u: "run_state (kUpdate (mlr_Client r) ?x) w0 = (u, w1)" by force
      have k: "key_of ?x = ?k" using view_key [OF ml] by simp
      show ?thesis
      proof (cases u)
        case (Inl e)
        with run g Inr mleq del False u update_err [OF u [unfolded Inl]] v0 ml show ?thesis
          by (auto simp: MeshLink_Reconcile_def add_new decode_as_def lasting_def)
      next
        case y: (Inr y)
        from update_ok [OF u [unfolded y]] k v0 ml del have same: "same_intent ?x y" and fin: "om_Finalizers (meta_of y) = ?fs @ [meshFinalizer]"
          and alive: "om_DeletionTimestamp (meta_of y) = None" and vw: "view w1 ?k = (if live y then Some y else None)" by auto
        from same have spec: "spec_of y = SMeshLink (ml_Spec ml)" and own: "om_OwnerReferences (meta_of y) = om_OwnerReferences (ml_Meta ml)"
          by (simp_all add: same_intent_def set_finalizers_def)
        from spec obtain ml1 where ml1: "y = KMeshLink ml1" by (cases y) auto
        with run g Inr mleq del False u y have c: "run_state (mesh_connect r ml1) w1 = (res, w')"
          by (simp add: MeshLink_Reconcile_def add_new decode_as_def)
        from vw alive have "map_option lasting (view w1 ?k) = Some (SMeshLink (ml_Spec ml), ?fs @ [meshFinalizer], om_OwnerReferences (ml_Meta ml), None)"
          by (simp add: live_def lasting_def spec own fin)
        with frameD [OF mesh_connect_lasting c, of "''MeshLink''" ns name, folded meshKey_def] False show ?thesis
          by (intro exI [of _ "?fs @ [meshFinalizer]"]) simp
      qed
    qed
  qed
qed

lemma mesh_pass_other:
  assumes "kd \<noteq> ''MeshLink''"
  shows "frame (\<lambda>w. map_option lasting (view w (mk_key (sdcoreGVK kd) a b))) (MeshLink_Reconcile r ns name)"
proof -
  let ?v = "\<lambda>w. map_option lasting (view w (mk_key (sdcoreGVK kd) a b))"
  have key: "mk_key (sdcoreGVK kd) a b \<noteq> key_of (KMeshLink x)" for x using assms by (simp add: key_of_mk_key sdcoreGVK_def)
  have upd: "frame ?v (kUpdate (mlr_Client r) (KMeshLink x))" for x
    unfolding frame_def
  proof
    fix w
    obtain u w' where u: "run_state (kUpdate (mlr_Client r) (KMeshLink x)) w = (u, w')" by force
    show "?v (snd (run_state (kUpdate (mlr_Client r) (KMeshLink x)) w)) = ?v w"
      by (cases u) (use u update_err [of "KMeshLink x" w] update_ok [of "KMeshLink x" w] key [of x] in auto)
  qed
  have clean: "frame ?v (cleanupRemote r ml)" for ml by (rule frame_comp [OF cleanupRemote_frame, of "map_option lasting"])
  have get: "frame ?v (get_as (mlr_Client r) as_MeshLink k)" for k
    by (rule frame_comp [OF get_as_frame, of "\<lambda>v. map_option lasting (v (mk_key (sdcoreGVK kd) a b))"])
  show ?thesis
    unfolding MeshLink_Reconcile_def
    by (rule frame_bind [OF get]) (auto intro!: frame_intros upd clean mesh_connect_lasting split: sum.split prod.split bool.split)
qed

text \<open>
  Whatever else of the world a reconcile of a MeshLink that is not being deleted changes
  (\<open>P\<close> is any part of it that the management API server does not serve), by then the stored
  MeshLink carries the finalizer.
\<close>

lemma mesh_finalizer_first:
  assumes ml: "view w (meshKey ns name) = Some (KMeshLink ml)" and del: "om_DeletionTimestamp (ml_Meta ml) = None"
    and P: "\<And>k. frame P (kGet (mlr_Client r) k)" "\<And>x. frame P (kUpdate (mlr_Client r) x)"
    and run: "run_state (MeshLink_Reconcile r ns name) w = (res, w')" and changed: "P w' \<noteq> P w"
  shows "guarded view w' (meshKey ns name)"
proof -
  let ?k = "meshKey ns name" and ?fs = "om_Finalizers (ml_Meta ml)"
  obtain g w0 where g: "run_state (get_as (mlr_Client r) as_MeshLink (mk_key (sdcoreGVK ''MeshLink'') ns name)) w = (g, w0)" by force
  have v0: "view w0 = view w" using frameD [OF get_as_frame g] .
  have "frame P (get_as (mlr_Client r) as_MeshLink (mk_key (sdcoreGVK ''MeshLink'') ns name))"
    unfolding get_as_def by (intro frame_intros P)
  from frameD [OF this g] have p0: "P w0 = P w" .
  obtain ml' where gi: "g = Inr ml'"
    using run g changed p0 by (cases g) (auto simp: MeshLink_Reconcile_def)
  have mleq: "ml' = ml" using get_as_ok [OF g [unfolded gi]] ml by (auto simp: as_simps meshKey_def)
  show ?thesis
  proof (cases "meshFinalizer \<in> set ?fs")
    case True
    with run g gi mleq del have "run_state (mesh_connect r ml) w0 = (res, w')"
      by (simp add: MeshLink_Reconcile_def add_old)
    moreover have "guarded view w0 ?k" using True ml v0 by (simp add: guarded_def)
    ultimately show ?thesis by (rule mesh_connect_guarded)
  next
    case False
    let ?x = "KMeshLink (set_finalizers (?fs @ [meshFinalizer]) ml)"
    obtain u w1 where u: "run_state (kUpdate (mlr_Client r) ?x) w0 = (u, w1)" by force
    have p1: "P w1 = P w" using frameD [OF P(2) u] p0 by simp
    have k: "key_of ?x = ?k" using view_key [OF ml] by simp
    obtain y ml1 where y: "u = Inr y" "as_MeshLink y = Some ml1" and c: "run_state (mesh_connect r ml1) w1 = (res, w')"
      using run g gi mleq del False u changed p1
      by (cases u) (auto simp: MeshLink_Reconcile_def add_new decode_as_def split: option.splits)
    from update_ok [OF u [unfolded y(1)]] k v0 ml del have "om_Finalizers (meta_of y) = ?fs @ [meshFinalizer]"
      "om_DeletionTimestamp (meta_of y) = None" "view w1 ?k = (if live y then Some y else None)" by auto
    then have "guarded view w1 ?k" by (simp add: guarded_def live_def)
    with c show ?thesis by (rule mesh_connect_guarded)
  qed
qed

end

section \<open>The services of the two clusters\<close>

text \<open>The cluster serves what was asked for: annotations, selector and ports.\<close>

definition serves :: "('w \<Rightarrow> ObjectKey \<Rightarrow> kobject option) \<Rightarrow> 'w \<Rightarrow> Service \<Rightarrow> bool" where
  "serves v w svc \<longleftrightarrow> (\<exists>s. v w (serviceKey ''default'' (om_Name (svc_Meta svc))) = Some (KService s)
     \<and> om_Annotations (svc_Meta s) = om_Annotations (svc_Meta svc) \<and> svc_Selector s = svc_Selector svc \<and> svc_Ports s = svc_Ports svc)"

text \<open>The endpoints of the N4 service are the one address.\<close>

definition points_to :: "('w \<Rightarrow> ObjectKey \<Rightarrow> kobject option) \<Rightarrow> 'w \<Rightarrow> string \<Rightarrow> string \<Rightarrow> bool" where
  "points_to v w name ip \<longleftrightarrow> (\<exists>e. v w (epsKey ''default'' (name @ ''-x'')) = Some (KEndpointSlice e)
     \<and> eps_Addresses e = [ip] \<and> eps_Port e = 8805 \<and> eps_Ready e \<and> map_of (om_Labels (eps_Meta e)) ''kubernetes.io/service-name'' = Some name)"

lemma service_intent:
  assumes "same_intent (KService a) y"
  obtains s where "y = KService s" "om_Annotations (svc_Meta s) = om_Annotations (svc_Meta a)" "svc_Selector s = svc_Selector a" "svc_Ports s = svc_Ports a"
  using assms by (cases y) (auto simp: same_intent_def)

lemma endpoints_intent:
  assumes "same_intent (KEndpointSlice (n4_endpoints name ip)) y"
  shows "\<exists>e. y = KEndpointSlice e \<and> eps_Addresses e = [ip] \<and> eps_Port e = 8805 \<and> eps_Ready e
    \<and> map_of (om_Labels (eps_Meta e)) ''kubernetes.io/service-name'' = Some name"
proof -
  from assms have s: "spec_of y = spec_of (KEndpointSlice (n4_endpoints name ip))"
    and l: "om_Labels (meta_of y) = om_Labels (eps_Meta (n4_endpoints name ip))" by (simp_all add: same_intent_def)
  then show ?thesis by (cases y) (simp_all add: n4_endpoints_def)
qed

locale clientset_api = kube_api "cs_Rest cs" v
  for cs :: "'w Clientset" and v
begin

lemma apply_service_ok:
  assumes run: "run_state (apply_service cs svc) w = (None, w')" and ns: "om_Namespace (svc_Meta svc) = ''default''"
  shows "serves v w' svc \<and> (\<forall>k. k \<noteq> serviceKey ''default'' (om_Name (svc_Meta svc)) \<longrightarrow> v w' k = v w k)"
proof -
  let ?k = "serviceKey ''default'' (om_Name (svc_Meta svc))"
  obtain g w1 where g: "run_state (get_as (cs_Rest cs) as_Service ?k) w = (g, w1)" by force
  have v1: "v w1 = v w" using frameD [OF get_as_frame g] .
  show ?thesis
  proof (cases "case g of Inl err \<Rightarrow> IsNotFound err | Inr x \<Rightarrow> False")
    case True
    obtain y where y: "run_state (kCreate (cs_Rest cs) (KService svc)) w1 = (Inr y, w')"
      using run g True by (auto simp: apply_service_def Let_def split: prod.splits elim!: err_of.elims)
    from create_ok [OF y] have i: "same_intent (KService svc) y" and w': "v w' = (v w1)(?k \<mapsto> y)" using ns by auto
    from i obtain s where "y = KService s" "om_Annotations (svc_Meta s) = om_Annotations (svc_Meta svc)"
      "svc_Selector s = svc_Selector svc" "svc_Ports s = svc_Ports svc" by (rule service_intent)
    with w' v1 show ?thesis by (simp add: serves_def)
  next
    case False
    obtain g2 w2 where g2: "run_state (get_as (cs_Rest cs) as_Service ?k) w1 = (g2, w2)" by force
    have v2: "v w2 = v w" using frameD [OF get_as_frame g2] v1 by simp
    obtain cur y where cur: "g2 = Inr cur" and y: "run_state (kUpdate (cs_Rest cs) (KService (owned_service svc cur))) w2 = (Inr y, w')"
      using run g False g2 by (cases g2) (auto simp: apply_service_def Let_def split: prod.splits elim!: err_of.elims)
    have c: "v w ?k = Some (KService cur)" using get_as_ok [OF g2 [unfolded cur]] v1 by (auto simp: as_simps)
    have k: "key_of (KService (owned_service svc cur)) = ?k"
      using view_key [OF c] by (simp add: owned_service_def)
    from update_live [OF y, of "KService cur"] k v2 c have i: "same_intent (KService (owned_service svc cur)) y"
      and w': "v w' = (v w2)(?k \<mapsto> y)" by (simp_all add: owned_service_def)
    from i obtain s where "y = KService s" "om_Annotations (svc_Meta s) = om_Annotations (svc_Meta svc)"
      "svc_Selector s = svc_Selector svc" "svc_Ports s = svc_Ports svc"
      by (rule service_intent) (simp add: owned_service_def)
    with w' v2 show ?thesis by (simp add: serves_def)
  qed
qed

lemma ensureN4Endpoint_ok:
  assumes run: "run_state (ensureN4Endpoint cs name ip) w = (None, w')"
    and calm: "\<not> terminating v w (epsKey ''default'' (name @ ''-x''))"
  shows "serves v w' (n4_service name) \<and> points_to v w' name ip
    \<and> (\<forall>k. k \<noteq> serviceKey ''default'' name \<longrightarrow> k \<noteq> epsKey ''default'' (name @ ''-x'') \<longrightarrow> v w' k = v w k)"
proof -
  let ?k = "epsKey ''default'' (name @ ''-x'')" and ?e = "KEndpointSlice (n4_endpoints name ip)"
  have n: "om_Name (svc_Meta (n4_service name)) = name" "om_Namespace (svc_Meta (n4_service name)) = ''default''" by (simp_all add: n4_service_def)
  obtain w1 where a: "run_state (apply_service cs (n4_service name)) w = (None, w1)"
    using run by (auto simp: ensureN4Endpoint_def split: prod.splits option.splits)
  note a1 = apply_service_ok [OF a n(2), unfolded n(1)]
  obtain g w2 where g: "run_state (get_as (cs_Rest cs) as_EndpointSlice ?k) w1 = (g, w2)" by force
  have v2: "v w2 = v w1" using frameD [OF get_as_frame g] .
  have k: "key_of ?e = ?k" by (simp add: n4_endpoints_def)
  have "\<exists>y. same_intent ?e y \<and> v w' = (v w2)(?k \<mapsto> y)"
  proof (cases "case g of Inl err \<Rightarrow> IsNotFound err | Inr x \<Rightarrow> False")
    case True
    obtain y where "run_state (kCreate (cs_Rest cs) ?e) w2 = (Inr y, w')"
      using run a g True by (auto simp: ensureN4Endpoint_def split: prod.splits elim!: err_of.elims)
    from create_ok [OF this] k show ?thesis by auto
  next
    case False
    obtain y where y: "run_state (kUpdate (cs_Rest cs) ?e) w2 = (Inr y, w')"
      using run a g False by (auto simp: ensureN4Endpoint_def split: prod.splits elim!: err_of.elims)
    have "\<not> terminating v w2 ?k" using calm a1 v2 by (simp add: terminating_def)
    with update_ok [OF y] k show ?thesis by (auto simp: terminating_def live_def)
  qed
  then obtain y where y: "same_intent ?e y" "v w' = (v w2)(?k \<mapsto> y)" by blast
  with a1 v2 endpoints_intent [OF y(1)] show ?thesis by (auto simp: serves_def points_to_def n)
qed

end

section \<open>The wiring\<close>

text \<open>
  Two different clusters, the control plane \<open>cp\<close> with the objects \<open>cv\<close> and the edge \<open>edge\<close> with
  the objects \<open>ev\<close>: calls to one change nothing on the other, calls to neither reach the Git
  repositories, and reading the management cluster or Git changes neither.
\<close>

locale mesh_pair = mesh_world r view repo + cp: clientset_api cp cv + edge: clientset_api edge ev
  for r :: "('w, 'c) MeshLinkReconciler" and view and repo and cp edge :: "'w Clientset" and cv ev +
  assumes made: "\<exists>cfg. NewForConfig (mlr_Lib r) cfg = Inr cp" "\<exists>cfg. NewForConfig (mlr_Lib r) cfg = Inr edge"
    and edge_cv: "frame cv (kGet (cs_Rest edge) k)" "frame cv (kCreate (cs_Rest edge) x)" "frame cv (kUpdate (cs_Rest edge) x)"
      "frame cv (cs_ListPods edge ns sel)"
    and cp_ev: "frame ev (kGet (cs_Rest cp) k)" "frame ev (kCreate (cs_Rest cp) x)" "frame ev (kUpdate (cs_Rest cp) x)"
    and cp_repo: "frame repo (kGet (cs_Rest cp) k)" "frame repo (kCreate (cs_Rest cp) x)" "frame repo (kUpdate (cs_Rest cp) x)"
    and edge_repo: "frame repo (kGet (cs_Rest edge) k)" "frame repo (kCreate (cs_Rest edge) x)" "frame repo (kUpdate (cs_Rest edge) x)"
      "frame repo (cs_ListPods edge ns sel)"
    and mgmt_cv: "frame cv (kGet (mlr_Client r) k)" "frame cv (httpDo (mlr_Env r) q)"
    and pods_ev: "frame ev (cs_ListPods edge ns sel)"

text \<open>The shared CA, as the control plane holds it, is a file of the edge's deploy repository.\<close>

definition ca_delivered :: "('w \<Rightarrow> string \<Rightarrow> string option) \<Rightarrow> 'w \<Rightarrow> MeshLink \<Rightarrow> Secret \<Rightarrow> Secret \<Rightarrow> bool" where
  "ca_delivered repo w ml auth ca \<longleftrightarrow>
     repo w (contents_url (secret_data auth ''username'') (deployRepoFor (ml_Edge (ml_Spec ml))) caPath)
       = Some (EncodeToString (secretYAML ''cilium-ca'' ''kube-system'' (sec_Data ca)))"

lemma contents_url_other: "contents_url us rp caPath \<noteq> contents_url us' rp' ''clustermesh/cilium-clustermesh.yaml''"
proof -
  have "last (butlast (butlast (butlast (butlast (butlast (a @ ''clustermesh/cilium-ca.yaml''))))))
      \<noteq> last (butlast (butlast (butlast (butlast (butlast (b @ ''clustermesh/cilium-clustermesh.yaml''))))))" for a b
    by (simp add: butlast_append)
  then show ?thesis unfolding contents_url_def caPath_def by (metis append.assoc)
qed

context delivery_world
begin

lemma removeFromGit_other:
  assumes "\<And>us. u \<noteq> contents_url us rp path"
  shows "frame (\<lambda>w. repo w u) (removeFromGit E c rp path)"
proof -
  have "frame (\<lambda>w. repo w u) (httpDo E q)" if q: "rq_Verb q = ''DELETE''" "rq_URL q \<noteq> u" "gitea_url (rq_URL q)" for q
    unfolding frame_def
  proof
    fix w
    obtain a w' where a: "run_state (httpDo E q) w = (a, w')" by force
    have "repo w' u = repo w u"
    proof (cases a)
      case (Inl e)
      with lost [OF a [unfolded Inl]] q(2) show ?thesis by auto
    next
      case (Inr resp)
      with refused [OF a [unfolded Inr]] delete_done [OF a [unfolded Inr] q(1,3)] q(2) show ?thesis by fastforce
    qed
    with a show "repo (snd (run_state (httpDo E q) w)) u = repo w u" by simp
  qed
  then have del: "frame (\<lambda>w. repo w u) (httpDo E \<lparr>rq_Verb = ''DELETE'', rq_URL = contents_url us rp path, rq_User = b, rq_Pass = p, rq_Body = d\<rparr>)" for us b p d
    using assms by (simp add: not_sym)
  have get: "frame (\<lambda>w. repo w u) (httpDo E \<lparr>rq_Verb = ''GET'', rq_URL = a, rq_User = b, rq_Pass = p, rq_Body = d\<rparr>)" for a b p d
    by (rule frame_comp [OF read_only, of _ "\<lambda>v. v u"]) simp
  show ?thesis
    unfolding removeFromGit_def Let_def
    by (intro frame_intros frame_comp [OF get_as_repo, of "\<lambda>v. v u"] get del)
qed

end

context mesh_pair
begin

lemma retire_legacy_ca: "frame (\<lambda>w. repo w (contents_url us rp caPath)) (retire_legacy r repos)"
proof (induction repos)
  case (Cons rp' repos)
  show ?case
    unfolding retire_legacy.simps
    by (rule frame_bind [OF removeFromGit_other]) (auto intro!: frame_intros Cons contents_url_other split: sum.split option.split)
qed (simp add: frame_intros)

lemma ensureClusterMesh_ok:
  assumes run: "run_state (ensureClusterMesh r ml cp) w = (Inr None, w')"
    and e: "ml_Edge (ml_Spec ml) \<noteq> ''''" "ml_Edge (ml_Spec ml) \<noteq> ''mgmt''"
  shows "\<exists>auth ca. view w gitea_auth_key = Some (KSecret auth) \<and> cv w cilium_ca_key = Some (KSecret ca) \<and> ca_delivered repo w' ml auth ca"
proof -
  let ?yaml = "\<lambda>ca. secretYAML ''cilium-ca'' ''kube-system'' (sec_Data ca)"
  obtain s w1 where s: "run_state (get_as (cs_Rest cp) as_Secret cilium_ca_key) w = (s, w1)" by force
  obtain ca where ca: "s = Inr ca" using run e s by (cases s) (auto simp: ensureClusterMesh_def Let_def)
  have cav: "cv w cilium_ca_key = Some (KSecret ca)" using cp.get_as_ok [OF s [unfolded ca]] by (auto simp: as_simps)
  have v1: "view w1 = view w" using made(1) frameD [OF peer_get_as s] by blast
  obtain w2 where p: "run_state (gitPut (mlr_Env r) (mlr_Client r) (deployRepoFor (ml_Edge (ml_Spec ml))) caPath (?yaml ca)) w1 = (None, w2)"
    and t: "\<exists>repos. run_state (retire_legacy r repos) w2 = (Inr None, w')"
  proof -
    obtain res w2 where p: "run_state (gitPut (mlr_Env r) (mlr_Client r) (deployRepoFor (ml_Edge (ml_Spec ml))) caPath (?yaml ca)) w1 = (res, w2)" by force
    with run e s ca that show ?thesis
      by (cases res) (auto simp: ensureClusterMesh_def deliverViaGit_def Let_def simp del: retire_legacy.simps)
  qed
  from gitPut_effect [OF p] obtain auth where "view w gitea_auth_key = Some (KSecret auth)"
    and "repo w2 (contents_url (secret_data auth ''username'') (deployRepoFor (ml_Edge (ml_Spec ml))) caPath) = Some (EncodeToString (?yaml ca))"
    using v1 by (auto simp: Let_def)
  with t cav show ?thesis using frameD [OF retire_legacy_ca] by (fastforce simp: ca_delivered_def)
qed

end

text \<open>Everything a successful wiring establishes.\<close>

definition mesh_connected ::
    "('w \<Rightarrow> ObjectKey \<Rightarrow> kobject option) \<Rightarrow> ('w \<Rightarrow> ObjectKey \<Rightarrow> kobject option) \<Rightarrow> 'w \<Rightarrow> bool" where
  "mesh_connected cv ev w \<longleftrightarrow> serves cv w (amf_service ''true'') \<and> serves ev w (amf_service ''false'')"

context mesh_pair
begin

lemma apply_frames:
  "frame ev (apply_service cp svc)" "frame cv (apply_service edge svc)"
  "frame repo (apply_service cp svc)" "frame repo (apply_service edge svc)"
  unfolding apply_service_def get_as_def Let_def
  by (intro frame_intros cp_ev edge_cv cp_repo edge_repo)+

lemma n4_frames: "frame ev (ensureN4Endpoint cp name ip)" "frame repo (ensureN4Endpoint cp name ip)"
  unfolding ensureN4Endpoint_def get_as_def
  by (intro frame_intros cp_ev cp_repo apply_frames)+

lemma podIP_frames: "frame ev (podIP edge sel)" "frame cv (podIP edge sel)" "frame repo (podIP edge sel)"
  unfolding podIP_def by (intro frame_intros pods_ev edge_cv edge_repo)+

lemma ensureClusterMesh_cv: "frame cv (ensureClusterMesh r ml cp)"
proof -
  have g: "frame cv (get_as (cs_Rest cp) f k)" for f :: "kobject \<Rightarrow> 'a option" and k
    unfolding get_as_def by (intro frame_intros cp.get_frame)
  have m: "frame cv (get_as (mlr_Client r) f k)" for f :: "kobject \<Rightarrow> 'a option" and k
    unfolding get_as_def by (intro frame_intros mgmt_cv)
  have p: "frame cv (gitPut (mlr_Env r) (mlr_Client r) rp path yaml)" for rp path yaml
    unfolding gitPut_def Let_def by (intro frame_intros m mgmt_cv)
  have d: "frame cv (removeFromGit (mlr_Env r) (mlr_Client r) rp path)" for rp path
    unfolding removeFromGit_def Let_def by (intro frame_intros m mgmt_cv)
  have t: "frame cv (retire_legacy r repos)" for repos
    by (induction repos) (auto intro!: frame_intros d split: sum.split option.split)
  show ?thesis
    unfolding ensureClusterMesh_def deliverViaGit_def Let_def by (intro frame_intros g p t)
qed

lemma amf_simps [simp]: "om_Name (svc_Meta (amf_service s)) = ''amf-cp''" "om_Namespace (svc_Meta (amf_service s)) = ''default''"
  by (simp_all add: amf_service_def)

lemma serves_frame: "v w' (serviceKey ''default'' (om_Name (svc_Meta svc))) = v w (serviceKey ''default'' (om_Name (svc_Meta svc))) \<Longrightarrow> serves v w' svc = serves v w svc"
  by (simp add: serves_def)

lemma mesh_wire_steps:
  assumes run: "run_state (mesh_wire r ml edge cp) w = (Inr None, w')"
  obtains w1 w2 w3 ip w4 where
    "run_state (ensureClusterMesh r ml cp) w = (Inr None, w1)"
    "run_state (apply_service cp (amf_service ''true'')) w1 = (None, w2)"
    "run_state (apply_service edge (amf_service ''false'')) w2 = (None, w3)"
    "run_state (podIP edge ''app=upf'') w3 = (ip, w4)"
    "if ip \<in> {Inl e |e. True} \<union> {Inr ''''} then w' = w4 else \<exists>a. ip = Inr a \<and> run_state (ensureN4Endpoint cp (mesh_upf_name ml) a) w4 = (None, w')"
proof -
  obtain m w1 where 1: "run_state (ensureClusterMesh r ml cp) w = (m, w1)" by force
  have m: "m = Inr None" using run 1 by (auto simp: mesh_wire_def split: sum.splits option.splits)
  obtain e1 w2 where 2: "run_state (apply_service cp (amf_service ''true'')) w1 = (e1, w2)" by force
  have e1: "e1 = None" using run 1 2 m by (cases e1) (auto simp: mesh_wire_def ensureAmfGlobal_def)
  obtain e2 w3 where 3: "run_state (apply_service edge (amf_service ''false'')) w2 = (e2, w3)" by force
  have e2: "e2 = None" using run 1 2 3 m e1 by (cases e2) (auto simp: mesh_wire_def ensureAmfGlobal_def)
  obtain ip w4 where 4: "run_state (podIP edge ''app=upf'') w3 = (ip, w4)" by force
  have "if ip \<in> {Inl e |e. True} \<union> {Inr ''''} then w' = w4 else \<exists>a. ip = Inr a \<and> run_state (ensureN4Endpoint cp (mesh_upf_name ml) a) w4 = (None, w')"
    using run 1 2 3 4 m e1 e2 by (cases ip) (auto simp: mesh_wire_def ensureAmfGlobal_def split: if_splits prod.splits option.splits)
  with that 1 2 3 4 m e1 e2 show thesis by blast
qed

lemma mesh_wire_ok:
  assumes run: "run_state (mesh_wire r ml edge cp) w = (Inr None, w')"
    and calm: "\<not> terminating cv w (epsKey ''default'' (mesh_upf_name ml @ ''-x''))"
    and upf: "mesh_upf_name ml \<noteq> ''amf-cp''"
    and pods: "\<And>v. fst (run_state (cs_ListPods edge ''default'' ''app=upf'') v) = ans"
  shows "mesh_connected cv ev w'
    \<and> (ml_Edge (ml_Spec ml) \<in> {'''', ''mgmt''} \<or>
        (\<exists>auth ca. view w gitea_auth_key = Some (KSecret auth) \<and> cv w cilium_ca_key = Some (KSecret ca) \<and> ca_delivered repo w' ml auth ca))
    \<and> (\<forall>p ps. ans = Inr (p # ps) \<longrightarrow> pod_IP p \<noteq> '''' \<longrightarrow> serves cv w' (n4_service (mesh_upf_name ml)) \<and> points_to cv w' (mesh_upf_name ml) (pod_IP p))"
  using run
proof (rule mesh_wire_steps)
  fix w1 w2 w3 ip w4
  assume 1: "run_state (ensureClusterMesh r ml cp) w = (Inr None, w1)"
    and 2: "run_state (apply_service cp (amf_service ''true'')) w1 = (None, w2)"
    and 3: "run_state (apply_service edge (amf_service ''false'')) w2 = (None, w3)"
    and 4: "run_state (podIP edge ''app=upf'') w3 = (ip, w4)"
    and 5: "if ip \<in> {Inl e |e. True} \<union> {Inr ''''} then w' = w4 else \<exists>a. ip = Inr a \<and> run_state (ensureN4Endpoint cp (mesh_upf_name ml) a) w4 = (None, w')"
  let ?n = "mesh_upf_name ml"
  note cp2 = cp.apply_service_ok [OF 2 amf_simps(2)] and ed3 = edge.apply_service_ok [OF 3 amf_simps(2)]
  have cv1: "cv w1 = cv w" using frameD [OF ensureClusterMesh_cv 1] .
  have cv4: "cv w4 = cv w2" using frameD [OF apply_frames(2) 3] frameD [OF podIP_frames(2) 4] by simp
  have ev4: "ev w4 = ev w3" using frameD [OF podIP_frames(1) 4] .
  have rp4: "repo w4 = repo w1"
    using frameD [OF apply_frames(3) 2] frameD [OF apply_frames(4) 3] frameD [OF podIP_frames(3) 4] by simp
  have calm4: "\<not> terminating cv w4 (epsKey ''default'' (?n @ ''-x''))"
    using calm cp2 cv1 cv4 by (simp add: terminating_def)
  have conn4: "serves cv w4 (amf_service ''true'')" "serves ev w4 (amf_service ''false'')"
    using cp2 ed3 cv4 ev4 by (simp_all add: serves_def)
  have rest: "serves cv w' (amf_service ''true'') \<and> ev w' = ev w4 \<and> repo w' = repo w4
      \<and> (\<forall>a. ip = Inr a \<and> a \<noteq> '''' \<longrightarrow> serves cv w' (n4_service ?n) \<and> points_to cv w' ?n a)"
  proof (cases "ip \<in> {Inl e |e. True} \<union> {Inr ''''}")
    case True
    with 5 conn4 show ?thesis by auto
  next
    case False
    with 5 obtain a where a: "ip = Inr a" "run_state (ensureN4Endpoint cp ?n a) w4 = (None, w')" by auto
    from cp.ensureN4Endpoint_ok [OF a(2) calm4] frameD [OF n4_frames(1) a(2)] frameD [OF n4_frames(2) a(2)] a(1) conn4 upf
    show ?thesis by (auto simp: serves_def)
  qed
  have "mesh_connected cv ev w'" using rest conn4 by (simp add: mesh_connected_def serves_def)
  moreover have "ml_Edge (ml_Spec ml) \<in> {'''', ''mgmt''} \<or>
        (\<exists>auth ca. view w gitea_auth_key = Some (KSecret auth) \<and> cv w cilium_ca_key = Some (KSecret ca) \<and> ca_delivered repo w' ml auth ca)"
    using ensureClusterMesh_ok [OF 1] rest rp4 by (auto simp: ca_delivered_def)
  moreover have "ip = Inr (pod_IP p)" if "ans = Inr (p # ps)" for p ps
    using 4 pods [of w3] that by (auto simp: podIP_def split: prod.splits)
  ultimately show ?thesis using rest by blast
qed

end

section \<open>Three clusters in memory\<close>

text \<open>
  The management cluster with Gitea, a control-plane cluster and an edge cluster; \<open>ans\<close> is what
  the edge answers when its UPF pods are listed. A kubeconfig names its cluster.
\<close>

record mesh_lab = lab +
  mb_cp :: cluster
  mb_edge :: cluster

definition lab_cp :: "mesh_lab Clientset" where
  "lab_cp = \<lparr>cs_Rest = zoom_client mb_cp (\<lambda>v w. w\<lparr>mb_cp := v\<rparr>) mem_client, cs_ListPods = (\<lambda>ns sel. ret (Inr [])),
     cs_GetLogs = (\<lambda>ns p c n. ret (Inr '''')), cs_Exec = (\<lambda>q. ret ExecDone)\<rparr>"

definition lab_edge :: "error + Pod list \<Rightarrow> mesh_lab Clientset" where
  "lab_edge ans = \<lparr>cs_Rest = zoom_client mb_edge (\<lambda>v w. w\<lparr>mb_edge := v\<rparr>) mem_client, cs_ListPods = (\<lambda>ns sel. ret ans),
     cs_GetLogs = (\<lambda>ns p c n. ret (Inr '''')), cs_Exec = (\<lambda>q. ret ExecDone)\<rparr>"

definition lab_mesh_lib :: "error + Pod list \<Rightarrow> (mesh_lab, string) mesh_lib" where
  "lab_mesh_lib ans = \<lparr>GetConfig = ret (Inl (ErrorString ''no configuration'')), RESTConfigFromKubeConfig = Inr,
     NewForConfig = (\<lambda>c. if c = ''cp'' then Inr lab_cp else if c = ''edge'' then Inr (lab_edge ans) else Inl (ErrorString ''no such cluster'')),
     ContainsFinalizer = (\<lambda>fs f. f \<in> set fs),
     AddFinalizer = (\<lambda>fs f. if f \<in> set fs then (fs, False) else (fs @ [f], True)),
     RemoveFinalizer = (\<lambda>fs f. filter (\<lambda>g. g \<noteq> f) fs)\<rparr>"

definition lab_mesh :: "error + Pod list \<Rightarrow> (mesh_lab, string) MeshLinkReconciler" where
  "lab_mesh ans = \<lparr>mlr_Client = mem_client, mlr_Env = lab_env, mlr_Lib = lab_mesh_lib ans\<rparr>"

lemma lab_mesh_simps [simp]:
  "mlr_Client (lab_mesh ans) = mem_client" "mlr_Env (lab_mesh ans) = lab_env" "mlr_Lib (lab_mesh ans) = lab_mesh_lib ans"
  by (simp_all add: lab_mesh_def)

lemma lab_rest: "cs_Rest lab_cp = zoom_client mb_cp (\<lambda>v w. w\<lparr>mb_cp := v\<rparr>) mem_client"
    "cs_Rest (lab_edge ans) = zoom_client mb_edge (\<lambda>v w. w\<lparr>mb_edge := v\<rparr>) mem_client"
    "cs_ListPods lab_cp = (\<lambda>ns sel. ret (Inr []))" "cs_ListPods (lab_edge ans) = (\<lambda>ns sel. ret ans)"
  by (simp_all add: lab_cp_def lab_edge_def)

text \<open>No call on a peer reaches the management cluster, Git or the other peer.\<close>

lemma lab_view_other [simp]: "cl_view (w\<lparr>mb_cp := v\<rparr>) = cl_view w" "cl_view (w\<lparr>mb_edge := v\<rparr>) = cl_view w"
    "lab_repo (w\<lparr>mb_cp := v\<rparr>) = lab_repo w" "lab_repo (w\<lparr>mb_edge := v\<rparr>) = lab_repo w"
  by (cases w; simp add: cl_view_def lab_repo_def fun_eq_iff)+

lemma mb_edge_other [simp]: "mb_edge (w\<lparr>cl_objects := a, cl_revision := b\<rparr>) = mb_edge w"
  by (cases w) simp

lemma lab_new: "NewForConfig (lab_mesh_lib ans) cfg = Inr cs \<Longrightarrow> cs = lab_cp \<or> cs = lab_edge ans"
  by (simp add: lab_mesh_lib_def split: if_splits)

lemma lab_peer_frames:
  assumes "NewForConfig (lab_mesh_lib ans) cfg = Inr cs"
  shows "frame cl_view (kGet (cs_Rest cs) k)" "frame cl_view (kCreate (cs_Rest cs) x)" "frame cl_view (kUpdate (cs_Rest cs) x)"
    "frame cl_view (kDelete (cs_Rest cs) x)" "frame cl_view (cs_ListPods cs ns sel)"
  using lab_new [OF assms] by (elim disjE; simp add: lab_rest zoom_client_def frame_zoom_other frame_return)+

interpretation lab_mesh: mesh_world "lab_mesh ans" cl_view lab_repo for ans
proof (intro mesh_world.intro mesh_world_axioms.intro, unfold lab_mesh_simps)
  show "finalizer_laws (lab_mesh_lib ans)" by standard (simp_all add: lab_mesh_lib_def)
  show "delivery_world mem_client cl_view lab_env lab_repo" by (rule lab.delivery_world_axioms)
  show "frame cl_view (GetConfig (lab_mesh_lib ans))" by (simp add: lab_mesh_lib_def frame_return)
qed (erule lab_peer_frames, erule lab_peer_frames, (rule frame_comp [where v = cl_view], erule lab_peer_frames)+)

interpretation lab_pair: mesh_pair "lab_mesh ans" cl_view lab_repo lab_cp "lab_edge ans" "\<lambda>w. cl_view (mb_cp w)" "\<lambda>w. cl_view (mb_edge w)"
  for ans
proof (intro mesh_pair.intro mesh_pair_axioms.intro clientset_api.intro)
  show "mesh_world (lab_mesh ans) cl_view lab_repo" by (rule lab_mesh.mesh_world_axioms)
  show "kube_api (cs_Rest lab_cp) (\<lambda>w. cl_view (mb_cp w))" "kube_api (cs_Rest (lab_edge ans)) (\<lambda>w. cl_view (mb_edge w))"
    unfolding lab_rest by (rule kube_api_zoom [OF mem.kube_api_axioms]; simp)+
  show "frame (\<lambda>w. cl_view (mb_cp w)) (httpDo (mlr_Env (lab_mesh ans)) q)" for q
    by (auto simp: frame_def lab_env_def lab_http_def Let_def split: option.splits json.splits)
  show "\<exists>cfg. NewForConfig (mlr_Lib (lab_mesh ans)) cfg = Inr lab_cp" "\<exists>cfg. NewForConfig (mlr_Lib (lab_mesh ans)) cfg = Inr (lab_edge ans)"
    by (rule exI [of _ "''cp''"] exI [of _ "''edge''"]; simp add: lab_mesh_lib_def)+
  show "frame (\<lambda>w. cl_view (mb_cp w)) (kGet (mlr_Client (lab_mesh ans)) k)" for k
    by (simp add: frame_def mem_client_def mem_get_def)
qed (simp_all add: lab_rest zoom_client_def frame_zoom_other frame_return)

text \<open>A MeshLink between the two, with the secrets it needs; \<open>fs\<close> and \<open>del\<close> are its finalizers and deletion mark.\<close>

definition demo_link :: "string list \<Rightarrow> int option \<Rightarrow> MeshLink" where
  "demo_link fs del = \<lparr>ml_Meta = (named_meta ''default'' ''e'')\<lparr>om_Finalizers := fs, om_DeletionTimestamp := del\<rparr>,
     ml_Spec = \<lparr>ml_Edge = ''e'', ml_ControlPlane = ''c'', ml_UPFName = ''''\<rparr>,
     ml_Status = \<lparr>mls_Phase = '''', mls_Message = '''', mls_Conditions = []\<rparr>\<rparr>"

definition demo_secret :: "string \<Rightarrow> string \<Rightarrow> (string \<times> string) list \<Rightarrow> kobject" where
  "demo_secret ns name d = KSecret \<lparr>sec_Meta = named_meta ns name, sec_Data = d\<rparr>"

definition demo_mesh :: "string list \<Rightarrow> int option \<Rightarrow> kobject list \<Rightarrow> mesh_lab" where
  "demo_mesh fs del svcs = \<lparr>cl_objects = [KMeshLink (demo_link fs del),
       demo_secret ''default'' ''gitea-auth'' [(''username'', ''n''), (''password'', ''p'')],
       demo_secret ''default'' ''cluster-c-kubeconfig'' [(''value'', ''cp'')],
       demo_secret ''default'' ''cluster-e-kubeconfig'' [(''value'', ''edge'')]],
     cl_revision = 9, lab_files = [], lab_log = [],
     mb_cp = \<lparr>cl_objects = demo_secret ''kube-system'' ''cilium-ca'' [(''k'', ''v'')] # svcs, cl_revision = 1\<rparr>,
     mb_edge = \<lparr>cl_objects = [], cl_revision = 1\<rparr>\<rparr>"

definition demo_pod :: Pod where
  "demo_pod = \<lparr>pod_Meta = named_meta ''default'' ''upf-0'', pod_Phase = ''Running'', pod_IP = ''10.4.0.9'', pod_Conditions = [],
     pod_ContainerStatuses = [], pod_InitContainerStatuses = []\<rparr>"

lemma demo_mesh_runs:
  "cl_view (demo_mesh fs del svcs) (meshKey ''default'' ''e'') = (if live (KMeshLink (demo_link fs del)) then Some (KMeshLink (demo_link fs del)) else None)"
  "fst (run_state (mesh_wire (lab_mesh (Inr [demo_pod])) (demo_link [] None) (lab_edge (Inr [demo_pod])) lab_cp) (demo_mesh [] None [])) = Inr None"
  by (simp add: demo_mesh_def cl_view_def meshKey_def key_of_mk_key demo_link_def demo_secret_def sdcoreGVK_def coreGVK_def) code_simp

text \<open>A pass with no UPF pod on the edge.\<close>

lemma demo_unwired:
  "case run_state (MeshLink_Reconcile (lab_mesh (Inr [])) ''default'' ''e'') (demo_mesh [] None []) of (res, w') \<Rightarrow>
     res = Inr (requeueMesh, None) \<and> cl_objects (mb_edge w') \<noteq> []
     \<and> (case cl_view w' (meshKey ''default'' ''e'') of Some (KMeshLink ml) \<Rightarrow> mls_Phase (ml_Status ml) = ''N4Wired'' | _ \<Rightarrow> False)
     \<and> cl_view (mb_cp w') (serviceKey ''default'' ''upf-e'') = None \<and> cl_view (mb_cp w') (epsKey ''default'' ''upf-e-x'') = None"
  by code_simp

text \<open>Two MeshLinks on one control plane that exports \<open>amf-cp\<close>, the first being deleted.\<close>

definition demo_shared :: mesh_lab where
  "demo_shared = (let w = demo_mesh [meshFinalizer] (Some 0) [KService (amf_service ''true'')];
       l = demo_link [meshFinalizer] None
     in w\<lparr>cl_objects := cl_objects w @ [KMeshLink (l\<lparr>ml_Meta := (ml_Meta l)\<lparr>om_Name := ''f''\<rparr>,
            ml_Spec := (ml_Spec l)\<lparr>ml_Edge := ''f''\<rparr>\<rparr>)]\<rparr>)"

lemma demo_shared_runs:
  "case run_state (MeshLink_Reconcile (lab_mesh (Inr [])) ''default'' ''e'') demo_shared of (res, w') \<Rightarrow>
     res = Inr (NoRequeue, None) \<and> cl_view w' (meshKey ''default'' ''e'') = None \<and> cl_view w' (meshKey ''default'' ''f'') \<noteq> None
     \<and> cl_view (mb_cp demo_shared) (serviceKey ''default'' ''amf-cp'') = Some (KService (amf_service ''true''))
     \<and> cl_view (mb_cp w') (serviceKey ''default'' ''amf-cp'') = None"
  by code_simp

section \<open>Properties\<close>





text \<open>C33. The finalizer comes first: when a reconcile of a MeshLink that is not being deleted changes anything
  the management API server does not serve (a peer cluster, a Git repository), the stored MeshLink carries the
  finalizer at the end, so a later deletion will clean up.\<close>

theorem MeshLink_finalizer_first:
  assumes "mesh_world r view repo" and "view w (meshKey ns name) = Some (KMeshLink ml)" and "om_DeletionTimestamp (ml_Meta ml) = None"
    and "\<And>k. frame P (kGet (mlr_Client r) k)" and "\<And>x. frame P (kUpdate (mlr_Client r) x)"
    and "run_state (MeshLink_Reconcile r ns name) w = (res, w')" and "P w' \<noteq> P w"
  shows "guarded view w' (meshKey ns name)"
  by (rule mesh_world.mesh_finalizer_first [OF assms(1), OF assms(2), OF assms(3), OF assms(4), OF assms(5), OF assms(6), OF assms(7)])

theorem MeshLink_finalizer_first_witness:
  "guarded cl_view (snd (run_state (MeshLink_Reconcile (lab_mesh (Inr [])) ''default'' ''e'') (demo_mesh [] None []))) (meshKey ''default'' ''e'')"
proof -
  let ?w = "demo_mesh [] None []"
  obtain res w' where run: "run_state (MeshLink_Reconcile (lab_mesh (Inr [])) ''default'' ''e'') ?w = (res, w')" by (metis surj_pair)
  have ml: "cl_view ?w (meshKey ''default'' ''e'') = Some (KMeshLink (demo_link [] None))"
    by (simp add: demo_mesh_runs(1) live_def) (simp add: demo_link_def)
  have d: "om_DeletionTimestamp (ml_Meta (demo_link [] None)) = None" by (simp add: demo_link_def)
  have "mb_edge w' \<noteq> mb_edge ?w" using demo_unwired run by (auto simp: demo_mesh_def)
  moreover have "frame mb_edge (kGet (mlr_Client (lab_mesh (Inr []))) k)" "frame mb_edge (kUpdate (mlr_Client (lab_mesh (Inr []))) x)" for k x
    by (auto simp: frame_def mem_client_defs Let_def split: option.splits)
  ultimately show ?thesis
    using MeshLink_finalizer_first [OF lab_mesh.mesh_world_axioms, OF ml, OF d, of mb_edge, OF _ _ run] run by simp
qed



end
