(* ===== verification/Slice_Controller.thy ===== *)
theory Slice_Controller
  imports Clientset
begin

text \<open>
  The Subscriber and NetworkSlice reconcilers, \<open>operator/internal/controller/subscriber_controller.go\<close>,
  with \<open>mongo_helpers.go\<close>: subscribers and slices as the SD-Core webconsole (over HTTP) and its
  MongoDB (by a script executed in the database pod) get to know them. The lemmas show what the
  webconsole holds after a reconcile and that a failing step is reported and stops the rest.
\<close>

section \<open>Definitions\<close>

definition webuiBase :: string where
  "webuiBase = ''http://webui.default.svc.cluster.local:5000''"

text \<open>\<open>json.Marshal\<close> does not fail on maps of strings, numbers and lists; 409 counts as success.\<close>

definition webui_request :: "string \<Rightarrow> json \<Rightarrow> HttpRequest" where
  "webui_request path body = \<lparr>rq_Verb = ''POST'', rq_URL = webuiBase @ path, rq_User = '''', rq_Pass = '''', rq_Body = Some body\<rparr>"

definition webui_answer :: "string \<Rightarrow> error + HttpResponse \<Rightarrow> error option" where
  "webui_answer path resp = (case resp of Inl e \<Rightarrow> Some (WrapError (''POST '' @ path @ '' (is the webui reachable?): '') e)
     | Inr a \<Rightarrow>
         if rs_StatusCode a = 409 then None
         else if rs_StatusCode a < 200 \<or> rs_StatusCode a \<ge> 300
         then Some (ErrorString (''POST '' @ path @ '' -> HTTP '' @ itoa (rs_StatusCode a) @ '': '' @ take 512 (rs_Body a)))
         else None)"

definition webuiPost :: "'w env \<Rightarrow> string \<Rightarrow> json \<Rightarrow> ('w, error option) io" where
  "webuiPost E path body =
     (case url_check E (webuiBase @ path) of Some e \<Rightarrow> ret (Some (WrapError (''build request '' @ path @ '': '') e))
      | None \<Rightarrow> do { resp \<leftarrow> httpDo E (webui_request path body); ret (webui_answer path resp) })"

subsection \<open>Subscriber\<close>

record 'w SubscriberReconciler =
  sbr_Client :: "'w kclient"
  sbr_Env :: "'w env"

definition sub_failed :: "'w SubscriberReconciler \<Rightarrow> Subscriber \<Rightarrow> error \<Rightarrow> Subscriber" where
  "sub_failed r sub err = sub\<lparr>sub_Status := (sub_Status sub)\<lparr>subs_Phase := ''Failed'', subs_Message := Error err,
     subs_Conditions := setCondition (sbr_Env r) (subs_Conditions (sub_Status sub)) ''Ready'' ConditionFalse ''ProvisionFailed'' (Error err)
       (om_Generation (sub_Meta sub))\<rparr>\<rparr>"

definition subFail :: "'w SubscriberReconciler \<Rightarrow> Subscriber \<Rightarrow> error \<Rightarrow> ('w, Result \<times> error option) io" where
  "subFail r sub err = do {
     u \<leftarrow> kStatusUpdate (sbr_Client r) (KSubscriber (sub_failed r sub err));
     ret (requeue_seconds 20, None) }"

definition subscriber_body :: "SubscriberSpec \<Rightarrow> json" where
  "subscriber_body s = JObj [(''plmnID'', JStr (take 5 (sub_IMSI s))), (''opc'', JStr (sub_Opc s)), (''key'', JStr (sub_Key s)),
     (''sequenceNumber'', JStr (if sub_SequenceNumber s = '''' then ''16f3b3f70fc2'' else sub_SequenceNumber s))]"

definition subscriber_path :: "SubscriberSpec \<Rightarrow> string" where
  "subscriber_path s = ''/api/subscriber/imsi-'' @ sub_IMSI s"

definition sub_provisioned :: "'w SubscriberReconciler \<Rightarrow> Subscriber \<Rightarrow> Subscriber" where
  "sub_provisioned r sub =
     (let msg = ''subscriber imsi-'' @ sub_IMSI (sub_Spec sub) @ '' provisioned into UDR (slice '' @ sub_SliceRef (sub_Spec sub) @ '')''
      in sub\<lparr>sub_Status := (sub_Status sub)\<lparr>subs_Phase := ''Provisioned'', subs_Message := msg,
        subs_Conditions := setCondition (sbr_Env r) (subs_Conditions (sub_Status sub)) ''Ready'' ConditionTrue ''Provisioned'' msg
          (om_Generation (sub_Meta sub))\<rparr>\<rparr>)"

definition Subscriber_Reconcile :: "'w SubscriberReconciler \<Rightarrow> string \<Rightarrow> string \<Rightarrow> ('w, Result \<times> error option) io" where
  "Subscriber_Reconcile r ns name = do {
     g \<leftarrow> get_as (sbr_Client r) as_Subscriber (mk_key (sdcoreGVK ''Subscriber'') ns name);
     case g of Inl err \<Rightarrow> ret (NoRequeue, IgnoreNotFound err)
     | Inr sub \<Rightarrow>
         if length (sub_IMSI (sub_Spec sub)) < 5
         then subFail r sub (ErrorString (''imsi '' @ quote (sub_IMSI (sub_Spec sub)) @ '' too short (need >=5 digits for the PLMN)''))
         else do {
           e \<leftarrow> webuiPost (sbr_Env r) (subscriber_path (sub_Spec sub)) (subscriber_body (sub_Spec sub));
           case e of Some err \<Rightarrow> subFail r sub err
           | None \<Rightarrow> do {
               u \<leftarrow> kStatusUpdate (sbr_Client r) (KSubscriber (sub_provisioned r sub));
               ret (requeue_seconds 120, None) } } }"

subsection \<open>MongoDB\<close>

definition mongoExec :: "'w Clientset \<Rightarrow> string \<Rightarrow> ('w, error option) io" where
  "mongoExec cs js = do {
     x \<leftarrow> cs_Exec cs \<lparr>ex_Namespace = ''default'', ex_Pod = ''mongodb-0'', ex_Container = ''mongodb'',
            ex_Command = [''mongosh'', ''aether'', ''--quiet'', ''--eval'', js]\<rparr>;
     ret (case x of ExecBuildError e \<Rightarrow> Some (WrapError ''build mongo exec: '' e)
       | ExecStreamError stderr e \<Rightarrow> Some (WrapError (''mongo exec ('' @ stderr @ ''): '') e)
       | ExecDone \<Rightarrow> None) }"

definition dnn_script :: "string \<Rightarrow> string \<Rightarrow> string \<Rightarrow> int \<Rightarrow> int \<Rightarrow> string" where
  \<open>dnn_script dg dnn pool mbrUp mbrDn =
     ''db.getCollection(\'webconsoleData.snapshots.devGroupData\').updateOne({\'group-name\':'' @ [CHR 0x27] @ dg @
     ''\'},{$set:{\'ip-domains\':[{\'dnn\':'' @ [CHR 0x27] @ dnn @ ''\',\'ue-ip-pool\':'' @ [CHR 0x27] @ pool @
     ''\',\'dns-primary\':\'8.8.8.8\',\'mtu\':1400,\'ue-dnn-qos\':{\'dnn-mbr-downlink\':'' @ itoa mbrDn @
     '',\'bitrate-unit\':\'bps\',\'traffic-class\':{\'qci\':9,\'arp\':1,\'pdb\':300,\'pelr\':6,\'name\':\'platinum\'},\'dnn-mbr-uplink\':'' @
     itoa mbrUp @ ''}}]}})''\<close>

definition ensureDnnConfig :: "'w Clientset \<Rightarrow> string \<Rightarrow> string \<Rightarrow> string \<Rightarrow> int \<Rightarrow> int \<Rightarrow> ('w, error option) io" where
  "ensureDnnConfig cs dg dnn pool mbrUp mbrDn = mongoExec cs (dnn_script dg dnn pool mbrUp mbrDn)"

definition clone_script :: "string \<Rightarrow> string \<Rightarrow> string \<Rightarrow> string" where
  \<open>clone_script c imsi sd =
     ''var c=db.getCollection('' @ [CHR 0x27] @ c @ ''\'); if(c.countDocuments({ueId:/'' @ imsi @
     ''/})==0){var t=c.findOne({ueId:{$exists:true}}); if(t){var o=JSON.parse(JSON.stringify(t).replace(/"sd":"[0-9a-fA-F]{6}"/g,\'"sd":"'' @
     sd @ ''"\').replace(new RegExp(t.ueId.replace(\'imsi-\','' @ [CHR 0x27, CHR 0x27] @ ''),\'g\'),'' @ [CHR 0x27] @ imsi @
     ''\')); o.ueId=\'imsi-'' @ imsi @ ''\'; delete o._id; c.insertOne(o);}}''\<close>

definition provisioned_collections :: "string list" where
  "provisioned_collections = [''subscriptionData.provisionedData.amData'', ''subscriptionData.provisionedData.smData'',
     ''subscriptionData.provisionedData.smfSelectionSubscriptionData'', ''policyData.ues.amData'', ''policyData.ues.smData'']"

definition ensureProvisionedData :: "'w Clientset \<Rightarrow> string \<Rightarrow> string \<Rightarrow> ('w, error option) io" where
  "ensureProvisionedData cs imsi sd = for_until_err (\<lambda>c. do {
     e \<leftarrow> mongoExec cs (clone_script c imsi sd);
     ret (map_option (WrapError (''clone '' @ c @ '' for '' @ imsi @ '': '')) e) }) provisioned_collections"

subsection \<open>NetworkSlice\<close>

record 'w NetworkSliceReconciler =
  nsr_Client :: "'w kclient"
  nsr_Env :: "'w env"
  nsr_Clientset :: "'w Clientset option"

definition slice_failed :: "'w NetworkSliceReconciler \<Rightarrow> NetworkSlice \<Rightarrow> error \<Rightarrow> NetworkSlice" where
  "slice_failed r ns err = ns\<lparr>ns_Status := (ns_Status ns)\<lparr>nss_Phase := ''Failed'', nss_Message := Error err,
     nss_Conditions := setCondition (nsr_Env r) (nss_Conditions (ns_Status ns)) ''Ready'' ConditionFalse ''ProvisionFailed'' (Error err)
       (om_Generation (ns_Meta ns))\<rparr>\<rparr>"

definition sliceFail :: "'w NetworkSliceReconciler \<Rightarrow> NetworkSlice \<Rightarrow> error \<Rightarrow> ('w, Result \<times> error option) io" where
  "sliceFail r ns err = do {
     u \<leftarrow> kStatusUpdate (nsr_Client r) (KNetworkSlice (slice_failed r ns err));
     ret (requeue_seconds 20, None) }"

text \<open>The local copy of the spec with its defaults; an unset rate is one gigabit.\<close>

definition string_or :: "string \<Rightarrow> string \<Rightarrow> string" where
  "string_or v d = (if v = '''' then d else v)"

definition slice_spec :: "NetworkSliceSpec \<Rightarrow> NetworkSliceSpec" where
  "slice_spec s = s\<lparr>ns_Sst := string_or (ns_Sst s) ''1'', ns_Dnn := string_or (ns_Dnn s) ''internet'', ns_UpfName := string_or (ns_UpfName s) ''upf'',
     ns_Plmn := \<lparr>plmn_Mcc = string_or (plmn_Mcc (ns_Plmn s)) ''001'', plmn_Mnc = string_or (plmn_Mnc (ns_Plmn s)) ''01''\<rparr>\<rparr>"

definition slice_rate :: "int \<Rightarrow> int" where
  "slice_rate v = (if v = 0 then 1000000000 else v)"

definition slice_imsis :: "NetworkSlice \<Rightarrow> Subscriber list \<Rightarrow> string list" where
  "slice_imsis ns subs = map (\<lambda>s. sub_IMSI (sub_Spec s)) (filter (\<lambda>s. sub_SliceRef (sub_Spec s) = om_Name (ns_Meta ns)) subs)"

definition device_group_name :: "NetworkSlice \<Rightarrow> string" where
  "device_group_name ns = ''dg-'' @ om_Name (ns_Meta ns)"

definition device_group :: "NetworkSlice \<Rightarrow> NetworkSliceSpec \<Rightarrow> string list \<Rightarrow> json" where
  "device_group ns s imsis = JObj [(''imsis'', JList (map JStr imsis)), (''site-info'', JStr (om_Name (ns_Meta ns))),
     (''ip-domain-name'', JStr (''pool-'' @ om_Name (ns_Meta ns))),
     (''ip-domain-expanded'', JObj [(''dnn'', JStr (ns_Dnn s)), (''ue-ip-pool'', JStr (ns_UePool s)), (''dns-primary'', JStr ''8.8.8.8''),
        (''mtu'', JInt 1400), (''ue-dnn-qos'', JObj [(''dnn-mbr-uplink'', JInt (slice_rate (qos_MbrUplink (ns_Qos s)))),
           (''dnn-mbr-downlink'', JInt (slice_rate (qos_MbrDownlink (ns_Qos s)))),
           (''traffic-class'', JObj [(''name'', JStr ''platinum''), (''qci'', JInt 9), (''arp'', JInt 1), (''pdb'', JInt 300), (''pelr'', JInt 6)])])])]"

definition slice_gnb :: "GnbRef \<Rightarrow> json" where
  "slice_gnb g = JObj [(''name'', JStr (gnb_Name g)), (''tac'', JInt (if gnb_Tac g = 0 then 1 else gnb_Tac g))]"

definition network_slice :: "NetworkSlice \<Rightarrow> NetworkSliceSpec \<Rightarrow> json" where
  "network_slice ns s = JObj [(''slice-id'', JObj [(''sst'', JStr (ns_Sst s)), (''sd'', JStr (ns_Sd s))]),
     (''site-device-group'', JList [JStr (device_group_name ns)]),
     (''site-info'', JObj [(''site-name'', JStr (om_Name (ns_Meta ns))),
        (''plmn'', JObj [(''mcc'', JStr (plmn_Mcc (ns_Plmn s))), (''mnc'', JStr (plmn_Mnc (ns_Plmn s)))]),
        (''gNodeBs'', JList (map slice_gnb (ns_Gnbs s))),
        (''upf'', JObj [(''upf-name'', JStr (ns_UpfName s)), (''upf-port'', JStr ''8805'')])])]"

definition device_group_path :: "NetworkSlice \<Rightarrow> string" where
  "device_group_path ns = ''/config/v1/device-group/'' @ device_group_name ns"

definition network_slice_path :: "NetworkSlice \<Rightarrow> string" where
  "network_slice_path ns = ''/config/v1/network-slice/'' @ om_Name (ns_Meta ns)"

text \<open>The repair of the webconsole's data in MongoDB, when there is a clientset.\<close>

definition slice_mongo :: "'w NetworkSliceReconciler \<Rightarrow> NetworkSlice \<Rightarrow> NetworkSliceSpec \<Rightarrow> string list \<Rightarrow> ('w, error option) io" where
  "slice_mongo r ns s imsis = (case nsr_Clientset r of None \<Rightarrow> ret None
     | Some cs \<Rightarrow> do {
         e \<leftarrow> ensureDnnConfig cs (device_group_name ns) (ns_Dnn s) (ns_UePool s)
                (slice_rate (qos_MbrUplink (ns_Qos s))) (slice_rate (qos_MbrDownlink (ns_Qos s)));
         case e of Some err \<Rightarrow> ret (Some err)
         | None \<Rightarrow> for_until_err (\<lambda>imsi. ensureProvisionedData cs imsi (ns_Sd s)) imsis })"

definition slice_provisioned :: "'w NetworkSliceReconciler \<Rightarrow> NetworkSlice \<Rightarrow> NetworkSliceSpec \<Rightarrow> string list \<Rightarrow> string \<Rightarrow> NetworkSlice" where
  "slice_provisioned r ns s imsis now =
     (let msg = ''slice '' @ om_Name (ns_Meta ns) @ '' (sst='' @ ns_Sst s @ '' sd='' @ ns_Sd s @ '') provisioned: '' @
            itoa (int (length (ns_Gnbs s))) @ '' gNB(s), '' @ itoa (int (length imsis)) @ '' subscriber(s), upf='' @ ns_UpfName s
      in ns\<lparr>ns_Status := (ns_Status ns)\<lparr>nss_Phase := ''Provisioned'', nss_Provisioned := now, nss_Message := msg,
        nss_Conditions := setCondition (nsr_Env r) (nss_Conditions (ns_Status ns)) ''Ready'' ConditionTrue ''Provisioned'' msg
          (om_Generation (ns_Meta ns))\<rparr>\<rparr>)"

definition NetworkSlice_Reconcile :: "'w NetworkSliceReconciler \<Rightarrow> string \<Rightarrow> string \<Rightarrow> ('w, Result \<times> error option) io" where
  "NetworkSlice_Reconcile r nsp name = do {
     g \<leftarrow> get_as (nsr_Client r) as_NetworkSlice (mk_key (sdcoreGVK ''NetworkSlice'') nsp name);
     case g of Inl err \<Rightarrow> ret (NoRequeue, IgnoreNotFound err)
     | Inr ns \<Rightarrow> do {
         let s = slice_spec (ns_Spec ns);
         l \<leftarrow> list_as (nsr_Client r) as_Subscriber (sdcoreGVK ''Subscriber'') [];
         case l of Inl err \<Rightarrow> sliceFail r ns (WrapError ''list subscribers: '' err)
         | Inr subs \<Rightarrow> do {
             let imsis = slice_imsis ns subs;
             e1 \<leftarrow> webuiPost (nsr_Env r) (device_group_path ns) (device_group ns s imsis);
             case e1 of Some err \<Rightarrow> sliceFail r ns err
             | None \<Rightarrow> do {
                 e2 \<leftarrow> webuiPost (nsr_Env r) (network_slice_path ns) (network_slice ns s);
                 case e2 of Some err \<Rightarrow> sliceFail r ns err
                 | None \<Rightarrow> do {
                     e3 \<leftarrow> slice_mongo r ns s imsis;
                     case e3 of Some err \<Rightarrow> sliceFail r ns err
                     | None \<Rightarrow> do {
                         now \<leftarrow> now_rfc3339 (nsr_Env r);
                         u \<leftarrow> kStatusUpdate (nsr_Client r) (KNetworkSlice (slice_provisioned r ns s imsis now));
                         ret (requeue_seconds 30, None) } } } } } }"

text \<open>The watch on Subscribers: the reconcile requests (namespace and name) a change of one makes.\<close>

definition slice_requests :: "kobject \<Rightarrow> (string \<times> string) list" where
  "slice_requests x = (case x of KSubscriber sub \<Rightarrow>
       if sub_SliceRef (sub_Spec sub) = '''' then [] else [(om_Namespace (sub_Meta sub), sub_SliceRef (sub_Spec sub))]
     | _ \<Rightarrow> [])"

section \<open>What the webconsole and the database promise\<close>

text \<open>
  \<open>conf w u\<close> is the configuration the webconsole last accepted at the URL \<open>u\<close>. A POST answered 2xx
  was accepted, one answered 409 met an existing configuration and, like every other refused one,
  changed nothing; of one without an answer it is not known whether it was accepted.
\<close>

locale webui =
  fixes E :: "'w env" and conf :: "'w \<Rightarrow> string \<Rightarrow> json option"
  assumes post_done: "run_state (httpDo E q) w = (Inr a, w') \<Longrightarrow> rq_Verb q = ''POST'' \<Longrightarrow> HasPrefix (rq_URL q) webuiBase \<Longrightarrow>
      200 \<le> rs_StatusCode a \<Longrightarrow> rs_StatusCode a < 300 \<Longrightarrow> rq_Body q = Some b \<Longrightarrow> conf w' = (conf w)(rq_URL q \<mapsto> b)"
    and post_conflict: "run_state (httpDo E q) w = (Inr a, w') \<Longrightarrow> rq_Verb q = ''POST'' \<Longrightarrow> HasPrefix (rq_URL q) webuiBase \<Longrightarrow>
      rs_StatusCode a = 409 \<Longrightarrow> conf w (rq_URL q) \<noteq> None"
    and post_refused: "run_state (httpDo E q) w = (Inr a, w') \<Longrightarrow> rs_StatusCode a < 200 \<or> 300 \<le> rs_StatusCode a \<Longrightarrow> conf w' = conf w"
    and post_lost: "run_state (httpDo E q) w = (Inl e, w') \<Longrightarrow> u \<noteq> rq_URL q \<Longrightarrow> conf w' u = conf w u"

text \<open>The configuration is the wanted one, or one that was there before and was kept.\<close>

definition accepted :: "('w \<Rightarrow> string \<Rightarrow> json option) \<Rightarrow> 'w \<Rightarrow> 'w \<Rightarrow> string \<Rightarrow> json \<Rightarrow> bool" where
  "accepted conf w w' path b \<longleftrightarrow> conf w' (webuiBase @ path) = Some b
     \<or> conf w (webuiBase @ path) \<noteq> None \<and> conf w' (webuiBase @ path) = conf w (webuiBase @ path)"

context webui
begin

lemma webuiPost_effect:
  assumes run: "run_state (webuiPost E path b) w = (res, w')"
  shows "(res = None \<longrightarrow> accepted conf w w' path b) \<and> (\<forall>u. u \<noteq> webuiBase @ path \<longrightarrow> conf w' u = conf w u)"
proof (cases "url_check E (webuiBase @ path)")
  case (Some e)
  with run show ?thesis by (auto simp: webuiPost_def)
next
  case None
  let ?q = "webui_request path b"
  have q: "rq_Verb ?q = ''POST''" "rq_URL ?q = webuiBase @ path" "rq_Body ?q = Some b" "HasPrefix (rq_URL ?q) webuiBase"
    by (simp_all add: webui_request_def)
  obtain a w1 where a: "run_state (httpDo E ?q) w = (a, w1)" by force
  from run None a have res: "res = webui_answer path a" "w' = w1" by (simp_all add: webuiPost_def)
  show ?thesis
  proof (cases a)
    case (Inl e)
    with res post_lost [OF a [unfolded Inl]] q(2) show ?thesis by (simp add: webui_answer_def)
  next
    case (Inr resp)
    note ar = a [unfolded Inr]
    consider "rs_StatusCode resp = 409" | "rs_StatusCode resp \<noteq> 409" "rs_StatusCode resp < 200 \<or> 300 \<le> rs_StatusCode resp"
      | "200 \<le> rs_StatusCode resp" "rs_StatusCode resp < 300" by linarith
    then show ?thesis
    proof cases
      case 1
      with post_conflict [OF ar q(1,4)] post_refused [OF ar] res q(2) show ?thesis by (auto simp: accepted_def)
    next
      case 2
      with post_refused [OF ar] res Inr show ?thesis by (auto simp: webui_answer_def)
    next
      case 3
      with post_done [OF ar q(1,4) 3 q(3)] res q(2) show ?thesis by (simp add: accepted_def)
    qed
  qed
qed

end

text \<open>
  The API server, the webconsole and the database are three services: \<open>scripts\<close> is the list of
  commands that were carried out in the database pod.
\<close>

locale provisioning = kube_api c view + webui E conf
  for c :: "'w kclient" and view and E and conf and scripts :: "'w \<Rightarrow> ExecRequest list" +
  assumes http_view: "frame view (httpDo E q)" and http_scripts: "frame scripts (httpDo E q)"
    and kget_conf: "frame conf (kGet c k)" "frame scripts (kGet c k)"
    and klist_conf: "frame conf (kList c g os)" "frame scripts (kList c g os)"
    and kstatus_conf: "frame conf (kStatusUpdate c x)" "frame scripts (kStatusUpdate c x)"
    and now_conf: "frame view (now_rfc3339 E)" "frame conf (now_rfc3339 E)" "frame scripts (now_rfc3339 E)"
begin

lemma webuiPost_frames: "frame view (webuiPost E path b)" "frame scripts (webuiPost E path b)"
  unfolding webuiPost_def by (intro frame_intros http_view http_scripts)+

lemma read_frames:
  "frame conf (get_as c f k)" "frame scripts (get_as c f k)" "frame conf (list_as c f' g os)" "frame scripts (list_as c f' g os)"
  unfolding get_as_def list_as_def by (intro frame_intros kget_conf klist_conf)+

end

locale database =
  fixes cs :: "'w Clientset" and scripts :: "'w \<Rightarrow> ExecRequest list"
  assumes exec_done: "run_state (cs_Exec cs q) w = (ExecDone, w') \<Longrightarrow> scripts w' = scripts w @ [q]"

definition mongo_request :: "string \<Rightarrow> ExecRequest" where
  "mongo_request js = \<lparr>ex_Namespace = ''default'', ex_Pod = ''mongodb-0'', ex_Container = ''mongodb'',
     ex_Command = [''mongosh'', ''aether'', ''--quiet'', ''--eval'', js]\<rparr>"

text \<open>The scripts a slice needs: its DNN first, then for every subscriber a clone into each collection.\<close>

definition slice_scripts :: "NetworkSlice \<Rightarrow> NetworkSliceSpec \<Rightarrow> string list \<Rightarrow> string list" where
  "slice_scripts ns s imsis = dnn_script (device_group_name ns) (ns_Dnn s) (ns_UePool s) (slice_rate (qos_MbrUplink (ns_Qos s))) (slice_rate (qos_MbrDownlink (ns_Qos s)))
     # concat (map (\<lambda>imsi. map (\<lambda>c. clone_script c imsi (ns_Sd s)) provisioned_collections) imsis)"

context database
begin

lemma mongoExec_ok: "run_state (mongoExec cs js) w = (None, w') \<Longrightarrow> scripts w' = scripts w @ [mongo_request js]"
  by (auto simp: mongoExec_def mongo_request_def exec_done split: prod.splits exec_outcome.splits)

lemma for_scripts:
  assumes "\<And>x v v'. run_state (f x) v = (None, v') \<Longrightarrow> scripts v' = scripts v @ g x"
  shows "run_state (for_until_err f xs) w = (None, w') \<Longrightarrow> scripts w' = scripts w @ concat (map g xs)"
proof (induction xs arbitrary: w)
  case (Cons x xs)
  from Cons.prems obtain w1 where "run_state (f x) w = (None, w1)" "run_state (for_until_err f xs) w1 = (None, w')"
    unfolding for_until_err_None_Cons by blast
  with Cons.IH assms show ?case by fastforce
qed simp

lemma ensureProvisionedData_ok:
  assumes "run_state (ensureProvisionedData cs imsi sd) w = (None, w')"
  shows "scripts w' = scripts w @ map mongo_request (map (\<lambda>c. clone_script c imsi sd) provisioned_collections)"
proof -
  have "concat (map (\<lambda>c. [mongo_request (clone_script c imsi sd)]) xs) = map mongo_request (map (\<lambda>c. clone_script c imsi sd) xs)" for xs
    by (induction xs) simp_all
  moreover have "scripts v' = scripts v @ [mongo_request (clone_script c imsi sd)]"
    if "run_state (do { e \<leftarrow> mongoExec cs (clone_script c imsi sd); ret (map_option (WrapError (''clone '' @ c @ '' for '' @ imsi @ '': '')) e) }) v = (None, v')" for c v v'
    using that mongoExec_ok [of "clone_script c imsi sd" v] by (simp split: prod.splits)
  ultimately show ?thesis
    using for_scripts [OF _ assms [unfolded ensureProvisionedData_def], of "\<lambda>c. [mongo_request (clone_script c imsi sd)]"] by simp
qed

lemma slice_mongo_ok:
  assumes run: "run_state (slice_mongo r ns s imsis) w = (None, w')" and cs: "nsr_Clientset r = Some cs"
  shows "scripts w' = scripts w @ map mongo_request (slice_scripts ns s imsis)"
proof -
  let ?dnn = "dnn_script (device_group_name ns) (ns_Dnn s) (ns_UePool s) (slice_rate (qos_MbrUplink (ns_Qos s))) (slice_rate (qos_MbrDownlink (ns_Qos s)))"
  from run cs obtain w1 where d: "run_state (mongoExec cs ?dnn) w = (None, w1)"
    and p: "run_state (for_until_err (\<lambda>imsi. ensureProvisionedData cs imsi (ns_Sd s)) imsis) w1 = (None, w')"
    by (auto simp: slice_mongo_def ensureDnnConfig_def split: prod.splits option.splits)
  have "scripts w' = scripts w1 @ concat (map (\<lambda>imsi. map mongo_request (map (\<lambda>c. clone_script c imsi (ns_Sd s)) provisioned_collections)) imsis)"
    by (rule for_scripts [OF ensureProvisionedData_ok p])
  with mongoExec_ok [OF d] show ?thesis by (simp add: slice_scripts_def map_concat comp_def)
qed

end

section \<open>Subscriber\<close>

text \<open>The stored object: as it was, or with the given phase and Ready condition.\<close>

definition sub_reports :: "('w \<Rightarrow> ObjectKey \<Rightarrow> kobject option) \<Rightarrow> 'w \<Rightarrow> ObjectKey \<Rightarrow> Subscriber \<Rightarrow> string \<Rightarrow> ConditionStatus \<Rightarrow> bool" where
  "sub_reports view w k sub ph st \<longleftrightarrow> view w k = Some (KSubscriber sub) \<or>
     (\<exists>s' cd. view w k = Some (KSubscriber s') \<and> subs_Phase (sub_Status s') = ph
        \<and> find_cond ''Ready'' (subs_Conditions (sub_Status s')) = Some cd \<and> cond_Status cd = st)"

locale subscriber_world = provisioning "sbr_Client r" view "sbr_Env r" conf scripts
  for r :: "'w SubscriberReconciler" and view and conf and scripts
begin

lemma sub_status_written:
  assumes u: "run_state (kStatusUpdate (sbr_Client r) (KSubscriber x)) w = (res, w')"
    and v: "view w (key_of (KSubscriber x)) = Some (KSubscriber sub)"
    and x: "subs_Phase (sub_Status x) = ph" "find_cond ''Ready'' (subs_Conditions (sub_Status x)) = Some cd" "cond_Status cd = st"
  shows "sub_reports view w' (key_of (KSubscriber x)) sub ph st"
proof -
  { fix y assume y: "view w' (key_of (KSubscriber x)) = Some y" "same_intent (KSubscriber sub) y" "put_status y (KSubscriber x) = y"
    from y(2) obtain s' where s': "y = KSubscriber s'" by (cases y) (auto simp: same_intent_def)
    with y(3) have "s'\<lparr>sub_Status := sub_Status x\<rparr> = s'" by (simp add: put_status_def)
    from arg_cong [OF this, of sub_Status] y s' x have ?thesis by (auto simp: sub_reports_def) }
  with status_written [OF u v] show ?thesis by (auto simp: sub_reports_def)
qed

lemma subFail_reports:
  assumes conds: "status_conditions (SetStatusCondition (sbr_Env r))"
    and v: "view w (key_of (KSubscriber sub)) = Some (KSubscriber sub)" and run: "run_state (subFail r sub err) w = ((q, e), w')"
  shows "q = requeue_seconds 20 \<and> e = None \<and> sub_reports view w' (key_of (KSubscriber sub)) sub ''Failed'' ConditionFalse \<and> conf w' = conf w"
proof -
  have k: "key_of (KSubscriber (sub_failed r sub err)) = key_of (KSubscriber sub)" by (simp add: key_of_def sub_failed_def)
  obtain u w1 where u: "run_state (kStatusUpdate (sbr_Client r) (KSubscriber (sub_failed r sub err))) w = (u, w1)" by force
  with run have "q = requeue_seconds 20" "e = None" "w' = w1" by (auto simp: subFail_def)
  with sub_status_written [OF u, unfolded k, OF v] frameD [OF kstatus_conf(1) u] show ?thesis
    by (simp add: sub_failed_def setCondition_found [OF conds])
qed

lemma subscriber_reconciled:
  assumes conds: "status_conditions (SetStatusCondition (sbr_Env r))"
    and sub: "view w (mk_key (sdcoreGVK ''Subscriber'') ns name) = Some (KSubscriber sub)"
    and run: "run_state (Subscriber_Reconcile r ns name) w = ((q, None), w')"
  shows "if length (sub_IMSI (sub_Spec sub)) < 5
    then q = requeue_seconds 20 \<and> conf w' = conf w \<and> sub_reports view w' (mk_key (sdcoreGVK ''Subscriber'') ns name) sub ''Failed'' ConditionFalse
    else (q = requeue_seconds 120 \<and> accepted conf w w' (subscriber_path (sub_Spec sub)) (subscriber_body (sub_Spec sub))
            \<and> sub_reports view w' (mk_key (sdcoreGVK ''Subscriber'') ns name) sub ''Provisioned'' ConditionTrue
          \<or> q = requeue_seconds 20 \<and> sub_reports view w' (mk_key (sdcoreGVK ''Subscriber'') ns name) sub ''Failed'' ConditionFalse)
         \<and> (\<forall>u. u \<noteq> webuiBase @ subscriber_path (sub_Spec sub) \<longrightarrow> conf w' u = conf w u)"
proof -
  let ?k = "mk_key (sdcoreGVK ''Subscriber'') ns name"
  have k: "key_of (KSubscriber sub) = ?k" using view_key [OF sub] .
  obtain g w0 where g: "run_state (get_as (sbr_Client r) as_Subscriber ?k) w = (g, w0)" by force
  have v0: "view w0 = view w" "conf w0 = conf w" using frameD [OF get_as_frame g] frameD [OF read_frames(1) g] by auto
  have gi: "g = Inr sub"
  proof (cases g)
    case (Inl e)
    with run g have "IsNotFound e" by (auto simp: Subscriber_Reconcile_def IgnoreNotFound_def split: if_splits)
    with get_as_missing [OF g [unfolded Inl]] sub show ?thesis by simp
  next
    case (Inr s')
    with get_as_ok [OF g [unfolded Inr]] sub show ?thesis by (auto simp: as_simps)
  qed
  have f0: "view w0 (key_of (KSubscriber sub)) = Some (KSubscriber sub)" using sub v0 k by simp
  show ?thesis
  proof (cases "length (sub_IMSI (sub_Spec sub)) < 5")
    case True
    with run g gi have "run_state (subFail r sub (ErrorString (''imsi '' @ quote (sub_IMSI (sub_Spec sub)) @ '' too short (need >=5 digits for the PLMN)''))) w0 = ((q, None), w')"
      by (simp add: Subscriber_Reconcile_def)
    from subFail_reports [OF conds f0 this] True k v0 show ?thesis by simp
  next
    case False
    obtain e w1 where e: "run_state (webuiPost (sbr_Env r) (subscriber_path (sub_Spec sub)) (subscriber_body (sub_Spec sub))) w0 = (e, w1)" by force
    note eff = webuiPost_effect [OF e]
    have f1: "view w1 (key_of (KSubscriber sub)) = Some (KSubscriber sub)" using frameD [OF webuiPost_frames(1) e] f0 by simp
    show ?thesis
    proof (cases e)
      case (Some err)
      with run g gi False e have "run_state (subFail r sub err) w1 = ((q, None), w')" by (simp add: Subscriber_Reconcile_def)
      from subFail_reports [OF conds f1 this] eff False k v0 show ?thesis by auto
    next
      case None
      obtain u w2 where u: "run_state (kStatusUpdate (sbr_Client r) (KSubscriber (sub_provisioned r sub))) w1 = (u, w2)" by force
      with run g gi False e None have q: "q = requeue_seconds 120" "w' = w2" by (auto simp: Subscriber_Reconcile_def)
      have ku: "key_of (KSubscriber (sub_provisioned r sub)) = key_of (KSubscriber sub)" by (simp add: key_of_def sub_provisioned_def Let_def)
      from sub_status_written [OF u, unfolded ku, OF f1] have "sub_reports view w2 ?k sub ''Provisioned'' ConditionTrue"
        by (simp add: sub_provisioned_def Let_def setCondition_found [OF conds] k)
      with q eff None False frameD [OF kstatus_conf(1) u] v0 show ?thesis by (auto simp: accepted_def)
    qed
  qed
qed

end

section \<open>NetworkSlice\<close>

definition slice_reports :: "('w \<Rightarrow> ObjectKey \<Rightarrow> kobject option) \<Rightarrow> 'w \<Rightarrow> ObjectKey \<Rightarrow> NetworkSlice \<Rightarrow> string \<Rightarrow> ConditionStatus \<Rightarrow> bool" where
  "slice_reports view w k ns ph st \<longleftrightarrow> view w k = Some (KNetworkSlice ns) \<or>
     (\<exists>s' cd. view w k = Some (KNetworkSlice s') \<and> nss_Phase (ns_Status s') = ph
        \<and> find_cond ''Ready'' (nss_Conditions (ns_Status s')) = Some cd \<and> cond_Status cd = st)"

text \<open>The subscribers of a slice, of whatever namespace.\<close>

definition subscribed :: "('w \<Rightarrow> ObjectKey \<Rightarrow> kobject option) \<Rightarrow> 'w \<Rightarrow> NetworkSlice \<Rightarrow> string set" where
  "subscribed view w ns = {sub_IMSI (sub_Spec s) |s. view w (key_of (KSubscriber s)) = Some (KSubscriber s)
     \<and> sub_SliceRef (sub_Spec s) = om_Name (ns_Meta ns)}"

definition slice_done ::
    "('w \<Rightarrow> ObjectKey \<Rightarrow> kobject option) \<Rightarrow> ('w \<Rightarrow> string \<Rightarrow> json option) \<Rightarrow> ('w \<Rightarrow> ExecRequest list) \<Rightarrow> 'w NetworkSliceReconciler
     \<Rightarrow> NetworkSlice \<Rightarrow> 'w \<Rightarrow> 'w \<Rightarrow> bool" where
  "slice_done view conf scripts r ns w w' \<longleftrightarrow> (\<exists>imsis. set imsis = subscribed view w ns
     \<and> accepted conf w w' (device_group_path ns) (device_group ns (slice_spec (ns_Spec ns)) imsis)
     \<and> accepted conf w w' (network_slice_path ns) (network_slice ns (slice_spec (ns_Spec ns)))
     \<and> (nsr_Clientset r \<noteq> None \<longrightarrow> scripts w' = scripts w @ map mongo_request (slice_scripts ns (slice_spec (ns_Spec ns)) imsis)))"

lemma slice_paths [simp]:
  "device_group_path ns \<noteq> network_slice_path ns'" "network_slice_path ns' \<noteq> device_group_path ns"
  by (simp_all add: device_group_path_def network_slice_path_def)

locale slice_world = provisioning "nsr_Client r" view "nsr_Env r" conf scripts
  for r :: "'w NetworkSliceReconciler" and view and conf and scripts +
  assumes db: "nsr_Clientset r = Some cs \<Longrightarrow> database cs scripts"
    and exec_frames: "nsr_Clientset r = Some cs \<Longrightarrow> frame view (cs_Exec cs q)" "nsr_Clientset r = Some cs \<Longrightarrow> frame conf (cs_Exec cs q)"
begin

lemma slice_mongo_frames: "frame view (slice_mongo r ns s imsis)" "frame conf (slice_mongo r ns s imsis)"
  unfolding slice_mongo_def ensureDnnConfig_def ensureProvisionedData_def mongoExec_def
  by (intro frame_intros exec_frames; assumption)+

lemma slice_status_written:
  assumes u: "run_state (kStatusUpdate (nsr_Client r) (KNetworkSlice x)) w = (res, w')"
    and v: "view w (key_of (KNetworkSlice x)) = Some (KNetworkSlice ns)"
    and x: "nss_Phase (ns_Status x) = ph" "find_cond ''Ready'' (nss_Conditions (ns_Status x)) = Some cd" "cond_Status cd = st"
  shows "slice_reports view w' (key_of (KNetworkSlice x)) ns ph st"
proof -
  { fix y assume y: "view w' (key_of (KNetworkSlice x)) = Some y" "same_intent (KNetworkSlice ns) y" "put_status y (KNetworkSlice x) = y"
    from y(2) obtain s' where s': "y = KNetworkSlice s'" by (cases y) (auto simp: same_intent_def)
    with y(3) have "s'\<lparr>ns_Status := ns_Status x\<rparr> = s'" by (simp add: put_status_def)
    from arg_cong [OF this, of ns_Status] y s' x have ?thesis by (auto simp: slice_reports_def) }
  with status_written [OF u v] show ?thesis by (auto simp: slice_reports_def)
qed

lemma sliceFail_reports:
  assumes conds: "status_conditions (SetStatusCondition (nsr_Env r))"
    and v: "view w (key_of (KNetworkSlice ns)) = Some (KNetworkSlice ns)" and run: "run_state (sliceFail r ns err) w = ((q, e), w')"
  shows "q = requeue_seconds 20 \<and> slice_reports view w' (key_of (KNetworkSlice ns)) ns ''Failed'' ConditionFalse"
proof -
  have k: "key_of (KNetworkSlice (slice_failed r ns err)) = key_of (KNetworkSlice ns)" by (simp add: key_of_def slice_failed_def)
  obtain u w1 where u: "run_state (kStatusUpdate (nsr_Client r) (KNetworkSlice (slice_failed r ns err))) w = (u, w1)" by force
  with run have "q = requeue_seconds 20" "w' = w1" by (auto simp: sliceFail_def)
  with slice_status_written [OF u, unfolded k, OF v] show ?thesis by (simp add: slice_failed_def setCondition_found [OF conds])
qed

lemma slice_imsis_set:
  assumes "run_state (list_as (nsr_Client r) as_Subscriber (sdcoreGVK ''Subscriber'') []) w = (Inr subs, w')"
  shows "set (slice_imsis ns subs) = subscribed view w ns"
  using list_as_ok [OF assms] by (auto simp: slice_imsis_def subscribed_def as_simps)

text \<open>The steps of a pass, with the failing ones leading to the failure status.\<close>

lemma NetworkSlice_steps:
  assumes ns: "view w (mk_key (sdcoreGVK ''NetworkSlice'') nsp name) = Some (KNetworkSlice ns)"
    and run: "run_state (NetworkSlice_Reconcile r nsp name) w = ((q, None), w')"
  obtains (failed) v err where "view v = view w" "run_state (sliceFail r ns err) v = ((q, None), w')"
  | (provisioned) w0 subs w1 w2 w3 w4 now w5 u where "view w0 = view w" "conf w0 = conf w" "scripts w0 = scripts w"
      "run_state (list_as (nsr_Client r) as_Subscriber (sdcoreGVK ''Subscriber'') []) w0 = (Inr subs, w1)"
      "run_state (webuiPost (nsr_Env r) (device_group_path ns) (device_group ns (slice_spec (ns_Spec ns)) (slice_imsis ns subs))) w1 = (None, w2)"
      "run_state (webuiPost (nsr_Env r) (network_slice_path ns) (network_slice ns (slice_spec (ns_Spec ns)))) w2 = (None, w3)"
      "run_state (slice_mongo r ns (slice_spec (ns_Spec ns)) (slice_imsis ns subs)) w3 = (None, w4)"
      "run_state (now_rfc3339 (nsr_Env r)) w4 = (now, w5)"
      "run_state (kStatusUpdate (nsr_Client r) (KNetworkSlice (slice_provisioned r ns (slice_spec (ns_Spec ns)) (slice_imsis ns subs) now))) w5 = (u, w')"
      "q = requeue_seconds 30"
proof -
  let ?s = "slice_spec (ns_Spec ns)"
  obtain g w0 where g: "run_state (get_as (nsr_Client r) as_NetworkSlice (mk_key (sdcoreGVK ''NetworkSlice'') nsp name)) w = (g, w0)" by force
  have v0: "view w0 = view w" "conf w0 = conf w" "scripts w0 = scripts w"
    using frameD [OF get_as_frame g] frameD [OF read_frames(1) g] frameD [OF read_frames(2) g] by auto
  have gi: "g = Inr ns"
  proof (cases g)
    case (Inl e)
    with run g have "IsNotFound e" by (auto simp: NetworkSlice_Reconcile_def IgnoreNotFound_def split: if_splits)
    with get_as_missing [OF g [unfolded Inl]] ns show ?thesis by simp
  next
    case (Inr s')
    with get_as_ok [OF g [unfolded Inr]] ns show ?thesis by (auto simp: as_simps)
  qed
  note start = run [unfolded NetworkSlice_Reconcile_def Let_def run_state_bind g split_conv gi sum.case]
  obtain l w1 where l: "run_state (list_as (nsr_Client r) as_Subscriber (sdcoreGVK ''Subscriber'') []) w0 = (l, w1)" by force
  have v1: "view w1 = view w" using frameD [OF list_as_frame l] v0 by simp
  show thesis
  proof (cases l)
    case (Inl e)
    with start l have "run_state (sliceFail r ns (WrapError ''list subscribers: '' e)) w1 = ((q, None), w')" by simp
    with failed v1 show thesis by blast
  next
    case (Inr subs)
    let ?i = "slice_imsis ns subs"
    obtain e1 w2 where e1: "run_state (webuiPost (nsr_Env r) (device_group_path ns) (device_group ns ?s ?i)) w1 = (e1, w2)" by force
    have v2: "view w2 = view w" using frameD [OF webuiPost_frames(1) e1] v1 by simp
    obtain e2 w3 where e2: "run_state (webuiPost (nsr_Env r) (network_slice_path ns) (network_slice ns ?s)) w2 = (e2, w3)" by force
    have v3: "view w3 = view w" using frameD [OF webuiPost_frames(1) e2] v2 by simp
    obtain e3 w4 where e3: "run_state (slice_mongo r ns ?s ?i) w3 = (e3, w4)" by force
    have v4: "view w4 = view w" using frameD [OF slice_mongo_frames(1) e3] v3 by simp
    consider err where "e1 = Some err" | err where "e1 = None" "e2 = Some err" | err where "e1 = None" "e2 = None" "e3 = Some err"
      | "e1 = None" "e2 = None" "e3 = None" by (cases e1; cases e2; cases e3; auto)
    then show thesis
    proof cases
      case 1
      with start l Inr e1 have "run_state (sliceFail r ns err) w2 = ((q, None), w')" by simp
      with failed v2 show thesis by blast
    next
      case 2
      with start l Inr e1 e2 have "run_state (sliceFail r ns err) w3 = ((q, None), w')" by simp
      with failed v3 show thesis by blast
    next
      case 3
      with start l Inr e1 e2 e3 have "run_state (sliceFail r ns err) w4 = ((q, None), w')" by simp
      with failed v4 show thesis by blast
    next
      case 4
      obtain now w5 where n: "run_state (now_rfc3339 (nsr_Env r)) w4 = (now, w5)" by force
      obtain u w6 where u: "run_state (kStatusUpdate (nsr_Client r) (KNetworkSlice (slice_provisioned r ns ?s ?i now))) w5 = (u, w6)" by force
      with start l Inr e1 e2 e3 4 n have "q = requeue_seconds 30" "w6 = w'" by simp_all
      with provisioned v0 l Inr e1 e2 e3 4 n u show thesis by blast
    qed
  qed
qed

lemma slice_reconciled:
  assumes conds: "status_conditions (SetStatusCondition (nsr_Env r))"
    and ns: "view w (mk_key (sdcoreGVK ''NetworkSlice'') nsp name) = Some (KNetworkSlice ns)"
    and run: "run_state (NetworkSlice_Reconcile r nsp name) w = ((q, None), w')"
  shows "if q = requeue_seconds 30
    then slice_done view conf scripts r ns w w' \<and> slice_reports view w' (mk_key (sdcoreGVK ''NetworkSlice'') nsp name) ns ''Provisioned'' ConditionTrue
    else q = requeue_seconds 20 \<and> slice_reports view w' (mk_key (sdcoreGVK ''NetworkSlice'') nsp name) ns ''Failed'' ConditionFalse"
  using ns run
proof (cases rule: NetworkSlice_steps)
  case (failed v err)
  have k: "key_of (KNetworkSlice ns) = mk_key (sdcoreGVK ''NetworkSlice'') nsp name" using view_key [OF ns] .
  from sliceFail_reports [OF conds _ failed(2)] failed(1) ns k show ?thesis by (simp add: requeue_seconds_def Seconds_def)
next
  case (provisioned w0 subs w1 w2 w3 w4 now w5 u)
  let ?s = "slice_spec (ns_Spec ns)" and ?i = "slice_imsis ns subs" and ?k = "mk_key (sdcoreGVK ''NetworkSlice'') nsp name"
  have k: "key_of (KNetworkSlice (slice_provisioned r ns ?s ?i now)) = ?k"
    using view_key [OF ns] by (simp add: key_of_def slice_provisioned_def Let_def)
  note l = provisioned(4) and p1 = provisioned(5) and p2 = provisioned(6) and m = provisioned(7) and n = provisioned(8) and u = provisioned(9)
  have c1: "conf w1 = conf w" "scripts w1 = scripts w"
    using frameD [OF read_frames(3) l] frameD [OF read_frames(4) l] provisioned(2,3) by auto
  have c': "conf w' = conf w3" "scripts w' = scripts w4"
    using frameD [OF slice_mongo_frames(2) m] frameD [OF now_conf(2) n] frameD [OF now_conf(3) n] frameD [OF kstatus_conf(1) u] frameD [OF kstatus_conf(2) u] by auto
  have s3: "scripts w3 = scripts w" using frameD [OF webuiPost_frames(2) p1] frameD [OF webuiPost_frames(2) p2] c1 by simp
  have "accepted conf w w' (device_group_path ns) (device_group ns ?s ?i)"
    using webuiPost_effect [OF p1] webuiPost_effect [OF p2] c1 c' by (auto simp: accepted_def)
  moreover have "accepted conf w w' (network_slice_path ns) (network_slice ns ?s)"
    using webuiPost_effect [OF p1] webuiPost_effect [OF p2] c1 c' by (auto simp: accepted_def)
  moreover have "scripts w' = scripts w @ map mongo_request (slice_scripts ns ?s ?i)" if "nsr_Clientset r \<noteq> None"
    using that database.slice_mongo_ok [OF db, OF _ m] s3 c' by auto
  moreover have "set ?i = subscribed view w ns" using slice_imsis_set [OF l] provisioned(1) by (simp add: subscribed_def)
  ultimately have "slice_done view conf scripts r ns w w'" unfolding slice_done_def by blast
  moreover have "view w5 ?k = Some (KNetworkSlice ns)"
    using frameD [OF list_as_frame l] frameD [OF webuiPost_frames(1) p1] frameD [OF webuiPost_frames(1) p2] frameD [OF slice_mongo_frames(1) m]
      frameD [OF now_conf(1) n] provisioned(1) ns by simp
  from slice_status_written [OF u, unfolded k, OF this] have "slice_reports view w' ?k ns ''Provisioned'' ConditionTrue"
    by (simp add: slice_provisioned_def Let_def setCondition_found [OF conds])
  ultimately show ?thesis using provisioned(10) by simp
qed

end

section \<open>A webconsole in memory\<close>

record slice_lab = cluster +
  sl_conf :: "(string \<times> json) list"
  sl_scripts :: "ExecRequest list"

definition slice_lab_http :: "HttpRequest \<Rightarrow> (slice_lab, error + HttpResponse) io" where
  "slice_lab_http q = State (\<lambda>w. (Inr \<lparr>rs_StatusCode = 201, rs_Body = '''', rs_Json = None\<rparr>,
     case rq_Body q of Some b \<Rightarrow> w\<lparr>sl_conf := (rq_URL q, b) # sl_conf w\<rparr> | None \<Rightarrow> w))"

definition slice_lab_env :: "slice_lab env" where
  "slice_lab_env = \<lparr>httpDo = slice_lab_http, url_check = (\<lambda>u. None), SetStatusCondition = put_condition, now_rfc3339 = ret ''2025-01-01T00:00:00Z''\<rparr>"

definition slice_lab_cs :: "slice_lab Clientset" where
  "slice_lab_cs = \<lparr>cs_Rest = mem_client, cs_ListPods = (\<lambda>ns sel. ret (Inr [])), cs_GetLogs = (\<lambda>ns p c n. ret (Inr '''')),
     cs_Exec = (\<lambda>q. State (\<lambda>w. (ExecDone, w\<lparr>sl_scripts := sl_scripts w @ [q]\<rparr>)))\<rparr>"

definition slice_lab_reconciler :: "slice_lab NetworkSliceReconciler" where
  "slice_lab_reconciler = \<lparr>nsr_Client = mem_client, nsr_Env = slice_lab_env, nsr_Clientset = Some slice_lab_cs\<rparr>"

definition sub_lab_reconciler :: "slice_lab SubscriberReconciler" where
  "sub_lab_reconciler = \<lparr>sbr_Client = mem_client, sbr_Env = slice_lab_env\<rparr>"

lemma slice_lab_other [simp]:
  "cl_view (w\<lparr>sl_conf := x\<rparr>) = cl_view w" "cl_view (w\<lparr>sl_scripts := y\<rparr>) = cl_view w"
  "sl_conf (w\<lparr>cl_objects := a, cl_revision := b\<rparr>) = sl_conf w" "sl_scripts (w\<lparr>cl_objects := a, cl_revision := b\<rparr>) = sl_scripts w"
  by (cases w; simp add: cl_view_def fun_eq_iff)+

interpretation slice_lab: provisioning mem_client cl_view slice_lab_env "\<lambda>w. map_of (sl_conf w)" sl_scripts
proof (intro provisioning.intro provisioning_axioms.intro)
  show "kube_api mem_client cl_view" by (rule mem.kube_api_axioms)
  show "webui slice_lab_env (\<lambda>w. map_of (sl_conf w))"
    by standard (auto simp: slice_lab_env_def slice_lab_http_def)
  show "frame cl_view (httpDo slice_lab_env q)" "frame sl_scripts (httpDo slice_lab_env q)" for q
    by (simp_all add: frame_def slice_lab_env_def slice_lab_http_def split: option.split)
  show "frame (\<lambda>w. map_of (sl_conf w)) (kStatusUpdate mem_client x)" "frame sl_scripts (kStatusUpdate mem_client x)" for x
    by (simp_all add: frame_def mem_client_defs Let_def split: option.split)
qed (simp_all add: frame_def mem_client_def mem_get_def mem_list_def slice_lab_env_def)

interpretation slice_lab_sub: subscriber_world sub_lab_reconciler cl_view "\<lambda>w. map_of (sl_conf w)" sl_scripts
  by (simp add: subscriber_world_def sub_lab_reconciler_def slice_lab.provisioning_axioms)

interpretation slice_lab_slice: slice_world slice_lab_reconciler cl_view "\<lambda>w. map_of (sl_conf w)" sl_scripts
proof (intro slice_world.intro slice_world_axioms.intro)
  show "provisioning (nsr_Client slice_lab_reconciler) cl_view (nsr_Env slice_lab_reconciler) (\<lambda>w. map_of (sl_conf w)) sl_scripts"
    by (simp add: slice_lab_reconciler_def slice_lab.provisioning_axioms)
  fix cs assume "nsr_Clientset slice_lab_reconciler = Some cs"
  then have cs: "cs = slice_lab_cs" by (simp add: slice_lab_reconciler_def)
  show "database cs sl_scripts" unfolding cs by standard (auto simp: slice_lab_cs_def)
  show "frame cl_view (cs_Exec cs q)" "frame (\<lambda>w. map_of (sl_conf w)) (cs_Exec cs q)" for q
    by (simp_all add: cs slice_lab_cs_def frame_def)
qed

lemma slice_lab_conds:
  "status_conditions (SetStatusCondition (nsr_Env slice_lab_reconciler))" "status_conditions (SetStatusCondition (sbr_Env sub_lab_reconciler))"
  by (simp_all add: slice_lab_reconciler_def sub_lab_reconciler_def slice_lab_env_def put_condition.status_conditions_axioms)

definition demo_sub :: "string \<Rightarrow> string \<Rightarrow> string \<Rightarrow> Subscriber" where
  "demo_sub ns name imsi = \<lparr>sub_Meta = named_meta ns name, sub_Spec = \<lparr>sub_IMSI = imsi, sub_Key = ''k'', sub_Opc = ''o'', sub_SliceRef = ''s'', sub_SequenceNumber = ''''\<rparr>,
     sub_Status = \<lparr>subs_Phase = '''', subs_Message = '''', subs_Conditions = []\<rparr>\<rparr>"

definition demo_slice :: NetworkSlice where
  "demo_slice = \<lparr>ns_Meta = named_meta ''default'' ''s'', ns_Spec = \<lparr>ns_Sst = '''', ns_Sd = ''010203'', ns_Dnn = '''', ns_UePool = ''10.1.0.0/16'', ns_UpfName = '''',
       ns_Plmn = \<lparr>plmn_Mcc = '''', plmn_Mnc = ''''\<rparr>, ns_Gnbs = [\<lparr>gnb_Name = ''g'', gnb_Tac = 0\<rparr>], ns_Qos = \<lparr>qos_MbrUplink = 7, qos_MbrDownlink = 9\<rparr>\<rparr>,
     ns_Status = \<lparr>nss_Phase = '''', nss_Message = '''', nss_Provisioned = '''', nss_Conditions = []\<rparr>\<rparr>"

definition demo_slices :: slice_lab where
  "demo_slices = \<lparr>cl_objects = [KNetworkSlice demo_slice, KSubscriber (demo_sub ''other'' ''a'' ''001010000000001'')], cl_revision = 1, sl_conf = [], sl_scripts = []\<rparr>"

lemma demo_slices_runs:
  "cl_view demo_slices (mk_key (sdcoreGVK ''NetworkSlice'') ''default'' ''s'') = Some (KNetworkSlice demo_slice)"
  "cl_view demo_slices (mk_key (sdcoreGVK ''Subscriber'') ''other'' ''a'') = Some (KSubscriber (demo_sub ''other'' ''a'' ''001010000000001''))"
  "fst (run_state (NetworkSlice_Reconcile slice_lab_reconciler ''default'' ''s'') demo_slices) = (requeue_seconds 30, None)"
  "fst (run_state (Subscriber_Reconcile sub_lab_reconciler ''other'' ''a'') demo_slices) = (requeue_seconds 120, None)"
  by code_simp+

section \<open>Properties\<close>





text \<open>The watch on Subscribers wakes a slice only for the Subscribers of its own namespace: a Subscriber that
  references the slice from another namespace is counted into the device group by the next reconcile, but its
  creation or change requests none.\<close>

theorem slice_watch_own_namespace:
  assumes "sub_SliceRef (sub_Spec sub) = om_Name (ns_Meta ns)" and "om_Name (ns_Meta ns) \<noteq> ''''"
  shows "((om_Namespace (ns_Meta ns), om_Name (ns_Meta ns)) \<in> set (slice_requests (KSubscriber sub)) \<longleftrightarrow> om_Namespace (sub_Meta sub) = om_Namespace (ns_Meta ns))
    \<and> (sub \<in> set subs \<longrightarrow> sub_IMSI (sub_Spec sub) \<in> set (slice_imsis ns subs))"
  using assms by (auto simp: slice_requests_def slice_imsis_def)

theorem slice_watch_own_namespace_witness:
  "slice_requests (KSubscriber (demo_sub ''other'' ''a'' ''001010000000001'')) = [(''other'', ''s'')]
   \<and> (''default'', ''s'') \<notin> set (slice_requests (KSubscriber (demo_sub ''other'' ''a'' ''001010000000001'')))
   \<and> ''001010000000001'' \<in> set (slice_imsis demo_slice [demo_sub ''other'' ''a'' ''001010000000001''])"
  using slice_watch_own_namespace [of "demo_sub ''other'' ''a'' ''001010000000001''" demo_slice "[demo_sub ''other'' ''a'' ''001010000000001'']"]
  by (simp add: demo_sub_def demo_slice_def slice_requests_def)

end
