(* ===== verification/Host_Datapath.thy ===== *)
theory Host_Datapath
  imports Site_Networks
begin

text \<open>
  The host half of the datapath actuator, \<open>operator/internal/controller/upfdatapath_controller.go\<close>:
  choosing the egress interface, the bridges and their gateway addresses, forwarding, the downlink
  route, the N6 NAT rules, the neighbour entries and the announced N2 addresses. The kernel is
  reached through the packages \<open>netlink\<close> and \<open>iptables\<close>, through files under \<open>/proc\<close> and
  through a command; these are parameters, and the locales state what the code relies on of them.
\<close>

section \<open>The host\<close>

record Link =
  lk_Name :: string
  lk_Index :: int

record Addr =
  ad_IP :: IP
  ad_Mask :: "int list"

record Route =
  rt_Dst :: "IPNet option"
  rt_Gw :: IP
  rt_LinkIndex :: int

record Neigh =
  ng_LinkIndex :: int
  ng_IP :: IP
  ng_State :: int

text \<open>
  One field per library call. \<open>LinkAdd\<close> adds a bridge and returns it with its index;
  \<open>AddrList\<close>, \<open>NeighList\<close> (always for IPv4) and \<open>iptChainExists\<close> return their first result
  beside the error, because the code reads it without looking at the error. The \<open>ipt\<close> operations
  take the backend (the handle \<open>iptables.New\<close> returns for it), the table, the chain and the rule.
  \<open>map_order\<close> is the order in which \<open>range\<close> visits the keys of a map.
\<close>

record 'w host =
  LinkByName :: "string \<Rightarrow> ('w, error + Link) io"
  LinkByIndex :: "int \<Rightarrow> ('w, error + Link) io"
  LinkAdd :: "string \<Rightarrow> ('w, error + Link) io"
  LinkSetUp :: "Link \<Rightarrow> ('w, error option) io"
  ParseAddr :: "string \<Rightarrow> error + Addr"
  AddrList :: "Link \<Rightarrow> ('w, Addr list \<times> error option) io"
  AddrAdd :: "Link \<Rightarrow> Addr \<Rightarrow> ('w, error option) io"
  AddrReplace :: "Link \<Rightarrow> Addr \<Rightarrow> ('w, error option) io"
  AddrDel :: "Link \<Rightarrow> Addr \<Rightarrow> ('w, error option) io"
  RouteGet :: "IP \<Rightarrow> ('w, error + Route list) io"
  RouteList :: "('w, error + Route list) io"
  RouteReplace :: "Route \<Rightarrow> ('w, error option) io"
  NeighList :: "int \<Rightarrow> ('w, Neigh list \<times> error option) io"
  NeighDel :: "Neigh \<Rightarrow> ('w, error option) io"
  iptNew :: "string \<Rightarrow> ('w, error option) io"
  iptDeleteIfExists :: "string \<Rightarrow> string \<Rightarrow> string \<Rightarrow> string list \<Rightarrow> ('w, error option) io"
  iptInsert :: "string \<Rightarrow> string \<Rightarrow> string \<Rightarrow> int \<Rightarrow> string list \<Rightarrow> ('w, error option) io"
  iptAppendUnique :: "string \<Rightarrow> string \<Rightarrow> string \<Rightarrow> string list \<Rightarrow> ('w, error option) io"
  iptChainExists :: "string \<Rightarrow> string \<Rightarrow> string \<Rightarrow> ('w, bool \<times> error option) io"
  WriteFile :: "string \<Rightarrow> string \<Rightarrow> ('w, error option) io"
  Command_Run :: "string list \<Rightarrow> ('w, error option) io"
  map_order :: "string list \<Rightarrow> ('w, string list) io"

text \<open>A map literal: of two entries with one key the later one counts.\<close>

definition go_map :: "('k \<times> 'v) list \<Rightarrow> ('k \<times> 'v) list" where
  "go_map ps = foldl (\<lambda>m (k, v). upsert k v m) [] ps"

definition unset :: "string \<Rightarrow> bool" where
  "unset s \<longleftrightarrow> s = '''' \<or> s = ''null''"

section \<open>The egress interface\<close>

definition is_default :: "Route \<Rightarrow> bool" where
  "is_default rt = (case rt_Dst rt of None \<Rightarrow> True | Some d \<Rightarrow> IP_Equal (net_IP d) IPv4zero)"

text \<open>The link of the first route that has one the kernel knows.\<close>

fun first_link :: "'w host \<Rightarrow> Route list \<Rightarrow> ('w, string option) io" where
  "first_link h [] = ret None"
| "first_link h (rt # rts) =
     (if rt_LinkIndex rt > 0 then do {
        l \<leftarrow> LinkByIndex h (rt_LinkIndex rt);
        case l of Inr link \<Rightarrow> ret (Some (lk_Name link)) | Inl e \<Rightarrow> first_link h rts }
      else first_link h rts)"

definition link_exists :: "'w host \<Rightarrow> string \<Rightarrow> ('w, bool) io" where
  "link_exists h n = (if n = '''' then ret False
     else do { l \<leftarrow> LinkByName h n; ret (case l of Inr x \<Rightarrow> True | Inl e \<Rightarrow> False) })"

definition link_of_routes :: "'w host \<Rightarrow> (Route \<Rightarrow> bool) \<Rightarrow> error + Route list \<Rightarrow> ('w, string option) io" where
  "link_of_routes h P rs = (case rs of Inr routes \<Rightarrow> first_link h (filter P routes) | Inl e \<Rightarrow> ret None)"

definition hostEgressNic :: "'w host \<Rightarrow> string \<Rightarrow> ('w, string) io" where
  "hostEgressNic h preferred = do {
     known \<leftarrow> link_exists h preferred;
     if known then ret preferred
     else do {
       g \<leftarrow> RouteGet h (ParseIP ''8.8.8.8'');
       n1 \<leftarrow> link_of_routes h (\<lambda>rt. True) g;
       case n1 of Some n \<Rightarrow> ret n
       | None \<Rightarrow> do {
           l \<leftarrow> RouteList h;
           n2 \<leftarrow> link_of_routes h is_default l;
           ret (case n2 of Some n \<Rightarrow> n | None \<Rightarrow> '''') } } }"

section \<open>Bridges, forwarding and the route\<close>

definition ensure_bridge :: "'w host \<Rightarrow> string \<Rightarrow> ('w, error option) io" where
  "ensure_bridge h n =
     (if unset n then ret None
      else do {
        l \<leftarrow> LinkByName h n;
        b \<leftarrow> (case l of Inr x \<Rightarrow> ret (Inr x) | Inl e \<Rightarrow> LinkAdd h n);
        case b of Inl err \<Rightarrow> ret (Some (WrapError (''add bridge '' @ n @ '': '') err))
        | Inr link \<Rightarrow> do {
            u \<leftarrow> LinkSetUp h link;
            ret (map_option (WrapError (''set up '' @ n @ '': '')) u) } })"

definition ensureBridge :: "'w host \<Rightarrow> string list \<Rightarrow> ('w, error option) io" where
  "ensureBridge h names = for_until_err (ensure_bridge h) names"

definition bridge_addr :: "'w host \<Rightarrow> string \<Rightarrow> string \<Rightarrow> ('w, error option) io" where
  "bridge_addr h br gw =
     (if unset gw then ret None
      else do {
        l \<leftarrow> LinkByName h br;
        case l of Inl err \<Rightarrow> ret (Some (WrapError (''link '' @ br @ '': '') err))
        | Inr link \<Rightarrow>
            (case ParseAddr h (gw @ ''/24'') of Inl err \<Rightarrow> ret (Some (WrapError (''parse '' @ gw @ '': '') err))
             | Inr addr \<Rightarrow> do {
                 existing \<leftarrow> AddrList h link;
                 if list_ex (\<lambda>a. IP_Equal (ad_IP a) (ad_IP addr)) (fst existing) then ret None
                 else do {
                   e \<leftarrow> AddrAdd h link addr;
                   ret (case e of None \<Rightarrow> None
                     | Some err \<Rightarrow> if Contains (Error err) ''exists'' then None
                         else Some (WrapError (''addr add '' @ gw @ '' on '' @ br @ '': '') err)) } }) })"

definition map_value :: "(string \<times> string) list \<Rightarrow> string \<Rightarrow> string" where
  "map_value m k = (case map_of m k of Some v \<Rightarrow> v | None \<Rightarrow> '''')"

definition ensureBridgeAddr :: "'w host \<Rightarrow> (string \<times> string) list \<Rightarrow> ('w, error option) io" where
  "ensureBridgeAddr h brToGw = do {
     ks \<leftarrow> map_order h (map fst brToGw);
     for_until_err (\<lambda>br. bridge_addr h br (map_value brToGw br)) ks }"

definition ensureForwarding :: "'w host \<Rightarrow> string list \<Rightarrow> ('w, error option) io" where
  "ensureForwarding h brs = do {
     e \<leftarrow> WriteFile h ''/proc/sys/net/ipv4/ip_forward'' ''1'';
     case e of Some err \<Rightarrow> ret (Some (WrapError ''ip_forward: '' err))
     | None \<Rightarrow> do {
         u \<leftarrow> for_each (\<lambda>k. do { e \<leftarrow> WriteFile h (''/proc/sys/net/ipv4/conf/'' @ k @ ''/rp_filter'') ''0''; ret () }) (''all'' # brs);
         v \<leftarrow> for_each (\<lambda>br. do { e \<leftarrow> Command_Run h [''ethtool'', ''-K'', br, ''tx'', ''off'', ''rx'', ''off'', ''tso'', ''off'',
                ''gso'', ''off'', ''gro'', ''off'']; ret () }) brs;
         ret None } }"

definition ensureRoute :: "'w host \<Rightarrow> string \<Rightarrow> string \<Rightarrow> string \<Rightarrow> ('w, error option) io" where
  "ensureRoute h uePool coreNH coreBr =
     (if unset coreNH then ret None
      else case ParseCIDR uePool of Inl err \<Rightarrow> ret (Some (WrapError (''uePool '' @ uePool @ '': '') err))
      | Inr (ip, dst) \<Rightarrow> do {
          l \<leftarrow> LinkByName h coreBr;
          case l of Inl err \<Rightarrow> ret (Some (WrapError (''link '' @ coreBr @ '': '') err))
          | Inr link \<Rightarrow> RouteReplace h \<lparr>rt_Dst = Some dst, rt_Gw = ParseIP coreNH, rt_LinkIndex = lk_Index link\<rparr> })"

section \<open>N6 NAT\<close>

definition no_nic_error :: error where
  "no_nic_error = ErrorString (''no egress NIC detected (auto-detect failed and spec.egressNic unset/invalid) '' @ [CHR 0xE2, CHR 0x80, CHR 0x94] @
     '' refusing to program N6 NAT on a guessed link; set spec.egressNic to the internet-facing interface'')"

definition masq_rule :: "string \<Rightarrow> string \<Rightarrow> string list" where
  "masq_rule uePool nic = [''-s'', uePool, ''-o'', nic, ''-j'', ''MASQUERADE'']"

definition src_rule :: "string \<Rightarrow> string list" where
  "src_rule uePool = [''-s'', uePool, ''-j'', ''ACCEPT'']"

definition dst_rule :: "string \<Rightarrow> string list" where
  "dst_rule uePool = [''-d'', uePool, ''-j'', ''ACCEPT'']"

definition hairpin_rule :: "string \<Rightarrow> string list" where
  "hairpin_rule accBr = [''-i'', accBr, ''-o'', accBr, ''-j'', ''ACCEPT'']"

definition mss_rule :: "string \<Rightarrow> string \<Rightarrow> string list" where
  "mss_rule dir uePool = [''-p'', ''tcp'', dir, uePool, ''--tcp-flags'', ''SYN,RST'', ''SYN'', ''-j'', ''TCPMSS'', ''--set-mss'', ''1360'']"

text \<open>The closure \<open>ins\<close>: delete first, then insert at the top; both errors are ignored.\<close>

definition ins :: "'w host \<Rightarrow> string \<Rightarrow> string \<Rightarrow> string \<Rightarrow> string list \<Rightarrow> ('w, unit) io" where
  "ins h backend table chain rule = do {
     d \<leftarrow> iptDeleteIfExists h backend table chain rule;
     i \<leftarrow> iptInsert h backend table chain 1 rule;
     ret () }"

definition append_unique :: "'w host \<Rightarrow> string \<Rightarrow> string \<Rightarrow> string \<Rightarrow> string list \<Rightarrow> ('w, unit) io" where
  "append_unique h backend table chain rule = do { a \<leftarrow> iptAppendUnique h backend table chain rule; ret () }"

text \<open>What follows the MASQUERADE in one backend: the accepts at the top of the chains, hairpin and MSS clamp.\<close>

definition nat_forward :: "'w host \<Rightarrow> string \<Rightarrow> string \<Rightarrow> string \<Rightarrow> ('w, unit) io" where
  "nat_forward h uePool accBr backend = do {
     u1 \<leftarrow> ins h backend ''filter'' ''FORWARD'' (src_rule uePool);
     u2 \<leftarrow> ins h backend ''filter'' ''FORWARD'' (dst_rule uePool);
     u3 \<leftarrow> append_unique h backend ''filter'' ''FORWARD'' (hairpin_rule accBr);
     c \<leftarrow> iptChainExists h backend ''filter'' ''DOCKER-USER'';
     u4 \<leftarrow> (if fst c then do {
              v1 \<leftarrow> ins h backend ''filter'' ''DOCKER-USER'' (src_rule uePool);
              ins h backend ''filter'' ''DOCKER-USER'' (dst_rule uePool) }
            else ret ());
     u5 \<leftarrow> append_unique h backend ''mangle'' ''FORWARD'' (mss_rule ''-s'' uePool);
     append_unique h backend ''mangle'' ''FORWARD'' (mss_rule ''-d'' uePool) }"

text \<open>
  One backend: nothing when its binary is missing, else whether its MASQUERADE went in
  (\<open>None\<close>) or the message of the failure.
\<close>

definition nat_backend :: "'w host \<Rightarrow> string \<Rightarrow> string \<Rightarrow> string \<Rightarrow> string \<Rightarrow> ('w, string option list) io" where
  "nat_backend h uePool nic accBr backend = do {
     n \<leftarrow> iptNew h backend;
     case n of Some err \<Rightarrow> ret []
     | None \<Rightarrow> do {
         d \<leftarrow> iptDeleteIfExists h backend ''nat'' ''POSTROUTING'' (masq_rule uePool nic);
         i \<leftarrow> iptInsert h backend ''nat'' ''POSTROUTING'' 1 (masq_rule uePool nic);
         u \<leftarrow> nat_forward h uePool accBr backend;
         ret [case i of None \<Rightarrow> None | Some err \<Rightarrow> Some (backend @ '' nat: '' @ Error err)] } }"

definition nat_backends :: "string list" where
  "nat_backends = [''iptables'', ''iptables-legacy'']"

definition ensureN6Nat :: "'w host \<Rightarrow> string \<Rightarrow> string \<Rightarrow> string \<Rightarrow> ('w, error option) io" where
  "ensureN6Nat h uePool nic accBr =
     (if nic = '''' then ret (Some no_nic_error)
      else do {
        rs \<leftarrow> for_collect (nat_backend h uePool nic accBr) nat_backends;
        let errs = List.map_filter id rs;
        ret (if None \<notin> set rs \<and> errs \<noteq> []
             then Some (ErrorString (''n6 UE-pool MASQUERADE not applied in any backend: '' @ Join errs ''; ''))
             else None) })"

section \<open>Neighbours and N2 addresses\<close>

definition NUD_REACHABLE :: int where
  "NUD_REACHABLE = 2"

definition refresh_neigh :: "'w host \<Rightarrow> string \<Rightarrow> string \<Rightarrow> ('w, unit) io" where
  "refresh_neigh h ip dev =
     (if unset ip then ret ()
      else do {
        l \<leftarrow> LinkByName h dev;
        case l of Inl err \<Rightarrow> ret ()
        | Inr link \<Rightarrow> do {
            neighs \<leftarrow> NeighList h (lk_Index link);
            for_each (\<lambda>n. if IP_Equal (ng_IP n) (ParseIP ip) \<and> ng_State n \<noteq> NUD_REACHABLE
              then do { e \<leftarrow> NeighDel h n; ret () } else ret ()) (fst neighs) } })"

definition refreshNeigh :: "'w host \<Rightarrow> (string \<times> string) list \<Rightarrow> ('w, error option) io" where
  "refreshNeigh h ipToDev = do {
     ks \<leftarrow> map_order h (map fst ipToDev);
     u \<leftarrow> for_each (\<lambda>ip. refresh_neigh h ip (map_value ipToDev ip)) ks;
     ret None }"

text \<open>The keys of \<open>want\<close>, in the order of their first assignment.\<close>

definition wanted_vips :: "Service list \<Rightarrow> string list" where
  "wanted_vips svcs = map fst (go_map (map (\<lambda>ip. (ip, True)) (filter (\<lambda>ip. ip \<noteq> '''') (concat (map svc_IngressIPs svcs)))))"

definition announce :: "'w host \<Rightarrow> Link \<Rightarrow> string \<Rightarrow> string \<Rightarrow> ('w, error option) io" where
  "announce h link nic ip = (case ParseAddr h (ip @ ''/32'') of Inl perr \<Rightarrow> ret None
     | Inr addr \<Rightarrow> do {
         e \<leftarrow> AddrReplace h link addr;
         ret (map_option (WrapError (''n2-vip '' @ ip @ '' on '' @ nic @ '': '')) e) })"

definition stale_vip :: "string list \<Rightarrow> Addr \<Rightarrow> bool" where
  "stale_vip want a \<longleftrightarrow> Mask_Size (ad_Mask a) = (32, 32) \<and> IP_String (ad_IP a) \<notin> set want \<and> isRanVIPCandidate (IP_String (ad_IP a))"

definition expose_label :: "(string \<times> string) list" where
  "expose_label = [(''sdcore.nephio.io/expose'', ''n2'')]"

text \<open>The part of \<open>ensureN2VIP\<close> that works on the link: announce what is wanted, then remove what is stale.\<close>

definition remove_stale :: "'w host \<Rightarrow> Link \<Rightarrow> string list \<Rightarrow> Addr \<Rightarrow> ('w, unit) io" where
  "remove_stale h link want a = (if stale_vip want a then do { d \<leftarrow> AddrDel h link a; ret () } else ret ())"

definition apply_vips :: "'w host \<Rightarrow> Link \<Rightarrow> string \<Rightarrow> string list \<Rightarrow> ('w, error option) io" where
  "apply_vips h link nic want = do {
     ks \<leftarrow> map_order h want;
     e \<leftarrow> for_until_err (announce h link nic) ks;
     case e of Some err \<Rightarrow> ret (Some err)
     | None \<Rightarrow> do {
         existing \<leftarrow> AddrList h link;
         u \<leftarrow> for_each (remove_stale h link want) (fst existing);
         ret None } }"

definition ensureN2VIP :: "'w host \<Rightarrow> 'w kclient \<Rightarrow> string \<Rightarrow> ('w, error option) io" where
  "ensureN2VIP h c nic =
     (if nic = '''' then ret None
      else do {
        s \<leftarrow> list_as c as_Service (coreGVK ''Service'') [MatchingLabels expose_label];
        case s of Inl err \<Rightarrow> ret None
        | Inr svcs \<Rightarrow> do {
            l \<leftarrow> LinkByName h nic;
            case l of Inl err \<Rightarrow> ret (if wanted_vips svcs = [] then None else Some (WrapError (''n2-vip link '' @ nic @ '': '') err))
            | Inr link \<Rightarrow> apply_vips h link nic (wanted_vips svcs) } })"

section \<open>What the packet filter promises\<close>

text \<open>
  \<open>rules w b t c\<close> are the rules of a chain, first to last. A call that fails changes nothing; a
  deletion removes one occurrence, an insertion at position 1 puts the rule first. Whether
  \<open>AppendUnique\<close> finds a rule that is there is left open: it appends at most that rule.
\<close>

definition set_chain :: "(string \<Rightarrow> string \<Rightarrow> string \<Rightarrow> string list list) \<Rightarrow> string \<Rightarrow> string \<Rightarrow> string \<Rightarrow> string list list
    \<Rightarrow> string \<Rightarrow> string \<Rightarrow> string \<Rightarrow> string list list" where
  "set_chain f b t c rs = (\<lambda>b' t' c'. if b' = b \<and> t' = t \<and> c' = c then rs else f b' t' c')"

locale packet_filter =
  fixes h :: "'w host" and rules :: "'w \<Rightarrow> string \<Rightarrow> string \<Rightarrow> string \<Rightarrow> string list list"
  assumes new_frame: "frame rules (iptNew h b)"
    and exists_frame: "frame rules (iptChainExists h b t c)"
    and delete_rule: "run_state (iptDeleteIfExists h b t c r) w = (res, w') \<Longrightarrow>
      rules w' = (if res = None then set_chain (rules w) b t c (remove1 r (rules w b t c)) else rules w)"
    and insert_rule: "run_state (iptInsert h b t c 1 r) w = (res, w') \<Longrightarrow>
      rules w' = (if res = None then set_chain (rules w) b t c (r # rules w b t c) else rules w)"
    and append_rule: "run_state (iptAppendUnique h b t c r) w = (res, w') \<Longrightarrow>
      rules w' = rules w \<or> res = None \<and> rules w' = set_chain (rules w) b t c (rules w b t c @ [r])"
begin

lemma delete_frame: "(b', t', c') \<noteq> (b, t, c) \<Longrightarrow> frame (\<lambda>w. rules w b' t' c') (iptDeleteIfExists h b t c r)"
  unfolding frame_def by (metis (no_types, lifting) delete_rule prod.collapse set_chain_def)

lemma insert_frame: "(b', t', c') \<noteq> (b, t, c) \<Longrightarrow> frame (\<lambda>w. rules w b' t' c') (iptInsert h b t c 1 r)"
  unfolding frame_def by (metis (no_types, lifting) insert_rule prod.collapse set_chain_def)

lemma append_frame: "(b', t', c') \<noteq> (b, t, c) \<Longrightarrow> frame (\<lambda>w. rules w b' t' c') (append_unique h b t c r)"
  unfolding append_unique_def frame_def by (auto simp: set_chain_def dest!: append_rule split: prod.splits)

lemma ins_frame: "(b', t', c') \<noteq> (b, t, c) \<Longrightarrow> frame (\<lambda>w. rules w b' t' c') (ins h b t c r)"
  unfolding ins_def by (intro frame_intros delete_frame insert_frame)

text \<open>Rules other than those in \<open>own\<close> stay, in their order.\<close>

lemma foreign_frames:
  assumes "r \<in> own"
  shows "frame (\<lambda>w. filter (\<lambda>x. x \<notin> own) (rules w b' t' c')) (iptDeleteIfExists h b t c r)"
    and "frame (\<lambda>w. filter (\<lambda>x. x \<notin> own) (rules w b' t' c')) (iptInsert h b t c 1 r)"
    and "frame (\<lambda>w. filter (\<lambda>x. x \<notin> own) (rules w b' t' c')) (append_unique h b t c r)"
proof -
  have rm: "filter (\<lambda>x. x \<notin> own) (remove1 r xs) = filter (\<lambda>x. x \<notin> own) xs" for xs
    using assms by (induction xs) auto
  show "frame (\<lambda>w. filter (\<lambda>x. x \<notin> own) (rules w b' t' c')) (iptDeleteIfExists h b t c r)"
    unfolding frame_def using delete_rule [of b t c r] rm by (metis (no_types, lifting) prod.collapse set_chain_def)
  show "frame (\<lambda>w. filter (\<lambda>x. x \<notin> own) (rules w b' t' c')) (iptInsert h b t c 1 r)"
    unfolding frame_def
  proof
    fix w
    obtain res w' where i: "run_state (iptInsert h b t c 1 r) w = (res, w')" by force
    from insert_rule [OF i] assms i show "filter (\<lambda>x. x \<notin> own) (rules (snd (run_state (iptInsert h b t c 1 r) w)) b' t' c')
      = filter (\<lambda>x. x \<notin> own) (rules w b' t' c')" by (auto simp: set_chain_def)
  qed
  show "frame (\<lambda>w. filter (\<lambda>x. x \<notin> own) (rules w b' t' c')) (append_unique h b t c r)"
    unfolding append_unique_def frame_def using assms by (auto simp: set_chain_def dest!: append_rule split: prod.splits)
qed

end

definition n6_rules :: "string \<Rightarrow> string \<Rightarrow> string \<Rightarrow> string list set" where
  "n6_rules uePool nic accBr = {masq_rule uePool nic, src_rule uePool, dst_rule uePool, hairpin_rule accBr,
     mss_rule ''-s'' uePool, mss_rule ''-d'' uePool}"

text \<open>\<open>chain\<close> has \<open>r\<close> on top of what it held before, from which at most an earlier \<open>r\<close> was taken.\<close>

definition on_top :: "string list \<Rightarrow> string list list \<Rightarrow> string list list \<Rightarrow> bool" where
  "on_top r old chain \<longleftrightarrow> chain = r # old \<or> chain = r # remove1 r old"

context packet_filter
begin

lemma nat_forward_frame: "t = ''nat'' \<or> b' \<noteq> b \<Longrightarrow> frame (\<lambda>w. rules w b' t c) (nat_forward h uePool accBr b)"
  unfolding nat_forward_def
  by (intro frame_intros ins_frame append_frame frame_comp [OF exists_frame, where f = "\<lambda>f. f b' t c"]) auto

lemma nat_backend_frame: "b' \<noteq> b \<Longrightarrow> frame (\<lambda>w. rules w b' t c) (nat_backend h uePool nic accBr b)"
  unfolding nat_backend_def
  by (intro frame_intros nat_forward_frame delete_frame insert_frame frame_comp [OF new_frame, where f = "\<lambda>f. f b' t c"]) auto

lemma nat_backend_foreign:
  "frame (\<lambda>w. filter (\<lambda>x. x \<notin> n6_rules uePool nic accBr) (rules w b' t' c')) (nat_backend h uePool nic accBr b)"
  unfolding nat_backend_def nat_forward_def ins_def
  by (intro frame_intros foreign_frames frame_comp [OF new_frame, where f = "\<lambda>f. filter P (f b' t' c')" for P]
      frame_comp [OF exists_frame, where f = "\<lambda>f. filter P (f b' t' c')" for P]) (simp_all add: n6_rules_def)

lemma insert_top:
  assumes "run_state (iptDeleteIfExists h b t c r) w = (d, w1)" and "run_state (iptInsert h b t c 1 r) w1 = (None, w2)"
  shows "on_top r (rules w b t c) (rules w2 b t c)"
  using delete_rule [OF assms(1)] insert_rule [OF assms(2)] by (auto simp: on_top_def set_chain_def)

lemma ins_top:
  assumes ok: "\<And>t c r v. fst (run_state (iptInsert h b t c 1 r) v) = None" and run: "run_state (ins h b t c r) w = (u, w')"
  shows "on_top r (rules w b t c) (rules w' b t c)"
proof -
  obtain d w1 where d: "run_state (iptDeleteIfExists h b t c r) w = (d, w1)" by force
  obtain i w2 where i: "run_state (iptInsert h b t c 1 r) w1 = (i, w2)" by force
  from i ok [of t c r w1] run d have "i = None" "w' = w2" by (simp_all add: ins_def)
  with insert_top [OF d] i show ?thesis by simp
qed

lemma nat_backend_masq:
  assumes new: "fst (run_state (iptNew h b) w) = None" and run: "run_state (nat_backend h uePool nic accBr b) w = (rs, w')"
  shows "\<exists>x. rs = [x] \<and> (x = None \<longrightarrow>
    on_top (masq_rule uePool nic) (rules w b ''nat'' ''POSTROUTING'') (rules w' b ''nat'' ''POSTROUTING''))"
proof -
  let ?m = "masq_rule uePool nic" and ?c = "\<lambda>w. rules w b ''nat'' ''POSTROUTING''"
  obtain w0 where n: "run_state (iptNew h b) w = (None, w0)" using new by (metis prod.collapse)
  obtain d w1 where d: "run_state (iptDeleteIfExists h b ''nat'' ''POSTROUTING'' ?m) w0 = (d, w1)" by force
  obtain i w2 where i: "run_state (iptInsert h b ''nat'' ''POSTROUTING'' 1 ?m) w1 = (i, w2)" by force
  obtain u w3 where f: "run_state (nat_forward h uePool accBr b) w2 = (u, w3)" by (metis surj_pair)
  from run n d i f have rs: "rs = [case i of None \<Rightarrow> None | Some err \<Rightarrow> Some (b @ '' nat: '' @ Error err)]" and w3: "w' = w3"
    by (simp_all add: nat_backend_def)
  have "?c w3 = ?c w2" by (rule frameD [OF nat_forward_frame f]) simp
  moreover have "?c w0 = ?c w" using frameD [OF new_frame n] by simp
  ultimately show ?thesis
    using rs w3 insert_top [OF d] i by (auto split: option.splits)
qed

lemma nat_backend_forward:
  assumes new: "fst (run_state (iptNew h b) w) = None" and ok: "\<And>t c r v. fst (run_state (iptInsert h b t c 1 r) v) = None"
    and run: "run_state (nat_backend h uePool nic accBr b) w = (rs, w')"
  shows "take 2 (rules w' b ''filter'' ''FORWARD'') = [dst_rule uePool, src_rule uePool]"
proof -
  let ?c = "\<lambda>w. rules w b ''filter'' ''FORWARD''"
  define tail where "tail = (do { c \<leftarrow> iptChainExists h b ''filter'' ''DOCKER-USER'';
     u4 \<leftarrow> (if fst c then do { v1 \<leftarrow> ins h b ''filter'' ''DOCKER-USER'' (src_rule uePool); ins h b ''filter'' ''DOCKER-USER'' (dst_rule uePool) } else ret ());
     u5 \<leftarrow> append_unique h b ''mangle'' ''FORWARD'' (mss_rule ''-s'' uePool);
     append_unique h b ''mangle'' ''FORWARD'' (mss_rule ''-d'' uePool) })"
  have tl: "frame ?c tail"
    unfolding tail_def
    by (intro frame_intros ins_frame append_frame frame_comp [OF exists_frame, where f = "\<lambda>f. f b ''filter'' ''FORWARD''"]) auto
  obtain w0 where n: "run_state (iptNew h b) w = (None, w0)" using new by (metis prod.collapse)
  obtain d w1 where d: "run_state (iptDeleteIfExists h b ''nat'' ''POSTROUTING'' (masq_rule uePool nic)) w0 = (d, w1)" by force
  obtain i w2 where i: "run_state (iptInsert h b ''nat'' ''POSTROUTING'' 1 (masq_rule uePool nic)) w1 = (i, w2)" by force
  obtain u1 w3 where s: "run_state (ins h b ''filter'' ''FORWARD'' (src_rule uePool)) w2 = (u1, w3)" by (metis surj_pair)
  obtain u2 w4 where t: "run_state (ins h b ''filter'' ''FORWARD'' (dst_rule uePool)) w3 = (u2, w4)" by (metis surj_pair)
  obtain a w5 where a: "run_state (iptAppendUnique h b ''filter'' ''FORWARD'' (hairpin_rule accBr)) w4 = (a, w5)" by force
  obtain u w6 where z: "run_state tail w5 = (u, w6)" by (metis surj_pair)
  have "run_state (nat_forward h uePool accBr b) w2 = (u, w6)"
    using s t a z by (simp add: nat_forward_def append_unique_def tail_def)
  with run n d i have "w' = w6" by (simp add: nat_backend_def)
  moreover have "?c w6 = ?c w5" by (rule frameD [OF tl z])
  moreover have "take 2 (?c w5) = take 2 (?c w4)" if "length (?c w4) \<ge> 2"
    using append_rule [OF a] that by (auto simp: set_chain_def)
  moreover have "take 2 (?c w4) = [dst_rule uePool, src_rule uePool] \<and> length (?c w4) \<ge> 2"
    using ins_top [OF ok s] ins_top [OF ok t] by (auto simp: on_top_def src_rule_def dst_rule_def)
  ultimately show ?thesis by simp
qed

end

section \<open>What the address calls promise\<close>

text \<open>
  \<open>nics w n\<close> are the IPv4 addresses of an interface with their prefix lengths. \<open>netlink.ParseAddr\<close>
  reads a text without a label as \<open>net.ParseCIDR\<close> does; the kernel lists IPv4 addresses as four
  bytes with a mask of 32 bits. Of \<open>map_order\<close> only the keys are known.
\<close>

definition prefix_len :: "Addr \<Rightarrow> nat" where
  "prefix_len a = fst (Mask_Size (ad_Mask a))"

locale host_addrs =
  fixes h :: "'w host" and nics :: "'w \<Rightarrow> string \<Rightarrow> (int list \<times> nat) set"
  assumes link_name: "run_state (LinkByName h n) w = (Inr l, w') \<Longrightarrow> lk_Name l = n"
    and link_frame: "frame nics (LinkByName h n)"
    and parse_addr: "CHR '' '' \<notin> set s \<Longrightarrow> ParseAddr h s = Inr a \<longleftrightarrow> (\<exists>net. ParseCIDR s = Inr (ad_IP a, net) \<and> net_Mask net = ad_Mask a)"
    and addr_list: "run_state (AddrList h l) w = ((xs, e), w') \<Longrightarrow> a \<in> set xs \<Longrightarrow>
      octets (ad_IP a) \<and> snd (Mask_Size (ad_Mask a)) = 32 \<and> (ad_IP a, prefix_len a) \<in> nics w (lk_Name l)"
    and addr_list_all: "run_state (AddrList h l) w = ((xs, None), w') \<Longrightarrow> (b, k) \<in> nics w (lk_Name l) \<Longrightarrow>
      \<exists>a \<in> set xs. ad_IP a = b \<and> prefix_len a = k"
    and addrs_frame: "frame nics (AddrList h l)"
    and replace: "run_state (AddrReplace h l a) w = (res, w') \<Longrightarrow>
      nics w' = (if res = None \<and> octets (To4 (ad_IP a))
        then (nics w)(lk_Name l := insert (To4 (ad_IP a), prefix_len a) (nics w (lk_Name l))) else nics w)"
    and del: "run_state (AddrDel h l a) w = (res, w') \<Longrightarrow>
      nics w' = (if res = None then (nics w)(lk_Name l := nics w (lk_Name l) - {(To4 (ad_IP a), prefix_len a)}) else nics w)"
    and order: "run_state (map_order h ks) w = (ks', w') \<Longrightarrow> set ks' = set ks"
    and order_frame: "frame nics (map_order h ks)"

lemma set_keys_go_map: "set (map fst (go_map ps)) = fst ` set ps"
proof -
  have "fst ` set (foldl (\<lambda>m (k, v). upsert k v m) m ps) = fst ` set m \<union> fst ` set ps" for m
    by (induction ps arbitrary: m) (simp_all add: split_def)
  from this [of "[]"] show ?thesis by (simp add: go_map_def)
qed

lemma set_wanted_vips: "set (wanted_vips svcs) = {ip. ip \<noteq> '''' \<and> (\<exists>s \<in> set svcs. ip \<in> set (svc_IngressIPs s))}"
  unfolding wanted_vips_def set_keys_go_map by (auto simp: image_iff)

text \<open>An entry of an interface that one of the wanted texts denotes.\<close>

definition denoted :: "string list \<Rightarrow> int list \<times> nat \<Rightarrow> bool" where
  "denoted want x \<longleftrightarrow> (\<exists>ip \<in> set want. To4 (ParseIP ip) = fst x)"

definition stale :: "string list \<Rightarrow> int list \<times> nat \<Rightarrow> bool" where
  "stale want x \<longleftrightarrow> snd x = 32 \<and> dotted (fst x) \<notin> set want \<and> isRanVIPCandidate (dotted (fst x))"

lemma itoa_32: "itoa 32 = ''32''" and itoa_16: "itoa 16 = ''16''"
  by code_simp+

lemma space_not_in_dotted: "CHR '' '' \<notin> set (dotted vs)"
proof -
  have "CHR '' '' \<notin> set (nat_str n)" for n
    using nat_str_digits [of n] by (auto simp: bytes_def list_all_iff is_digit_def)
  then have "CHR '' '' \<notin> set (itoa v)" for v by (auto simp: itoa_def)
  then show ?thesis by (induction vs rule: dotted.induct) auto
qed

context host_addrs
begin

lemma parse_vip:
  assumes "CHR '' '' \<notin> set ip" and "ParseAddr h (ip @ ''/32'') = Inr a"
  shows "ad_IP a = ParseIP ip"
proof -
  from assms parse_addr [of "ip @ ''/32''" a] obtain net where c: "ParseCIDR (ip @ ''/32'') = Inr (ad_IP a, net)" by auto
  have t: "takeWhile (\<lambda>c. c \<noteq> CHR ''/'') (ip @ ''/32'') = takeWhile (\<lambda>c. c \<noteq> CHR ''/'') ip"
    by (induction ip) auto
  have "takeWhile (\<lambda>c. c \<noteq> CHR ''/'') ip = ip"
  proof (rule ccontr)
    assume "takeWhile (\<lambda>c. c \<noteq> CHR ''/'') ip \<noteq> ip"
    then have l: "length (takeWhile (\<lambda>c. c \<noteq> CHR ''/'') ip) < length ip"
      by (metis length_takeWhile_le nat_less_le takeWhile_eq_take take_all)
    have d: "dtoi (xs @ ''/32'') n = None" for xs n by (induction xs arbitrary: n) (auto simp: is_digit_def)
    obtain xs where "drop (Suc (length (takeWhile (\<lambda>c. c \<noteq> CHR ''/'') ip))) (ip @ ''/32'') = xs @ ''/32''" using l by simp
    with c d show False by (simp add: ParseCIDR_def t Let_def split: if_splits option.splits prod.splits)
  qed
  with c show ?thesis by (simp add: ParseCIDR_def t Let_def ParseIP_def split: if_splits option.splits prod.splits)
qed

lemma announce_dotted:
  assumes "octets a"
  shows "ParseAddr h (dotted a @ ''/32'') = Inr \<lparr>ad_IP = v4InV6Prefix @ a, ad_Mask = CIDRMask 32 32\<rparr>"
  using ParseCIDR_dotted [OF assms, of 32] space_not_in_dotted [of a] by (subst parse_addr) (auto simp: itoa_32)

end

context host_addrs
begin

text \<open>Announcing: nothing is lost, what is added is denoted by a wanted text.\<close>

lemma announce_step:
  assumes "run_state (announce h l nic ip) v = (e, v')" and "CHR '' '' \<notin> set ip" and "ip \<in> set want"
  shows "(\<forall>n. n \<noteq> lk_Name l \<longrightarrow> nics v' n = nics v n) \<and> nics v (lk_Name l) \<subseteq> nics v' (lk_Name l)
    \<and> (\<forall>x \<in> nics v' (lk_Name l). x \<in> nics v (lk_Name l) \<or> denoted want x)"
proof (cases "ParseAddr h (ip @ ''/32'')")
  case (Inl perr)
  with assms(1) show ?thesis by (simp add: announce_def)
next
  case (Inr a)
  obtain res v1 where r: "run_state (AddrReplace h l a) v = (res, v1)" by force
  with assms(1) Inr have "v' = v1" by (simp add: announce_def)
  with replace [OF r] parse_vip [OF assms(2) Inr] assms(3) show ?thesis by (auto simp: denoted_def)
qed

lemma announce_done:
  assumes "run_state (announce h l nic (dotted a)) v = (None, v')" and "octets a"
  shows "(a, 32) \<in> nics v' (lk_Name l)"
proof -
  let ?a = "\<lparr>ad_IP = v4InV6Prefix @ a, ad_Mask = CIDRMask 32 32\<rparr>"
  obtain res v1 where r: "run_state (AddrReplace h l ?a) v = (res, v1)" by force
  with assms(1) announce_dotted [OF assms(2)] have "v' = v1" "res = None" by (simp_all add: announce_def)
  with replace [OF r] assms(2) Mask_Size_CIDRMask [of 32] show ?thesis
    by (simp add: prefix_len_def)
qed

lemma announce_all:
  assumes "run_state (for_until_err (announce h l nic) ks) w = (None, w')" and "set ks = set want"
    and plain: "\<And>ip. ip \<in> set want \<Longrightarrow> CHR '' '' \<notin> set ip"
  shows "((\<forall>n. n \<noteq> lk_Name l \<longrightarrow> nics w' n = nics w n) \<and> nics w (lk_Name l) \<subseteq> nics w' (lk_Name l)
    \<and> (\<forall>x \<in> nics w' (lk_Name l). x \<in> nics w (lk_Name l) \<or> denoted want x))
    \<and> (\<forall>ip \<in> set ks. \<forall>a. octets a \<longrightarrow> ip = dotted a \<longrightarrow> (a, 32) \<in> nics w' (lk_Name l))"
proof (rule for_until_err_all [OF assms(1)])
  fix ip v v'
  assume ip: "ip \<in> set ks" and run: "run_state (announce h l nic ip) v = (None, v')"
    and i: "(\<forall>n. n \<noteq> lk_Name l \<longrightarrow> nics v n = nics w n) \<and> nics w (lk_Name l) \<subseteq> nics v (lk_Name l)
      \<and> (\<forall>x \<in> nics v (lk_Name l). x \<in> nics w (lk_Name l) \<or> denoted want x)"
  show "((\<forall>n. n \<noteq> lk_Name l \<longrightarrow> nics v' n = nics w n) \<and> nics w (lk_Name l) \<subseteq> nics v' (lk_Name l)
      \<and> (\<forall>x \<in> nics v' (lk_Name l). x \<in> nics w (lk_Name l) \<or> denoted want x))
    \<and> (\<forall>a. octets a \<longrightarrow> ip = dotted a \<longrightarrow> (a, 32) \<in> nics v' (lk_Name l))"
    using announce_step [OF run plain, of want] announce_done [of l nic _ v v'] run ip i assms(2) by fastforce
next
  fix ip y v v'
  assume "y \<in> set ks" and "run_state (announce h l nic y) v = (None, v')"
    and "\<forall>a. octets a \<longrightarrow> ip = dotted a \<longrightarrow> (a, 32) \<in> nics v (lk_Name l)"
  then show "\<forall>a. octets a \<longrightarrow> ip = dotted a \<longrightarrow> (a, 32) \<in> nics v' (lk_Name l)"
    using announce_step [of l nic y v None v' want] plain assms(2) by auto
qed simp

text \<open>Cleaning up: only stale entries of this interface go.\<close>

lemma clean_up:
  assumes run: "run_state (for_each (remove_stale h l want) xs) w = (u, w')"
    and xs: "\<And>a. a \<in> set xs \<Longrightarrow> octets (ad_IP a)"
  shows "(\<forall>n. n \<noteq> lk_Name l \<longrightarrow> nics w' n = nics w n) \<and> nics w' (lk_Name l) \<subseteq> nics w (lk_Name l)
    \<and> (\<forall>x \<in> nics w (lk_Name l). x \<in> nics w' (lk_Name l) \<or> stale want x)"
proof (rule for_each_inv [OF run])
  fix a v v' y
  assume a: "a \<in> set xs" and i: "(\<forall>n. n \<noteq> lk_Name l \<longrightarrow> nics v n = nics w n) \<and> nics v (lk_Name l) \<subseteq> nics w (lk_Name l)
    \<and> (\<forall>x \<in> nics w (lk_Name l). x \<in> nics v (lk_Name l) \<or> stale want x)"
    and r: "run_state (remove_stale h l want a) v = (y, v')"
  obtain res v1 where d: "run_state (AddrDel h l a) v = (res, v1)" by force
  have st: "stale want (To4 (ad_IP a), prefix_len a)" if "stale_vip want a"
    using that xs [OF a] by (simp add: stale_vip_def stale_def prefix_len_def)
  show "(\<forall>n. n \<noteq> lk_Name l \<longrightarrow> nics v' n = nics w n) \<and> nics v' (lk_Name l) \<subseteq> nics w (lk_Name l)
    \<and> (\<forall>x \<in> nics w (lk_Name l). x \<in> nics v' (lk_Name l) \<or> stale want x)"
    using r d del [OF d] i st by (auto simp: remove_stale_def split: if_splits)
qed simp

end

context host_addrs
begin

lemma clean_up_all:
  assumes "run_state (for_each (remove_stale h l want) xs) w = (u, w')"
    and "\<And>a. a \<in> set xs \<Longrightarrow> octets (ad_IP a)" and "\<And>a v. fst (run_state (AddrDel h l a) v) = None" and "a \<in> set xs" and "stale_vip want a"
  shows "(ad_IP a, prefix_len a) \<notin> nics w' (lk_Name l)"
  using assms(1,2,4)
proof (induction xs arbitrary: w)
  case (Cons b xs)
  let ?f = "remove_stale h l want"
  obtain y w1 where b: "run_state (?f b) w = (y, w1)" by (metis surj_pair)
  with Cons.prems(1) have r: "run_state (for_each ?f xs) w1 = (u, w')" by simp
  have mono: "nics w' (lk_Name l) \<subseteq> nics w1 (lk_Name l)" using clean_up [OF r] Cons.prems(2) by simp
  show ?case
  proof (cases "a \<in> set xs")
    case True
    with Cons.IH [OF r] Cons.prems(2) show ?thesis by simp
  next
    case False
    with Cons.prems(3) have ab: "a = b" by simp
    obtain res w2 where d: "run_state (AddrDel h l b) w = (res, w2)" by force
    then have "res = None" using assms(3) [of b w] by simp
    with d b assms(5) ab del [OF d] have "(ad_IP a, prefix_len a) \<notin> nics w1 (lk_Name l)"
      using Cons.prems(2) [of b] by (auto simp: remove_stale_def)
    with mono show ?thesis by blast
  qed
qed simp

end

text \<open>The addresses the exposed N2 services have.\<close>

definition exposed :: "('w \<Rightarrow> ObjectKey \<Rightarrow> kobject option) \<Rightarrow> 'w \<Rightarrow> string set" where
  "exposed view w = {ip. ip \<noteq> '''' \<and> (\<exists>s. view w (key_of (KService s)) = Some (KService s)
     \<and> map_of (om_Labels (svc_Meta s)) ''sdcore.nephio.io/expose'' = Some ''n2'' \<and> ip \<in> set (svc_IngressIPs s))}"

locale n2_world = host_addrs h nics + kube_api c view
  for h :: "'w host" and nics :: "'w \<Rightarrow> string \<Rightarrow> (int list \<times> nat) set" and c :: "'w kclient" and view :: "'w \<Rightarrow> ObjectKey \<Rightarrow> kobject option" +
  assumes klist_nics: "frame nics (kList c g os)"
begin

lemma wanted_exposed:
  assumes "run_state (list_as c as_Service (coreGVK ''Service'') [MatchingLabels expose_label]) w = (Inr svcs, w')"
  shows "set (wanted_vips svcs) = exposed view w"
  unfolding set_wanted_vips exposed_def Bex_def list_as_ok [OF assms] by (auto simp: as_simps expose_label_def)

lemma apply_vips_runs:
  assumes run: "run_state (apply_vips h l nic want) w = (None, w')"
  obtains ks w3 w4 xs e w5 u where "run_state (map_order h want) w = (ks, w3)"
    "run_state (for_until_err (announce h l nic) ks) w3 = (None, w4)" "run_state (AddrList h l) w4 = ((xs, e), w5)"
    "run_state (for_each (remove_stale h l want) xs) w5 = (u, w')"
proof -
  obtain ks w3 where o: "run_state (map_order h want) w = (ks, w3)" by force
  obtain er w4 where a: "run_state (for_until_err (announce h l nic) ks) w3 = (er, w4)" by force
  obtain xs e w5 where x: "run_state (AddrList h l) w4 = ((xs, e), w5)" by (metis surj_pair)
  obtain u w6 where c: "run_state (for_each (remove_stale h l want) xs) w5 = (u, w6)" by (metis surj_pair)
  have "run_state (apply_vips h l nic want) w = (case er of Some err \<Rightarrow> (Some err, w4) | None \<Rightarrow> (None, w6))"
    by (cases er) (simp_all add: apply_vips_def o a x c)
  with run have e: "er = None" and w: "w' = w6" by (simp_all split: option.splits)
  show ?thesis by (rule that [OF o a [unfolded e] x c [folded w]])
qed

lemma ensureN2VIP_announces:
  assumes run: "run_state (ensureN2VIP h c nic) w = (None, w')" and nic: "nic \<noteq> ''''"
    and svcs: "run_state (list_as c as_Service (coreGVK ''Service'') [MatchingLabels expose_label]) w = (Inr svcs, w1)"
    and link: "run_state (LinkByName h nic) w1 = (Inr l, w2)" and plain: "\<forall>ip \<in> exposed view w. CHR '' '' \<notin> set ip"
  shows "\<forall>n. n \<noteq> nic \<longrightarrow> nics w' n = nics w n"
    and "octets a \<Longrightarrow> dotted a \<in> exposed view w \<Longrightarrow> (a, 32) \<in> nics w' nic"
    and "x \<in> nics w nic \<Longrightarrow> x \<in> nics w' nic \<or> stale (wanted_vips svcs) x"
    and "x \<in> nics w' nic \<Longrightarrow> x \<in> nics w nic \<or> denoted (wanted_vips svcs) x"
    and "(\<And>a v. fst (run_state (AddrDel h l a) v) = None) \<Longrightarrow> (\<And>v. snd (fst (run_state (AddrList h l) v)) = None)
      \<Longrightarrow> x \<in> nics w' nic \<Longrightarrow> \<not> stale (wanted_vips svcs) x"
proof -
  note ln = link_name [OF link]
  have av: "run_state (apply_vips h l nic (wanted_vips svcs)) w2 = (None, w')"
    using run by (simp add: ensureN2VIP_def nic svcs link)
  obtain ks w3 w4 xs e w5 u where o: "run_state (map_order h (wanted_vips svcs)) w2 = (ks, w3)"
    and a: "run_state (for_until_err (announce h l nic) ks) w3 = (None, w4)" and x: "run_state (AddrList h l) w4 = ((xs, e), w5)"
    and cl: "run_state (for_each (remove_stale h l (wanted_vips svcs)) xs) w5 = (u, w')"
    by (rule apply_vips_runs [OF av])
  have fl: "frame nics (list_as c as_Service (coreGVK ''Service'') [MatchingLabels expose_label])"
    unfolding list_as_def by (intro frame_intros klist_nics)
  have n3: "nics w3 = nics w"
    using frameD [OF fl svcs] frameD [OF link_frame link] frameD [OF order_frame o] by simp
  have n5: "nics w5 = nics w4" by (rule frameD [OF addrs_frame x])
  have want: "set (wanted_vips svcs) = exposed view w" by (rule wanted_exposed [OF svcs])
  have pl: "\<And>ip. ip \<in> set (wanted_vips svcs) \<Longrightarrow> CHR '' '' \<notin> set ip" using plain want by simp
  note A = announce_all [OF a order [OF o] pl, unfolded ln n3]
  note A1 = A [THEN conjunct1, THEN conjunct1] and A2 = A [THEN conjunct1, THEN conjunct2, THEN conjunct1]
    and A3 = A [THEN conjunct1, THEN conjunct2, THEN conjunct2] and A4 = A [THEN conjunct2]
  have oc: "\<And>a. a \<in> set xs \<Longrightarrow> octets (ad_IP a)" using addr_list [OF x] by simp
  note C = clean_up [OF cl oc, unfolded ln n5]
  note C1 = C [THEN conjunct1] and C2 = C [THEN conjunct2, THEN conjunct1] and C3 = C [THEN conjunct2, THEN conjunct2]
  show "\<forall>n. n \<noteq> nic \<longrightarrow> nics w' n = nics w n" using A1 C1 by simp
  show "(a, 32) \<in> nics w' nic" if "octets a" "dotted a \<in> exposed view w" for a
  proof -
    have "dotted a \<in> set ks" using that(2) want order [OF o] by simp
    with A4 that(1) have "(a, 32) \<in> nics w4 nic" by blast
    moreover have "\<not> stale (wanted_vips svcs) (a, 32)" using that(2) want by (simp add: stale_def)
    ultimately show ?thesis using C3 by blast
  qed
  show "x \<in> nics w' nic \<or> stale (wanted_vips svcs) x" if "x \<in> nics w nic" for x using A2 C3 that by blast
  show "x \<in> nics w nic \<or> denoted (wanted_vips svcs) x" if "x \<in> nics w' nic" for x using A3 C2 that by blast
  show "\<not> stale (wanted_vips svcs) x" if dl: "\<And>a v. fst (run_state (AddrDel h l a) v) = None"
    and li: "\<And>v. snd (fst (run_state (AddrList h l) v)) = None" and xn: "x \<in> nics w' nic" for x
  proof
    assume st: "stale (wanted_vips svcs) x"
    from xn C2 have "x \<in> nics w4 nic" by blast
    moreover have "e = None" using li [of w4] x by simp
    ultimately obtain ad where ad: "ad \<in> set xs" "ad_IP ad = fst x" "prefix_len ad = snd x"
      using addr_list_all [of l w4 xs w5 "fst x" "snd x"] x ln by auto
    have sv: "stale_vip (wanted_vips svcs) ad"
      using st ad addr_list [OF x ad(1)] by (cases "Mask_Size (ad_Mask ad)") (simp add: stale_vip_def stale_def prefix_len_def)
    from clean_up_all [OF cl oc dl ad(1) sv] ad(2,3) xn ln show False by simp
  qed
qed

end

section \<open>A host in memory\<close>

record host_lab = cluster +
  hl_links :: "string list"
  hl_rules :: "string \<Rightarrow> string \<Rightarrow> string \<Rightarrow> string list list"
  hl_addrs :: "(string \<times> int list \<times> nat) list"
  hl_routes :: "Route list"

definition lab_nics :: "host_lab \<Rightarrow> string \<Rightarrow> (int list \<times> nat) set" where
  "lab_nics w n = {(a, k). (n, a, k) \<in> set (hl_addrs w) \<and> octets a \<and> k \<le> 32}"

definition lab_link :: "string \<Rightarrow> (host_lab, error + Link) io" where
  "lab_link n = State (\<lambda>w. (if n \<in> set (hl_links w) then Inr \<lparr>lk_Name = n, lk_Index = 1\<rparr> else Inl (ErrorString ''Link not found''), w))"

definition lab_ParseAddr :: "string \<Rightarrow> error + Addr" where
  "lab_ParseAddr s = (case ParseCIDR s of Inl e \<Rightarrow> Inl e | Inr (ip, net) \<Rightarrow> Inr \<lparr>ad_IP = ip, ad_Mask = net_Mask net\<rparr>)"

definition lab_AddrList :: "Link \<Rightarrow> (host_lab, Addr list \<times> error option) io" where
  "lab_AddrList l = State (\<lambda>w. ((map (\<lambda>(n, a, k). \<lparr>ad_IP = a, ad_Mask = CIDRMask (int k) 32\<rparr>)
     (filter (\<lambda>(n, a, k). n = lk_Name l \<and> octets a \<and> k \<le> 32) (hl_addrs w)), None), w))"

definition lab_AddrReplace :: "Link \<Rightarrow> Addr \<Rightarrow> (host_lab, error option) io" where
  "lab_AddrReplace l a = State (\<lambda>w. if prefix_len a > 32 then (Some (ErrorString ''invalid argument''), w)
     else (None, w\<lparr>hl_addrs := (lk_Name l, To4 (ad_IP a), prefix_len a) # hl_addrs w\<rparr>))"

definition lab_AddrDel :: "Link \<Rightarrow> Addr \<Rightarrow> (host_lab, error option) io" where
  "lab_AddrDel l a = State (\<lambda>w. (None, w\<lparr>hl_addrs := filter (\<lambda>x. x \<noteq> (lk_Name l, To4 (ad_IP a), prefix_len a)) (hl_addrs w)\<rparr>))"

definition lab_chain :: "string \<Rightarrow> string \<Rightarrow> string \<Rightarrow> (string list list \<Rightarrow> string list list) \<Rightarrow> (host_lab, error option) io" where
  "lab_chain b t c f = State (\<lambda>w. (None, w\<lparr>hl_rules := set_chain (hl_rules w) b t c (f (hl_rules w b t c))\<rparr>))"

definition lab_host :: "(string \<Rightarrow> error option) \<Rightarrow> host_lab host" where
  "lab_host new = \<lparr>LinkByName = lab_link, LinkByIndex = (\<lambda>i. ret (Inl (ErrorString ''Link not found''))),
     LinkAdd = (\<lambda>n. State (\<lambda>w. (Inr \<lparr>lk_Name = n, lk_Index = 1\<rparr>, w\<lparr>hl_links := n # hl_links w\<rparr>))), LinkSetUp = (\<lambda>l. ret None),
     ParseAddr = lab_ParseAddr, AddrList = lab_AddrList, AddrAdd = lab_AddrReplace, AddrReplace = lab_AddrReplace, AddrDel = lab_AddrDel,
     RouteGet = (\<lambda>ip. ret (Inl (ErrorString ''network is unreachable''))), RouteList = ret (Inr []),
     RouteReplace = (\<lambda>r. State (\<lambda>w. (None, w\<lparr>hl_routes := r # hl_routes w\<rparr>))),
     NeighList = (\<lambda>i. ret ([], None)), NeighDel = (\<lambda>n. ret None), iptNew = (\<lambda>b. ret (new b)),
     iptDeleteIfExists = (\<lambda>b t c r. lab_chain b t c (remove1 r)), iptInsert = (\<lambda>b t c i r. lab_chain b t c ((#) r)),
     iptAppendUnique = (\<lambda>b t c r. lab_chain b t c (\<lambda>rs. if r \<in> set rs then rs else rs @ [r])),
     iptChainExists = (\<lambda>b t c. ret (False, None)), WriteFile = (\<lambda>f s. ret None), Command_Run = (\<lambda>xs. ret None), map_order = ret\<rparr>"

lemma set_chain_same: "set_chain f b t c (f b t c) = f"
  by (auto simp: set_chain_def fun_eq_iff)

interpretation lab_filter: packet_filter "lab_host new" hl_rules for new
  by unfold_locales (auto simp: lab_host_def lab_chain_def frame_def set_chain_same)

interpretation lab_addrs: host_addrs "lab_host new" lab_nics for new
proof
  fix s and a :: Addr
  assume "CHR '' '' \<notin> set s"
  show "ParseAddr (lab_host new) s = Inr a \<longleftrightarrow> (\<exists>net. ParseCIDR s = Inr (ad_IP a, net) \<and> net_Mask net = ad_Mask a)"
    by (cases a) (auto simp: lab_host_def lab_ParseAddr_def split: sum.splits)
next
  fix l w xs w' b k
  assume "run_state (AddrList (lab_host new) l) w = ((xs, None), w')" and "(b, k) \<in> lab_nics w (lk_Name l)"
  then have "\<lparr>ad_IP = b, ad_Mask = CIDRMask (int k) 32\<rparr> \<in> set xs" and "k \<le> 32"
    by (auto simp: lab_host_def lab_AddrList_def lab_nics_def image_iff)
  then show "\<exists>a \<in> set xs. ad_IP a = b \<and> prefix_len a = k"
    by (intro bexI [of _ "\<lparr>ad_IP = b, ad_Mask = CIDRMask (int k) 32\<rparr>"]) (auto simp: prefix_len_def Mask_Size_CIDRMask)
qed (auto simp: lab_host_def lab_link_def lab_AddrList_def lab_AddrReplace_def lab_AddrDel_def lab_nics_def frame_def prefix_len_def
    Mask_Size_CIDRMask fun_eq_iff split: if_splits)

interpretation lab_n2: n2_world "lab_host new" lab_nics mem_client cl_view for new
  by unfold_locales (simp add: frame_def mem_client_def mem_list_def)

section \<open>Properties\<close>

context packet_filter
begin

lemma nat_backend_applied:
  assumes "run_state (nat_backend h uePool nic accBr b) w = (rs, w')" and "None \<in> set rs"
  shows "on_top (masq_rule uePool nic) (rules w b ''nat'' ''POSTROUTING'') (rules w' b ''nat'' ''POSTROUTING'')"
proof (cases "fst (run_state (iptNew h b) w)")
  case None
  from nat_backend_masq [OF None assms(1)] assms(2) show ?thesis by auto
next
  case (Some e)
  with assms show ?thesis by (auto simp: nat_backend_def split: prod.splits)
qed

lemma nat_backend_present:
  assumes "run_state (nat_backend h uePool nic accBr b) w = (rs, w')" and "fst (run_state (iptNew h b) w) = None"
  shows "rs \<noteq> []"
  using nat_backend_masq [OF assms(2,1)] by auto

text \<open>The run of both backends, one after the other.\<close>

lemma ensureN6Nat_runs:
  assumes "run_state (ensureN6Nat h uePool nic accBr) w = (res, w')" and "nic \<noteq> ''''"
  obtains r1 w1 r2 where "run_state (nat_backend h uePool nic accBr ''iptables'') w = (r1, w1)"
    "run_state (nat_backend h uePool nic accBr ''iptables-legacy'') w1 = (r2, w')"
    "res = None \<longleftrightarrow> None \<in> set (r1 @ r2) \<or> r1 @ r2 = []"
proof -
  obtain r1 w1 where a: "run_state (nat_backend h uePool nic accBr ''iptables'') w = (r1, w1)" by force
  obtain r2 w2 where b: "run_state (nat_backend h uePool nic accBr ''iptables-legacy'') w1 = (r2, w2)" by force
  have e: "List.map_filter id rs = [] \<longleftrightarrow> rs = []" if "None \<notin> set rs" for rs :: "string option list"
    using that by (cases rs) (auto simp: List.map_filter_simps split: option.splits)
  have "res = None \<longleftrightarrow> None \<in> set (r1 @ r2) \<or> r1 @ r2 = []" and "w' = w2"
    using assms a b e [of "r1 @ r2"] by (auto simp: ensureN6Nat_def nat_backends_def Let_def)
  with that a b show ?thesis by simp
qed

lemma ensureN6Nat_masq:
  assumes run: "run_state (ensureN6Nat h uePool nic accBr) w = (None, w')" and nic: "nic \<noteq> ''''"
    and b: "b \<in> set nat_backends" and new: "\<And>v. fst (run_state (iptNew h b) v) = None"
  shows "\<exists>b \<in> set nat_backends. on_top (masq_rule uePool nic) (rules w b ''nat'' ''POSTROUTING'') (rules w' b ''nat'' ''POSTROUTING'')"
proof -
  obtain r1 w1 r2 where r1: "run_state (nat_backend h uePool nic accBr ''iptables'') w = (r1, w1)"
    and r2: "run_state (nat_backend h uePool nic accBr ''iptables-legacy'') w1 = (r2, w')"
    and res: "(None :: error option) = None \<longleftrightarrow> None \<in> set (r1 @ r2) \<or> r1 @ r2 = []"
    by (rule ensureN6Nat_runs [OF run nic])
  have "r1 @ r2 \<noteq> []" using b nat_backend_present [OF r1] nat_backend_present [OF r2] new by (auto simp: nat_backends_def)
  with res consider "None \<in> set r1" | "None \<in> set r2" by auto
  then show ?thesis
  proof cases
    case 1
    have "rules w' ''iptables'' ''nat'' ''POSTROUTING'' = rules w1 ''iptables'' ''nat'' ''POSTROUTING''"
      by (rule frameD [OF nat_backend_frame r2]) simp
    with nat_backend_applied [OF r1 1] show ?thesis by (auto simp: nat_backends_def)
  next
    case 2
    have "rules w1 ''iptables-legacy'' ''nat'' ''POSTROUTING'' = rules w ''iptables-legacy'' ''nat'' ''POSTROUTING''"
      by (rule frameD [OF nat_backend_frame r1]) simp
    with nat_backend_applied [OF r2 2] show ?thesis by (auto simp: nat_backends_def)
  qed
qed

lemma ensureN6Nat_forward:
  assumes run: "run_state (ensureN6Nat h uePool nic accBr) w = (res, w')" and nic: "nic \<noteq> ''''"
    and b: "b \<in> set nat_backends" and new: "\<And>v. fst (run_state (iptNew h b) v) = None"
    and ok: "\<And>t c r v. fst (run_state (iptInsert h b t c 1 r) v) = None"
  shows "take 2 (rules w' b ''filter'' ''FORWARD'') = [dst_rule uePool, src_rule uePool]"
proof -
  obtain r1 w1 r2 where r1: "run_state (nat_backend h uePool nic accBr ''iptables'') w = (r1, w1)"
    and r2: "run_state (nat_backend h uePool nic accBr ''iptables-legacy'') w1 = (r2, w')"
    by (rule ensureN6Nat_runs [OF run nic])
  show ?thesis
  proof (cases "b = ''iptables''")
    case True
    have "rules w' ''iptables'' ''filter'' ''FORWARD'' = rules w1 ''iptables'' ''filter'' ''FORWARD''"
      by (rule frameD [OF nat_backend_frame r2]) simp
    with True nat_backend_forward [OF _ _ r1] new ok show ?thesis by simp
  next
    case False
    with b have "b = ''iptables-legacy''" by (simp add: nat_backends_def)
    with nat_backend_forward [OF _ _ r2] new ok show ?thesis by simp
  qed
qed

lemma nat_backend_ok:
  assumes new: "\<And>v. fst (run_state (iptNew h b) v) = None" and ok: "\<And>t c r v. fst (run_state (iptInsert h b t c 1 r) v) = None"
    and run: "run_state (nat_backend h uePool nic accBr b) w = (rs, w')"
  shows "rs = [None]"
proof -
  obtain n w0 where n: "run_state (iptNew h b) w = (n, w0)" by force
  obtain d w1 where d: "run_state (iptDeleteIfExists h b ''nat'' ''POSTROUTING'' (masq_rule uePool nic)) w0 = (d, w1)" by force
  obtain i w2 where i: "run_state (iptInsert h b ''nat'' ''POSTROUTING'' 1 (masq_rule uePool nic)) w1 = (i, w2)" by force
  obtain u w3 where f: "run_state (nat_forward h uePool accBr b) w2 = (u, w3)" by (metis surj_pair)
  have "n = None" "i = None" using new [of w] n ok [of "''nat''" "''POSTROUTING''" "masq_rule uePool nic" w1] i by simp_all
  with run n d i f show ?thesis by (simp add: nat_backend_def)
qed

lemma ensureN6Nat_succeeds:
  assumes run: "run_state (ensureN6Nat h uePool nic accBr) w = (res, w')" and nic: "nic \<noteq> ''''"
    and b: "b \<in> set nat_backends" and new: "\<And>v. fst (run_state (iptNew h b) v) = None"
    and ok: "\<And>t c r v. fst (run_state (iptInsert h b t c 1 r) v) = None"
  shows "res = None"
proof -
  obtain r1 w1 r2 where r1: "run_state (nat_backend h uePool nic accBr ''iptables'') w = (r1, w1)"
    and r2: "run_state (nat_backend h uePool nic accBr ''iptables-legacy'') w1 = (r2, w')"
    and res: "res = None \<longleftrightarrow> None \<in> set (r1 @ r2) \<or> r1 @ r2 = []"
    by (rule ensureN6Nat_runs [OF run nic])
  from b consider "b = ''iptables''" | "b = ''iptables-legacy''" by (auto simp: nat_backends_def)
  then show ?thesis
  proof cases
    case 1
    with nat_backend_ok [OF _ _ r1] new ok res show ?thesis by simp
  next
    case 2
    with nat_backend_ok [OF _ _ r2] new ok res show ?thesis by simp
  qed
qed

lemma ensureN6Nat_foreign:
  "frame (\<lambda>w. filter (\<lambda>x. x \<notin> n6_rules uePool nic accBr) (rules w b t c)) (ensureN6Nat h uePool nic accBr)"
  unfolding ensureN6Nat_def Let_def by (intro frame_intros nat_backend_foreign)

end

text \<open>C16. The N6 NAT. Without an egress interface it is refused and nothing changes. Otherwise, whatever fails, no rule
  but the operator's own is changed or moved against the others, in any chain of any backend; when it returns
  without an error and at least one backend is installed, the MASQUERADE of the UE pool is on top of POSTROUTING
  in one of them; and when the insertions of an installed backend succeed, so does the step, and there the two accepts
  of the pool stand above every other rule of FORWARD.\<close>

theorem ensureN6Nat_correct:
  assumes "packet_filter h rules" and "run_state (ensureN6Nat h uePool nic accBr) w = (res, w')"
  shows "(nic = '''' \<longrightarrow> res = Some no_nic_error \<and> w' = w)
    \<and> (\<forall>b t c. filter (\<lambda>x. x \<notin> n6_rules uePool nic accBr) (rules w' b t c) = filter (\<lambda>x. x \<notin> n6_rules uePool nic accBr) (rules w b t c))
    \<and> (nic \<noteq> '''' \<and> res = None \<and> (\<exists>b \<in> set nat_backends. \<forall>v. fst (run_state (iptNew h b) v) = None) \<longrightarrow>
        (\<exists>b \<in> set nat_backends. on_top (masq_rule uePool nic) (rules w b ''nat'' ''POSTROUTING'') (rules w' b ''nat'' ''POSTROUTING'')))
    \<and> (\<forall>b \<in> set nat_backends. nic \<noteq> '''' \<and> (\<forall>v. fst (run_state (iptNew h b) v) = None)
        \<and> (\<forall>t c r v. fst (run_state (iptInsert h b t c 1 r) v) = None) \<longrightarrow>
        res = None \<and> take 2 (rules w' b ''filter'' ''FORWARD'') = [dst_rule uePool, src_rule uePool])"
proof (intro conjI allI ballI impI)
  show "res = Some no_nic_error" "w' = w" if "nic = ''''" using assms(2) that by (simp_all add: ensureN6Nat_def)
  fix b t c
  show "filter (\<lambda>x. x \<notin> n6_rules uePool nic accBr) (rules w' b t c) = filter (\<lambda>x. x \<notin> n6_rules uePool nic accBr) (rules w b t c)"
    by (rule frameD [OF packet_filter.ensureN6Nat_foreign [OF assms(1)] assms(2)])
next
  assume "nic \<noteq> '''' \<and> res = None \<and> (\<exists>b \<in> set nat_backends. \<forall>v. fst (run_state (iptNew h b) v) = None)"
  with packet_filter.ensureN6Nat_masq [OF assms(1), of uePool nic accBr w w'] assms(2)
  show "\<exists>b \<in> set nat_backends. on_top (masq_rule uePool nic) (rules w b ''nat'' ''POSTROUTING'') (rules w' b ''nat'' ''POSTROUTING'')"
    by blast
next
  fix b
  assume "b \<in> set nat_backends" and "nic \<noteq> '''' \<and> (\<forall>v. fst (run_state (iptNew h b) v) = None)
    \<and> (\<forall>t c r v. fst (run_state (iptInsert h b t c 1 r) v) = None)"
  then show "res = None" and "take 2 (rules w' b ''filter'' ''FORWARD'') = [dst_rule uePool, src_rule uePool]"
    using packet_filter.ensureN6Nat_succeeds [OF assms, of b] packet_filter.ensureN6Nat_forward [OF assms, of b] by blast+
qed

definition demo_service :: Service where
  "demo_service = \<lparr>svc_Meta = (named_meta ''default'' ''amf-n2'')\<lparr>om_Labels := expose_label\<rparr>, svc_Selector = [], svc_Ports = [],
     svc_ClusterIP = '''', svc_IngressIPs = [''192.168.1.245'']\<rparr>"

definition demo_host :: host_lab where
  "demo_host = \<lparr>cl_objects = [KService demo_service], cl_revision = 1, hl_links = [''eth0'', ''sdcore-core''],
     hl_rules = (\<lambda>b t c. if c = ''FORWARD'' then [[''-j'', ''DOCKER-USER'']] else []),
     hl_addrs = [(''eth0'', [192, 168, 1, 20], 24), (''eth0'', [192, 168, 1, 241], 32)], hl_routes = []\<rparr>"

theorem ensureN6Nat_correct_witness:
  "\<exists>w'. run_state (ensureN6Nat (lab_host (\<lambda>b. None)) ''172.7.0.0/16'' ''eth0'' ''sdcore-access'') demo_host = (None, w')
     \<and> take 2 (hl_rules w' ''iptables'' ''filter'' ''FORWARD'') = [dst_rule ''172.7.0.0/16'', src_rule ''172.7.0.0/16'']
     \<and> (\<exists>b \<in> set nat_backends. on_top (masq_rule ''172.7.0.0/16'' ''eth0'') [] (hl_rules w' b ''nat'' ''POSTROUTING''))"
proof -
  obtain res w' where run: "run_state (ensureN6Nat (lab_host (\<lambda>b. None)) ''172.7.0.0/16'' ''eth0'' ''sdcore-access'') demo_host = (res, w')" by force
  have "\<forall>b v. fst (run_state (iptNew (lab_host (\<lambda>b. None)) b) v) = None" by (simp add: lab_host_def)
  moreover have "\<forall>b t c r v. fst (run_state (iptInsert (lab_host (\<lambda>b. None)) b t c 1 r) v) = None"
    by (simp add: lab_host_def lab_chain_def)
  moreover have "hl_rules demo_host b ''nat'' ''POSTROUTING'' = []" for b by (simp add: demo_host_def)
  ultimately show ?thesis
    using ensureN6Nat_correct [OF lab_filter.packet_filter_axioms run] run by (auto simp: nat_backends_def)
qed

text \<open>C40. When neither packet filter backend is installed, the N6 NAT step reports success although no MASQUERADE exists.\<close>

theorem ensureN6Nat_no_backend:
  assumes "packet_filter h rules" and "nic \<noteq> ''''" and "\<And>b v. b \<in> set nat_backends \<Longrightarrow> fst (run_state (iptNew h b) v) \<noteq> None"
    and "run_state (ensureN6Nat h uePool nic accBr) w = (res, w')"
  shows "res = None \<and> rules w' = rules w"
proof -
  have none: "rs = [] \<and> rules v' = rules v"
    if "b \<in> set nat_backends" and "run_state (nat_backend h uePool nic accBr b) v = (rs, v')" for b v rs v'
  proof -
    obtain e v1 where n: "run_state (iptNew h b) v = (e, v1)" by force
    with assms(3) [OF that(1), of v] obtain err where "e = Some err" by auto
    with that(2) n frameD [OF packet_filter.new_frame [OF assms(1)] n] show ?thesis by (simp add: nat_backend_def)
  qed
  obtain r1 w1 r2 where r1: "run_state (nat_backend h uePool nic accBr ''iptables'') w = (r1, w1)"
    and r2: "run_state (nat_backend h uePool nic accBr ''iptables-legacy'') w1 = (r2, w')"
    and res: "res = None \<longleftrightarrow> None \<in> set (r1 @ r2) \<or> r1 @ r2 = []"
    by (rule packet_filter.ensureN6Nat_runs [OF assms(1,4,2)])
  from none [OF _ r1] none [OF _ r2] res show ?thesis by (simp add: nat_backends_def)
qed

theorem ensureN6Nat_no_backend_witness:
  "run_state (ensureN6Nat (lab_host (\<lambda>b. Some (ErrorString ''not found''))) ''172.7.0.0/16'' ''eth0'' ''sdcore-access'') demo_host
     = (None, demo_host)
   \<and> hl_rules demo_host ''iptables'' ''nat'' ''POSTROUTING'' = []"
proof -
  let ?h = "lab_host (\<lambda>b. Some (ErrorString ''not found''))"
  obtain res w' where run: "run_state (ensureN6Nat ?h ''172.7.0.0/16'' ''eth0'' ''sdcore-access'') demo_host = (res, w')" by force
  have "res = None \<and> hl_rules w' = hl_rules demo_host"
    by (rule ensureN6Nat_no_backend [OF lab_filter.packet_filter_axioms _ _ run]) (simp_all add: lab_host_def)
  moreover have "w' = demo_host"
    using run by (simp add: ensureN6Nat_def nat_backends_def nat_backend_def lab_host_def Let_def)
  ultimately show ?thesis using run by (simp add: demo_host_def)
qed

text \<open>C15. The N2 addresses of a node. When the exposed services were listed, the interface exists and the step returns no
  error, then every IPv4 address of an exposed service is on the interface as a /32; an address is taken off only
  if it is a /32 of the VIP range .240 to .254 that no exposed service has, whatever the order the addresses are
  visited in, so the node's own addresses and the wanted ones stay; nothing is added that no service has; other
  interfaces are untouched; and when the kernel carries out the deletions no stale address is left.\<close>

theorem ensureN2VIP_correct:
  assumes "n2_world h nics c view" and "run_state (ensureN2VIP h c nic) w = (None, w')" and "nic \<noteq> ''''"
    and "run_state (list_as c as_Service (coreGVK ''Service'') [MatchingLabels expose_label]) w = (Inr svcs, w1)"
    and "run_state (LinkByName h nic) w1 = (Inr l, w2)" and "\<forall>ip \<in> exposed view w. CHR '' '' \<notin> set ip"
  shows "(\<forall>a. octets a \<and> dotted a \<in> exposed view w \<longrightarrow> (a, 32) \<in> nics w' nic)
    \<and> (\<forall>a n. (a, n) \<in> nics w nic \<and> \<not> (n = 32 \<and> dotted a \<notin> exposed view w \<and> isRanVIPCandidate (dotted a)) \<longrightarrow> (a, n) \<in> nics w' nic)
    \<and> (\<forall>x \<in> nics w' nic. x \<in> nics w nic \<or> (\<exists>ip \<in> exposed view w. To4 (ParseIP ip) = fst x))
    \<and> (\<forall>n. n \<noteq> nic \<longrightarrow> nics w' n = nics w n)
    \<and> ((\<forall>a v. fst (run_state (AddrDel h l a) v) = None) \<and> (\<forall>v. snd (fst (run_state (AddrList h l) v)) = None) \<longrightarrow>
        (\<forall>a. (a, 32) \<in> nics w' nic \<and> isRanVIPCandidate (dotted a) \<longrightarrow> dotted a \<in> exposed view w))"
proof -
  note facts = n2_world.ensureN2VIP_announces [OF assms]
  have want: "set (wanted_vips svcs) = exposed view w" by (rule n2_world.wanted_exposed [OF assms(1,4)])
  show ?thesis
  proof (intro conjI allI impI ballI)
    show "(a, 32) \<in> nics w' nic" if "octets a \<and> dotted a \<in> exposed view w" for a using facts(2) that by blast
    show "(a, n) \<in> nics w' nic" if "(a, n) \<in> nics w nic \<and> \<not> (n = 32 \<and> dotted a \<notin> exposed view w \<and> isRanVIPCandidate (dotted a))" for a n
      using facts(3) [of "(a, n)"] that want by (auto simp: stale_def)
    show "x \<in> nics w nic \<or> (\<exists>ip \<in> exposed view w. To4 (ParseIP ip) = fst x)" if "x \<in> nics w' nic" for x
      using facts(4) [OF that] want by (simp add: denoted_def)
    show "nics w' n = nics w n" if "n \<noteq> nic" for n using facts(1) that by blast
    show "dotted a \<in> exposed view w" if "(\<forall>a v. fst (run_state (AddrDel h l a) v) = None) \<and> (\<forall>v. snd (fst (run_state (AddrList h l) v)) = None)"
      "(a, 32) \<in> nics w' nic \<and> isRanVIPCandidate (dotted a)" for a
      using facts(5) [of "(a, 32)"] that want by (auto simp: stale_def)
  qed
qed

lemma demo_parse: "dotted [192, 168, 1, 245] = ''192.168.1.245''" "dotted [192, 168, 1, 241] = ''192.168.1.241''"
    "dotted [192, 168, 1, 20] = ''192.168.1.20''" "isRanVIPCandidate ''192.168.1.241''"
  by code_simp+

lemma demo_services:
  "run_state (list_as mem_client as_Service (coreGVK ''Service'') [MatchingLabels expose_label]) demo_host = (Inr [demo_service], demo_host)"
  by (simp add: list_as_def decode_list_def mem_client_def mem_list_def cl_view_def demo_host_def demo_service_def key_of_def live_def
      named_meta_def expose_label_def)

lemma demo_wanted: "wanted_vips [demo_service] = [''192.168.1.245'']"
  by (simp add: wanted_vips_def demo_service_def go_map_def)

lemma demo_link: "run_state (LinkByName (lab_host new) ''eth0'') demo_host = (Inr \<lparr>lk_Name = ''eth0'', lk_Index = 1\<rparr>, demo_host)"
  by (simp add: lab_host_def lab_link_def demo_host_def)

lemma demo_vip_runs: "fst (run_state (ensureN2VIP (lab_host new) mem_client ''eth0'') demo_host) = None"
proof -
  have p: "ParseAddr (lab_host new) ''192.168.1.245/32'' = Inr \<lparr>ad_IP = v4InV6Prefix @ [192, 168, 1, 245], ad_Mask = CIDRMask 32 32\<rparr>"
    using lab_addrs.announce_dotted [of "[192, 168, 1, 245]" new, unfolded demo_parse(1)] by (simp add: octets_def)
  have o: "run_state (map_order (lab_host new) ks) v = (ks, v)" for ks v by (simp add: lab_host_def)
  have r: "fst (run_state (AddrReplace (lab_host new) l \<lparr>ad_IP = ip, ad_Mask = CIDRMask 32 32\<rparr>) v) = None" for l ip v
    by (simp add: lab_host_def lab_AddrReplace_def prefix_len_def Mask_Size_CIDRMask)
  have a: "fst (run_state (for_until_err (announce (lab_host new) l ''eth0'') [''192.168.1.245'']) v) = None" for l v
    using r [of l "v4InV6Prefix @ [192, 168, 1, 245]" v] by (auto simp: announce_def p split: prod.splits)
  have "fst (run_state (apply_vips (lab_host new) l ''eth0'' [''192.168.1.245'']) v) = None" for l v
    using a [of l v] by (auto simp: apply_vips_def o simp del: for_until_err.simps split: prod.splits)
  then show ?thesis by (simp add: ensureN2VIP_def demo_services demo_link demo_wanted)
qed

theorem ensureN2VIP_correct_witness:
  "\<exists>w'. run_state (ensureN2VIP (lab_host (\<lambda>b. None)) mem_client ''eth0'') demo_host = (None, w')
     \<and> ([192, 168, 1, 245], 32) \<in> lab_nics w' ''eth0'' \<and> ([192, 168, 1, 20], 24) \<in> lab_nics w' ''eth0''
     \<and> ([192, 168, 1, 241], 32) \<in> lab_nics demo_host ''eth0'' \<and> ([192, 168, 1, 241], 32) \<notin> lab_nics w' ''eth0''"
proof -
  let ?h = "lab_host (\<lambda>b. None)"
  obtain res w' where run: "run_state (ensureN2VIP ?h mem_client ''eth0'') demo_host = (res, w')" by force
  then have none: "run_state (ensureN2VIP ?h mem_client ''eth0'') demo_host = (None, w')" using demo_vip_runs [of "\<lambda>b. None"] by simp
  have ex: "exposed cl_view demo_host = {''192.168.1.245''}" using lab_n2.wanted_exposed [OF demo_services] by (simp add: demo_wanted)
  have nics: "([192, 168, 1, 20], 24) \<in> lab_nics demo_host ''eth0''" "([192, 168, 1, 241], 32) \<in> lab_nics demo_host ''eth0''"
    by (simp_all add: lab_nics_def demo_host_def octets_def)
  have ok: "\<forall>a v. fst (run_state (AddrDel ?h \<lparr>lk_Name = ''eth0'', lk_Index = 1\<rparr> a) v) = None"
    "\<forall>v. snd (fst (run_state (AddrList ?h \<lparr>lk_Name = ''eth0'', lk_Index = 1\<rparr>) v)) = None"
    by (simp_all add: lab_host_def lab_AddrDel_def lab_AddrList_def)
  have nn: "''eth0'' \<noteq> ''''" and pl: "\<forall>ip \<in> exposed cl_view demo_host. CHR '' '' \<notin> set ip" by (simp_all add: ex)
  note c = ensureN2VIP_correct [OF lab_n2.n2_world_axioms none nn demo_services demo_link pl, unfolded ex]
  note c1 = c [THEN conjunct1, THEN spec, of "[192, 168, 1, 245]", unfolded demo_parse(1)]
    and c2 = c [THEN conjunct2, THEN conjunct1, THEN spec, THEN spec, of "[192, 168, 1, 20]" 24]
    and c5 = c [THEN conjunct2, THEN conjunct2, THEN conjunct2, THEN conjunct2, THEN mp, OF conjI [OF ok],
      THEN spec, of "[192, 168, 1, 241]", unfolded demo_parse(2)]
  have "([192, 168, 1, 245], 32) \<in> lab_nics w' ''eth0''" using c1 by (simp add: octets_def)
  moreover have "([192, 168, 1, 20], 24) \<in> lab_nics w' ''eth0''" using c2 nics(1) by simp
  moreover have "([192, 168, 1, 241], 32) \<notin> lab_nics w' ''eth0''" using c5 demo_parse(4) by auto
  ultimately show ?thesis using none nics by blast
qed

text \<open>C26. Round trip between the addresses the EdgeSite controller writes and the route the actuator installs: the derived UE
  pool and next hop of a site parse, the route has the pool's network as its destination, so that exactly the
  addresses of the pool are routed, and the derived next hop on the site's N6 network as its gateway.\<close>

theorem ensureRoute_derived:
  assumes "run_state (LinkByName h coreBr) w = (Inr l, w1)"
  shows "run_state (ensureRoute h (es_UEPool (derived n s)) (es_CoreNextHop (derived n s)) coreBr) w
      = run_state (RouteReplace h \<lparr>rt_Dst = Some \<lparr>net_IP = [172, siteIndex n, 0, 0], net_Mask = [255, 255, 0, 0]\<rparr>,
          rt_Gw = ParseIP (es_CoreNextHop (derived n s)), rt_LinkIndex = lk_Index l\<rparr>) w1
    \<and> (\<forall>a. octets a \<longrightarrow> (in_cidr a (es_UEPool (derived n s)) \<longleftrightarrow> IP_Mask a [255, 255, 0, 0] = [172, siteIndex n, 0, 0]))
    \<and> IP_String (ParseIP (es_CoreNextHop (derived n s))) = es_CoreNextHop (derived n s)
    \<and> in_cidr (To4 (ParseIP (es_CoreNextHop (derived n s)))) (es_CoreCIDR (derived n s))"
proof -
  let ?i = "siteIndex n"
  have i: "2 \<le> ?i" "?i \<le> 198" using siteIndex_bounds [of n] by auto
  have o: "octets [172, ?i, 0, 0]" "octets [10, 201, ?i, 10]" using octets_siteIndex [of n] by auto
  have pool: "es_UEPool (derived n s) = dotted [172, ?i, 0, 0] @ CHR ''/'' # itoa 16"
    and hop: "es_CoreNextHop (derived n s) = dotted [10, 201, ?i, 10]"
    by (simp_all add: derived_def fill_site_def itoa_consts itoa_16)
  have byte: "Bit_Operations.and v (255 :: int) = v" if "0 \<le> v" "v < 256" for v
    using that take_bit_eq_mask [of 8 v] take_bit_int_eq_self [of v 8] by (simp add: mask_eq_exp_minus_1)
  have m: "CIDRMask 16 32 = [255, 255, 0, 0]" by code_simp
  have p: "ParseCIDR (es_UEPool (derived n s)) = Inr (v4InV6Prefix @ [172, ?i, 0, 0], \<lparr>net_IP = [172, ?i, 0, 0], net_Mask = [255, 255, 0, 0]\<rparr>)"
    unfolding pool using ParseCIDR_dotted [OF o(1), of 16] byte [of ?i] byte [of 172] i by (simp add: m)
  have ns: "\<not> unset (es_CoreNextHop (derived n s))" unfolding hop by (simp add: unset_def itoa_consts)
  have "in_cidr a (es_UEPool (derived n s)) \<longleftrightarrow> IP_Mask a [255, 255, 0, 0] = [172, ?i, 0, 0]" if a: "octets a" for a
  proof -
    from a obtain x y z t where xs: "a = [x, y, z, t]" by (rule octets_cases)
    have "IP_Mask a [255, 255, 0, 0] = [x, y, 0, 0]" using a byte [of x] byte [of y] by (simp add: xs IP_Mask_def octets_def)
    with derived_blocks(2) [OF a, of n s] show ?thesis by (simp add: xs)
  qed
  moreover have "IP_String (ParseIP (es_CoreNextHop (derived n s))) = es_CoreNextHop (derived n s)"
    unfolding hop ParseIP_dotted [OF o(2)] by (rule IP_String_octets(2) [OF o(2)])
  moreover have "in_cidr (To4 (ParseIP (es_CoreNextHop (derived n s)))) (es_CoreCIDR (derived n s))"
    unfolding hop ParseIP_dotted [OF o(2)] To4_octets(2) [OF o(2)] derived_blocks(4) [OF o(2)] by simp
  ultimately show ?thesis using assms by (simp add: ensureRoute_def ns p)
qed

theorem ensureRoute_derived_witness:
  "run_state (ensureRoute (lab_host (\<lambda>b. None)) (es_UEPool (derived ''edge-1'' zero_EdgeSiteSpec))
       (es_CoreNextHop (derived ''edge-1'' zero_EdgeSiteSpec)) ''eth0'') demo_host
     = (None, demo_host\<lparr>hl_routes := [\<lparr>rt_Dst = Some \<lparr>net_IP = [172, siteIndex ''edge-1'', 0, 0], net_Mask = [255, 255, 0, 0]\<rparr>,
          rt_Gw = ParseIP (es_CoreNextHop (derived ''edge-1'' zero_EdgeSiteSpec)), rt_LinkIndex = 1\<rparr>]\<rparr>)"
  using ensureRoute_derived [OF demo_link [of "\<lambda>b. None"], of "''edge-1''" zero_EdgeSiteSpec] by (simp add: lab_host_def demo_host_def)

end
