(* ===== verification/Datapath_Controller.thy ===== *)
theory Datapath_Controller
  imports Host_Datapath Clientset
begin

text \<open>
  The datapath actuator, \<open>operator/internal/controller/upfdatapath_controller.go\<close>, above the host
  steps of \<open>Host_Datapath\<close>: the steps inside the UPF pod (access route, hardening, PFCP), the
  healing of a UPF that came up without its networks, and the reconcile that runs every step each
  time. The lemmas show that no step can keep another from running, what the status reports, and
  which pods the healing may delete.
\<close>

section \<open>Definitions\<close>

text \<open>
  \<open>udr_Now\<close> is \<open>time.Now\<close> in nanoseconds, \<open>udr_Parse\<close> is \<open>labels.Parse\<close>, which returns
  the parsed selector as a predicate on label sets.
\<close>

record 'w UPFDataPathReconciler =
  udr_Client :: "'w kclient"
  udr_Env :: "'w env"
  udr_Host :: "'w host"
  udr_Clientset :: "'w Clientset option"
  udr_NodeName :: string
  udr_Now :: "('w, int) io"
  udr_Parse :: "string \<Rightarrow> error + ((string \<times> string) list \<Rightarrow> bool)"

subsection \<open>Pods\<close>

definition podReady :: "Pod \<Rightarrow> bool" where
  "podReady p = (case find (\<lambda>c. fst c = ''Ready'') (pod_Conditions p) of Some c \<Rightarrow> snd c = ''True'' | None \<Rightarrow> False)"

definition net_status :: "Pod \<Rightarrow> string" where
  "net_status p = map_value (om_Annotations (pod_Meta p)) ''k8s.v1.cni.cncf.io/network-status''"

definition hasSecondaryNets :: "Pod \<Rightarrow> string list \<Rightarrow> bool" where
  \<open>hasSecondaryNets p names = list_all (\<lambda>n. Contains (net_status p) (''"interface":"'' @ n @ ''"'')
     \<or> Contains (net_status p) (''"interface": "'' @ n @ ''"'')) names\<close>

text \<open>The sum of the restart counts, an \<open>int32\<close> that wraps around.\<close>

definition wrap32 :: "int \<Rightarrow> int" where
  "wrap32 n = (n + 2147483648) mod 4294967296 - 2147483648"

definition init_restarts :: "Pod \<Rightarrow> int" where
  "init_restarts p = foldl (\<lambda>r cs. wrap32 (r + cs_RestartCount cs)) 0 (pod_InitContainerStatuses p)"

definition bessd_started :: "Pod \<Rightarrow> bool" where
  "bessd_started p = list_ex (\<lambda>cs. cs_Name cs = ''bessd'' \<and> cs_Started cs = Some True) (pod_ContainerStatuses p)"

definition podExec :: "'w Clientset \<Rightarrow> string \<Rightarrow> string \<Rightarrow> string list \<Rightarrow> ('w, error option) io" where
  "podExec cs pod container cmd = do {
     x \<leftarrow> cs_Exec cs \<lparr>ex_Namespace = ''default'', ex_Pod = pod, ex_Container = container, ex_Command = cmd\<rparr>;
     ret (case x of ExecBuildError e \<Rightarrow> Some e | ExecStreamError stderr e \<Rightarrow> Some e | ExecDone \<Rightarrow> None) }"

text \<open>The UPF pods of the namespace \<open>default\<close>; none when there is no clientset or the list failed.\<close>

definition upf_pods :: "'w Clientset option \<Rightarrow> string \<Rightarrow> ('w, Pod list) io" where
  "upf_pods cs upfLabel = (case cs of None \<Rightarrow> ret []
     | Some c \<Rightarrow> do { l \<leftarrow> cs_ListPods c ''default'' upfLabel; ret (case l of Inl e \<Rightarrow> [] | Inr pods \<Rightarrow> pods) })"

subsection \<open>Steps in the UPF pod\<close>

definition access_script :: "string \<Rightarrow> string" where
  \<open>access_script gnbIP =
     ''import re,subprocess'' @ [newline] @
     ''from pybess.bess import BESS'' @ [newline] @
     ''def sh(c): return subprocess.run(c,shell=True,capture_output=True,text=True)'' @ [newline] @
     ''gnb='' @
     quote gnbIP @
     [newline] @
     ''am=re.search(r\'('' @ [CHR 0x5C] @ ''d+'' @ [CHR 0x5C] @ ''.'' @ [CHR 0x5C] @ ''d+'' @ [CHR 0x5C] @ ''.'' @ [CHR 0x5C] @ ''d+'' @ [CHR 0x5C] @ ''.'' @ [CHR 0x5C] @ ''d+)/'' @ [CHR 0x5C] @ ''d+\',sh("ip -o -4 addr show dev access").stdout)'' @ [newline] @
     ''gw=re.sub(r'' @ [CHR 0x27] @ [CHR 0x5C] @ ''.'' @ [CHR 0x5C] @ ''d+$\',\'.1\',am.group(1)) if am else ""'' @ [newline] @
     ''if sh("ip route get "+gnb).returncode!=0 and gw:'' @ [newline] @
     ''    sh("ip route replace "+gnb+"/32 via "+gw+" dev access")'' @ [newline] @
     ''m=re.search(r\'via ('' @ [CHR 0x5C] @ ''d+'' @ [CHR 0x5C] @ ''.'' @ [CHR 0x5C] @ ''d+'' @ [CHR 0x5C] @ ''.'' @ [CHR 0x5C] @ ''d+'' @ [CHR 0x5C] @ ''.'' @ [CHR 0x5C] @ ''d+)\',sh("ip route get "+gnb).stdout)'' @ [newline] @
     ''nh=m.group(1) if m else gnb'' @ [newline] @
     ''sh("ping -c1 -W1 "+nh)'' @ [newline] @
     ''mm=re.search(r\'(([0-9a-f]{2}:){5}[0-9a-f]{2})\',sh("ip neigh show "+nh+" dev access").stdout)'' @ [newline] @
     ''if not mm:'' @ [newline] @
     ''    print("no-neigh-mac-yet",nh); raise SystemExit(0)'' @ [newline] @
     ''val=int(mm.group(1).replace(":",""),16)'' @ [newline] @
     ''b=BESS(); b.connect(grpc_url="localhost:10514"); b.pause_all()'' @ [newline] @
     ''try:'' @ [newline] @
     ''    info=b.get_module_info("accessRoutes")'' @ [newline] @
     ''    dst=None'' @ [newline] @
     ''    for g in info.ogates:'' @ [newline] @
     ''        if g.ogate==0: dst=g.name'' @ [newline] @
     ''    if dst:'' @ [newline] @
     ''        try: b.run_module_command(dst,"clear","EmptyArg",{})'' @ [newline] @
     ''        except Exception: pass'' @ [newline] @
     ''        b.run_module_command(dst,"add","UpdateArg",{"fields":[{"offset":0,"size":6,"value":val}]})'' @ [newline] @
     ''        print("dstmac-set",dst,mm.group(1))'' @ [newline] @
     ''finally:'' @ [newline] @
     ''    b.resume_all()'' @ [newline]\<close>

definition route_arg :: "string \<Rightarrow> string" where
  \<open>route_arg gnbIP = ''{"prefix":"'' @ gnbIP @ ''","prefix_len":32,"gate":0}''\<close>

definition bess_target :: "Pod list \<Rightarrow> string" where
  "bess_target pods = (case find (\<lambda>p. pod_Phase p = ''Running'' \<and> bessd_started p \<and> om_Name (pod_Meta p) \<noteq> '''') pods of
     Some p \<Rightarrow> om_Name (pod_Meta p) | None \<Rightarrow> '''')"

definition ensureBessAccessRoute :: "'w Clientset option \<Rightarrow> string \<Rightarrow> string \<Rightarrow> ('w, error option) io" where
  "ensureBessAccessRoute clientset gnbIP upfLabel = (case clientset of None \<Rightarrow> ret None
     | Some cs \<Rightarrow>
         if unset gnbIP then ret None
         else do {
           pods \<leftarrow> upf_pods clientset upfLabel;
           if bess_target pods = '''' then ret None
           else do {
             e \<leftarrow> podExec cs (bess_target pods) ''bessd''
                    [''bessctl'', ''command'', ''module'', ''accessRoutes'', ''add'', ''IPLookupCommandAddArg'', route_arg gnbIP];
             case e of Some err \<Rightarrow> ret (Some err)
             | None \<Rightarrow> do {
                 u \<leftarrow> podExec cs (bess_target pods) ''routectl'' [''python3'', ''-c'', access_script gnbIP];
                 ret None } } })"

definition harden_script :: string where
  \<open>harden_script =
     ''echo 0 > /proc/sys/net/ipv4/ip_forward 2>/dev/null || sysctl -w net.ipv4.ip_forward=0 >/dev/null 2>&1 || true'' @ [newline] @
     ''for i in access core; do ethtool -K "$i" tx off rx off tso off gso off gro off >/dev/null 2>&1 || true; done''\<close>

definition ensureUpfPodHardening :: "'w Clientset option \<Rightarrow> string \<Rightarrow> ('w, error option) io" where
  "ensureUpfPodHardening clientset upfLabel = (case clientset of None \<Rightarrow> ret None
     | Some cs \<Rightarrow> do {
         pods \<leftarrow> upf_pods clientset upfLabel;
         case find (\<lambda>p. pod_Phase p = ''Running'' \<and> bessd_started p) pods of None \<Rightarrow> ret None
         | Some p \<Rightarrow> do {
             u \<leftarrow> podExec cs (om_Name (pod_Meta p)) ''bessd'' [''sh'', ''-c'', harden_script];
             ret None } })"

definition heal_pfcp :: "'w Clientset \<Rightarrow> Pod \<Rightarrow> ('w, unit) io" where
  "heal_pfcp cs p =
     (if pod_Phase p \<noteq> ''Running'' then ret ()
      else do {
        l \<leftarrow> cs_GetLogs cs (om_Namespace (pod_Meta p)) (om_Name (pod_Meta p)) ''pfcp-agent'' 20;
        case l of Inl err \<Rightarrow> ret ()
        | Inr buf \<Rightarrow>
            if Contains buf ''datapath down'' then do {
              u \<leftarrow> podExec cs (om_Name (pod_Meta p)) ''pfcp-agent'' [''pkill'', ''-TERM'', ''pfcpiface''];
              ret () }
            else ret () })"

definition ensurePfcpHealthy :: "'w Clientset option \<Rightarrow> string \<Rightarrow> ('w, error option) io" where
  "ensurePfcpHealthy clientset upfLabel = (case clientset of None \<Rightarrow> ret None
     | Some cs \<Rightarrow> do {
         pods \<leftarrow> upf_pods clientset upfLabel;
         u \<leftarrow> for_each (heal_pfcp cs) pods;
         ret None })"

subsection \<open>Healing the UPF\<close>

text \<open>A pod at a time: crash-looping, or without its networks 45 seconds after it was made.\<close>

definition stuck :: "int \<Rightarrow> Pod \<Rightarrow> bool" where
  "stuck now p \<longleftrightarrow> init_restarts p \<ge> 3
     \<or> now - om_CreationTimestamp (pod_Meta p) > Seconds 45 \<and> \<not> hasSecondaryNets p [''access'', ''core'']"

definition heal_upf :: "'w UPFDataPathReconciler \<Rightarrow> Pod \<Rightarrow> ('w, unit) io" where
  "heal_upf r p =
     (if om_DeletionTimestamp (pod_Meta p) \<noteq> None \<or> podReady p then ret ()
      else do {
        now \<leftarrow> udr_Now r;
        if stuck now p then do { e \<leftarrow> kDelete (udr_Client r) (KPod p); ret () } else ret () })"

definition ensureUpfHealthy :: "'w UPFDataPathReconciler \<Rightarrow> string \<Rightarrow> ('w, error option) io" where
  "ensureUpfHealthy r upfLabel = (case udr_Parse r upfLabel of Inl err \<Rightarrow> ret None
     | Inr sel \<Rightarrow> do {
         l \<leftarrow> list_as (udr_Client r) as_Pod (coreGVK ''Pod'') [InNamespace ''default'', LabelSelector sel];
         case l of Inl err \<Rightarrow> ret None
         | Inr pods \<Rightarrow> do { u \<leftarrow> for_each (heal_upf r) pods; ret None } })"

subsection \<open>The reconcile\<close>

definition datapath_steps :: "'w UPFDataPathReconciler \<Rightarrow> UPFDataPathSpec \<Rightarrow> string \<Rightarrow> (string \<times> ('w, error option) io) list" where
  "datapath_steps r s nic =
     (let accBr = orDefault (dp_AccessBridge s) ''sdcore-access''; coreBr = orDefault (dp_CoreBridge s) ''sdcore-core'';
          label = orDefault (dp_UPFLabel s) ''app=upf''; h = udr_Host r
      in [(''bridges'', ensureBridge h [accBr, coreBr]),
          (''gateways'', ensureBridgeAddr h (go_map [(coreBr, dp_CoreGateway s), (accBr, dp_AccessGateway s)])),
          (''forwarding'', ensureForwarding h [coreBr, accBr]),
          (''n6-route'', ensureRoute h (dp_UEPool s) (dp_CoreNextHop s) coreBr),
          (''n6-nat'', ensureN6Nat h (dp_UEPool s) nic accBr),
          (''n2-vip'', ensureN2VIP h (udr_Client r) nic),
          (''upf-heal'', ensureUpfHealthy r label),
          (''upf-harden'', ensureUpfPodHardening (udr_Clientset r) label),
          (''access-route'', ensureBessAccessRoute (udr_Clientset r) (dp_GnbIP s) label),
          (''pfcp-heal'', ensurePfcpHealthy (udr_Clientset r) label),
          (''arp'', refreshNeigh h (go_map [(dp_GnbIP s, accBr), (dp_CoreNextHop s, coreBr)]))])"

definition run_step :: "string \<times> ('w, error option) io \<Rightarrow> ('w, string list) io" where
  "run_step st = do { e \<leftarrow> snd st; ret (case e of None \<Rightarrow> [] | Some err \<Rightarrow> [fst st @ '': '' @ Error err]) }"

definition datapath_failed :: "'w UPFDataPathReconciler \<Rightarrow> UPFDataPath \<Rightarrow> string list \<Rightarrow> UPFDataPath" where
  "datapath_failed r dp failed = dp\<lparr>dp_Status := (dp_Status dp)\<lparr>dps_Node := udr_NodeName r,
     dps_Conditions := setCondition (udr_Env r) (dps_Conditions (dp_Status dp)) ''Ready'' ConditionFalse ''StepsFailed''
       (Join failed ''; '') (om_Generation (dp_Meta dp))\<rparr>\<rparr>"

definition datapath_ready :: "'w UPFDataPathReconciler \<Rightarrow> UPFDataPath \<Rightarrow> string \<Rightarrow> UPFDataPath" where
  "datapath_ready r dp now = dp\<lparr>dp_Status := (dp_Status dp)\<lparr>dps_Node := udr_NodeName r, dps_LastReconcile := now,
     dps_Conditions := setCondition (udr_Env r) (dps_Conditions (dp_Status dp)) ''Ready'' ConditionTrue ''Reconciled''
       (''host+BESS datapath programmed (uePool='' @ dp_UEPool (dp_Spec dp) @ '' gnb='' @ dp_GnbIP (dp_Spec dp) @ '') on '' @ udr_NodeName r)
       (om_Generation (dp_Meta dp))\<rparr>\<rparr>"

definition datapath_report :: "'w UPFDataPathReconciler \<Rightarrow> UPFDataPath \<Rightarrow> string list \<Rightarrow> ('w, Result \<times> error option) io" where
  "datapath_report r dp failed =
     (if failed \<noteq> [] then do {
        u \<leftarrow> kStatusUpdate (udr_Client r) (KUPFDataPath (datapath_failed r dp failed));
        ret (requeue_seconds 15, None) }
      else do {
        now \<leftarrow> now_rfc3339 (udr_Env r);
        u \<leftarrow> kStatusUpdate (udr_Client r) (KUPFDataPath (datapath_ready r dp now));
        ret (requeue_seconds 15, None) })"

definition UPFDataPath_Reconcile :: "'w UPFDataPathReconciler \<Rightarrow> string \<Rightarrow> string \<Rightarrow> ('w, Result \<times> error option) io" where
  "UPFDataPath_Reconcile r ns name = do {
     g \<leftarrow> get_as (udr_Client r) as_UPFDataPath (mk_key (sdcoreGVK ''UPFDataPath'') ns name);
     case g of Inl err \<Rightarrow> ret (NoRequeue, IgnoreNotFound err)
     | Inr dp \<Rightarrow>
         if dp_UEPool (dp_Spec dp) = '''' then ret (NoRequeue, None)
         else do {
           nic \<leftarrow> hostEgressNic (udr_Host r) (dp_EgressNic (dp_Spec dp));
           failed \<leftarrow> for_collect run_step (datapath_steps r (dp_Spec dp) nic);
           datapath_report r dp failed } }"

section \<open>What a reconcile runs and reports\<close>

definition step_report :: "string \<Rightarrow> error option \<Rightarrow> string list" where
  "step_report n e = (case e of None \<Rightarrow> [] | Some err \<Rightarrow> [n @ '': '' @ Error err])"

text \<open>\<open>ran_all steps ws es\<close>: every step was run, each from the state the one before left, with these results.\<close>

definition ran_all :: "(string \<times> ('w, error option) io) list \<Rightarrow> 'w list \<Rightarrow> error option list \<Rightarrow> bool" where
  "ran_all steps ws es \<longleftrightarrow> length ws = Suc (length steps) \<and> length es = length steps
     \<and> (\<forall>i < length steps. run_state (snd (steps ! i)) (ws ! i) = (es ! i, ws ! Suc i))"

lemma run_steps_all:
  assumes "run_state (for_collect run_step steps) w = (failed, w')"
  shows "\<exists>ws es. ran_all steps ws es \<and> ws ! 0 = w \<and> ws ! length steps = w'
    \<and> failed = concat (map2 step_report (map fst steps) es)"
proof -
  from assms [unfolded for_collect_trace] obtain ws zs where t: "length ws = Suc (length steps)" "length zs = length steps"
    "ws ! 0 = w" "ws ! length steps = w'" "failed = concat zs"
    and run: "\<And>i. i < length steps \<Longrightarrow> run_state (run_step (steps ! i)) (ws ! i) = (zs ! i, ws ! Suc i)" by blast
  define es where "es = map (\<lambda>i. fst (run_state (snd (steps ! i)) (ws ! i))) [0..<length steps]"
  have e: "run_state (snd (steps ! i)) (ws ! i) = (es ! i, ws ! Suc i) \<and> zs ! i = step_report (fst (steps ! i)) (es ! i)"
    if "i < length steps" for i
    using run [OF that] that by (auto simp: run_step_def es_def step_report_def split: prod.splits)
  have "zs = map2 step_report (map fst steps) es"
    using e t(2) by (intro nth_equalityI) (auto simp: es_def)
  with t e show ?thesis
    by (intro exI [of _ ws] exI [of _ es]) (auto simp: ran_all_def es_def)
qed

lemma step_reports_Nil:
  "length ns = length es \<Longrightarrow> concat (map2 step_report ns es) = [] \<longleftrightarrow> (\<forall>e \<in> set es. e = None)"
  by (induction ns es rule: list_induct2) (auto simp: step_report_def split: option.splits)

text \<open>What the stored status says after the steps ended with \<open>es\<close>.\<close>

definition datapath_reports :: "'w UPFDataPathReconciler \<Rightarrow> UPFDataPath \<Rightarrow> string list \<Rightarrow> error option list \<Rightarrow> bool" where
  "datapath_reports r dp ns es \<longleftrightarrow> dps_Node (dp_Status dp) = udr_NodeName r
     \<and> (\<exists>c. find_cond ''Ready'' (dps_Conditions (dp_Status dp)) = Some c
          \<and> (if \<forall>e \<in> set es. e = None then cond_Status c = ConditionTrue
             else cond_Status c = ConditionFalse \<and> cond_Message c = Join (concat (map2 step_report ns es)) ''; ''))"

lemma put_status_UPFDataPath: "put_status (KUPFDataPath d) (KUPFDataPath x) = KUPFDataPath d \<longleftrightarrow> dp_Status d = dp_Status x"
  by (cases d) (auto simp: put_status_def)

locale datapath_world = kube_api "udr_Client r" view
  for r :: "'w UPFDataPathReconciler" and view :: "'w \<Rightarrow> ObjectKey \<Rightarrow> kobject option" +
  assumes conds: "status_conditions (SetStatusCondition (udr_Env r))"
    and rfc3339_frame: "frame view (now_rfc3339 (udr_Env r))"
    and now_frame: "frame view (udr_Now r)"
begin

lemma status_stored:
  assumes "run_state (kStatusUpdate (udr_Client r) (KUPFDataPath x)) v = (u, v')"
  shows "view v' = view v \<or> (\<exists>y. view v' (key_of (KUPFDataPath x)) = Some y)
      \<and> (\<forall>d. view v' (key_of (KUPFDataPath x)) = Some (KUPFDataPath d) \<longrightarrow> dp_Status d = dp_Status x)"
proof (cases u)
  case (Inl e)
  with assms status_err show ?thesis by simp
next
  case (Inr y)
  with assms status_ok [of "KUPFDataPath x" v y v'] show ?thesis by (auto simp: put_status_UPFDataPath)
qed

lemma report_stored:
  assumes run: "run_state (datapath_report r dp (concat (map2 step_report ns es))) v = ((q, e), v')" and len: "length ns = length es"
  shows "q = requeue_seconds 15 \<and> e = None \<and> (view v' = view v \<or> (\<exists>y. view v' (key_of (KUPFDataPath dp)) = Some y)
      \<and> (\<forall>d. view v' (key_of (KUPFDataPath dp)) = Some (KUPFDataPath d) \<longrightarrow> datapath_reports r d ns es))"
proof (cases "\<forall>e \<in> set es. e = None")
  case True
  then have f: "concat (map2 step_report ns es) = []" using step_reports_Nil [OF len] by simp
  obtain now v1 where n: "run_state (now_rfc3339 (udr_Env r)) v = (now, v1)" by force
  obtain u v2 where u: "run_state (kStatusUpdate (udr_Client r) (KUPFDataPath (datapath_ready r dp now))) v1 = (u, v2)" by force
  have k: "key_of (KUPFDataPath (datapath_ready r dp now)) = key_of (KUPFDataPath dp)" by (simp add: key_of_def datapath_ready_def)
  have rep: "datapath_reports r d ns es" if "dp_Status d = dp_Status (datapath_ready r dp now)" for d
    using that True by (simp add: datapath_reports_def datapath_ready_def setCondition_found [OF conds])
  have "q = requeue_seconds 15" "e = None" "v' = v2" using run f n u by (simp_all add: datapath_report_def)
  with status_stored [OF u, unfolded k] frameD [OF rfc3339_frame n] rep show ?thesis by auto
next
  case False
  then have f: "concat (map2 step_report ns es) \<noteq> []" using step_reports_Nil [OF len] by simp
  let ?f = "concat (map2 step_report ns es)"
  obtain u v2 where u: "run_state (kStatusUpdate (udr_Client r) (KUPFDataPath (datapath_failed r dp ?f))) v = (u, v2)" by force
  have k: "key_of (KUPFDataPath (datapath_failed r dp ?f)) = key_of (KUPFDataPath dp)" by (simp add: key_of_def datapath_failed_def)
  have rep: "datapath_reports r d ns es" if "dp_Status d = dp_Status (datapath_failed r dp ?f)" for d
    using that False by (simp add: datapath_reports_def datapath_failed_def setCondition_found [OF conds])
  have "q = requeue_seconds 15" "e = None" "v' = v2" using run f u by (simp_all only: datapath_report_def if_True run_state_bind run_state_return prod.case simp_thms prod.inject not_False_eq_True)
  with status_stored [OF u, unfolded k] rep show ?thesis by auto
qed

lemma reconcile_runs_all:
  assumes obj: "view w (mk_key (sdcoreGVK ''UPFDataPath'') ns name) = Some (KUPFDataPath dp)" and pool: "dp_UEPool (dp_Spec dp) \<noteq> ''''"
    and run: "run_state (UPFDataPath_Reconcile r ns name) w = ((q, None), w')"
  shows "\<exists>nic ws es. ran_all (datapath_steps r (dp_Spec dp) nic) ws es \<and> q = requeue_seconds 15
    \<and> (view w' = view (last ws) \<or> (\<exists>y. view w' (mk_key (sdcoreGVK ''UPFDataPath'') ns name) = Some y)
      \<and> (\<forall>d. view w' (mk_key (sdcoreGVK ''UPFDataPath'') ns name) = Some (KUPFDataPath d) \<longrightarrow>
          datapath_reports r d (map fst (datapath_steps r (dp_Spec dp) nic)) es))"
proof -
  let ?k = "mk_key (sdcoreGVK ''UPFDataPath'') ns name"
  obtain g w1 where g: "run_state (get_as (udr_Client r) as_UPFDataPath ?k) w = (g, w1)" by force
  have "g = Inr dp"
  proof (cases g)
    case (Inl err)
    with g run have "IsNotFound err" by (simp add: UPFDataPath_Reconcile_def IgnoreNotFound_def split: if_splits)
    with get_as_missing Inl g obj show ?thesis by fastforce
  next
    case (Inr d)
    with get_as_ok [of as_UPFDataPath ?k w d w1] g obj show ?thesis by (auto simp: as_simps)
  qed
  obtain nic w2 where n: "run_state (hostEgressNic (udr_Host r) (dp_EgressNic (dp_Spec dp))) w1 = (nic, w2)" by force
  obtain failed w3 where f: "run_state (for_collect run_step (datapath_steps r (dp_Spec dp) nic)) w2 = (failed, w3)" by force
  from run g \<open>g = Inr dp\<close> pool n f have rep: "run_state (datapath_report r dp failed) w3 = ((q, None), w')"
    by (simp add: UPFDataPath_Reconcile_def)
  from run_steps_all [OF f] obtain ws es where all: "ran_all (datapath_steps r (dp_Spec dp) nic) ws es"
    and l: "ws ! length (datapath_steps r (dp_Spec dp) nic) = w3"
    and fl: "failed = concat (map2 step_report (map fst (datapath_steps r (dp_Spec dp) nic)) es)" by blast
  have "last ws = w3" using all l by (auto simp: ran_all_def last_conv_nth length_0_conv [symmetric] simp del: length_0_conv)
  moreover have "key_of (KUPFDataPath dp) = ?k" using view_key [OF obj] .
  ultimately show ?thesis
    using all report_stored [OF rep [unfolded fl]] by (auto simp: ran_all_def)
qed

end

section \<open>Which pods the healing deletes\<close>

definition deletable :: "int \<Rightarrow> Pod \<Rightarrow> bool" where
  "deletable now p \<longleftrightarrow> om_DeletionTimestamp (pod_Meta p) = None \<and> \<not> podReady p \<and> stuck now p"

definition selected :: "((string \<times> string) list \<Rightarrow> bool) \<Rightarrow> Pod \<Rightarrow> bool" where
  "selected sel p \<longleftrightarrow> om_Namespace (pod_Meta p) = ''default'' \<and> sel (om_Labels (pod_Meta p))"

text \<open>Gone, or on its way out.\<close>

definition going :: "('w \<Rightarrow> ObjectKey \<Rightarrow> kobject option) \<Rightarrow> 'w \<Rightarrow> ObjectKey \<Rightarrow> bool" where
  "going view w k \<longleftrightarrow> (\<forall>y. view w k = Some y \<longrightarrow> om_DeletionTimestamp (meta_of y) \<noteq> None)"

context datapath_world
begin

lemma heal_upf_step:
  assumes run: "run_state (heal_upf r p) v = (u, v')" and clock: "\<And>v. fst (run_state (udr_Now r) v) = now"
  shows "(\<forall>k. view v' k = view v k \<or> k = key_of (KPod p) \<and> deletable now p)
    \<and> (\<forall>k. going view v k \<longrightarrow> going view v' k)
    \<and> ((\<forall>x v. fst (run_state (kDelete (udr_Client r) x) v) = None) \<and> deletable now p \<longrightarrow> going view v' (key_of (KPod p)))"
proof (cases "deletable now p")
  case False
  obtain t v1 where t: "run_state (udr_Now r) v = (t, v1)" by force
  with clock [of v] have "t = now" by simp
  with False run t frameD [OF now_frame t] have "view v' = view v"
    by (auto simp: heal_upf_def deletable_def split: if_splits)
  with False show ?thesis by (simp add: going_def)
next
  case True
  obtain t v1 where t: "run_state (udr_Now r) v = (t, v1)" by force
  with clock [of v] have tn: "t = now" by simp
  obtain e v2 where d: "run_state (kDelete (udr_Client r) (KPod p)) v1 = (e, v2)" by force
  have v': "v' = v2" using True run t tn d by (simp add: heal_upf_def deletable_def)
  have v1: "view v1 = view v" by (rule frameD [OF now_frame t])
  show ?thesis
  proof (cases e)
    case None
    with delete_ok [of "KPod p" v1 v2] d have o: "\<forall>k. k \<noteq> key_of (KPod p) \<longrightarrow> view v2 k = view v1 k"
      and g: "going view v2 (key_of (KPod p))" by (auto simp: going_def)
    have "going view v2 k" if "going view v k" for k
      using that o g v1 by (cases "k = key_of (KPod p)") (auto simp: going_def)
    then show ?thesis using True v' v1 o g by metis
  next
    case (Some err)
    with delete_err [of "KPod p" v1 err v2] d have "view v2 = view v1" by simp
    moreover have "fst (run_state (kDelete (udr_Client r) (KPod p)) v1) \<noteq> None" using d Some by simp
    ultimately show ?thesis using v' v1 by (auto simp: going_def)
  qed
qed

lemma heal_all:
  assumes run: "run_state (for_each (heal_upf r) pods) w = (u, w')" and clock: "\<And>v. fst (run_state (udr_Now r) v) = now"
  shows "(\<forall>k. view w' k = view w k \<or> (\<exists>p \<in> set pods. k = key_of (KPod p) \<and> deletable now p))
    \<and> (\<forall>p \<in> set pods. (\<forall>x v. fst (run_state (kDelete (udr_Client r) x) v) = None) \<and> deletable now p \<longrightarrow> going view w' (key_of (KPod p)))"
proof (rule for_each_all [OF run])
  fix p v v' y
  assume "p \<in> set pods" and "\<forall>k. view v k = view w k \<or> (\<exists>p \<in> set pods. k = key_of (KPod p) \<and> deletable now p)"
    and "run_state (heal_upf r p) v = (y, v')"
  then show "(\<forall>k. view v' k = view w k \<or> (\<exists>p \<in> set pods. k = key_of (KPod p) \<and> deletable now p))
    \<and> ((\<forall>x v. fst (run_state (kDelete (udr_Client r) x) v) = None) \<and> deletable now p \<longrightarrow> going view v' (key_of (KPod p)))"
    using heal_upf_step [OF _ clock, of p v y v'] by metis
next
  fix p q v v' y
  assume "(\<forall>x v. fst (run_state (kDelete (udr_Client r) x) v) = None) \<and> deletable now p \<longrightarrow> going view v (key_of (KPod p))"
    and "run_state (heal_upf r q) v = (y, v')"
  then show "(\<forall>x v. fst (run_state (kDelete (udr_Client r) x) v) = None) \<and> deletable now p \<longrightarrow> going view v' (key_of (KPod p))"
    using heal_upf_step [OF _ clock, of q v y v'] by blast
qed simp

lemma heal_effect:
  assumes sel: "udr_Parse r label = Inr sel" and clock: "\<And>v. fst (run_state (udr_Now r) v) = now"
    and run: "run_state (ensureUpfHealthy r label) w = (res, w')"
  shows "res = None"
    and "view w' k = view w k \<or> (\<exists>p. view w k = Some (KPod p) \<and> selected sel p \<and> deletable now p)"
    and "(\<forall>x v. fst (run_state (kDelete (udr_Client r) x) v) = None) \<Longrightarrow>
      fst (run_state (list_as (udr_Client r) as_Pod (coreGVK ''Pod'') [InNamespace ''default'', LabelSelector sel]) w) = Inr pods \<Longrightarrow>
      view w (key_of (KPod p)) = Some (KPod p) \<Longrightarrow> selected sel p \<Longrightarrow> deletable now p \<Longrightarrow> going view w' (key_of (KPod p))"
proof -
  let ?l = "list_as (udr_Client r) as_Pod (coreGVK ''Pod'') [InNamespace ''default'', LabelSelector sel]"
  obtain l w1 where l: "run_state ?l w = (l, w1)" by force
  have v1: "view w1 = view w" by (rule frameD [OF list_as_frame l])
  show "res = None" using run sel l by (auto simp: ensureUpfHealthy_def split: sum.splits prod.splits)
  have "(view w' k = view w k \<or> (\<exists>p. view w k = Some (KPod p) \<and> selected sel p \<and> deletable now p))
    \<and> ((\<forall>x v. fst (run_state (kDelete (udr_Client r) x) v) = None) \<and> l = Inr pods \<and> view w (key_of (KPod p)) = Some (KPod p)
        \<and> selected sel p \<and> deletable now p \<longrightarrow> going view w' (key_of (KPod p)))"
  proof (cases l)
    case (Inl e)
    with run sel l v1 show ?thesis by (simp add: ensureUpfHealthy_def)
  next
    case (Inr ps)
    obtain u w2 where f: "run_state (for_each (heal_upf r) ps) w1 = (u, w2)" by (metis surj_pair)
    have w2: "w' = w2" using run sel l f Inr by (simp add: ensureUpfHealthy_def)
    have mem: "q \<in> set ps \<longleftrightarrow> view w (key_of (KPod q)) = Some (KPod q) \<and> selected sel q" for q
      using list_as_ok [of as_Pod "coreGVK ''Pod''" "[InNamespace ''default'', LabelSelector sel]" w ps w1] l Inr
      by (auto simp: as_simps selected_def)
    from heal_all [OF f clock] mem v1 w2 Inr show ?thesis by auto
  qed
  then show "view w' k = view w k \<or> (\<exists>p. view w k = Some (KPod p) \<and> selected sel p \<and> deletable now p)"
    and "(\<forall>x v. fst (run_state (kDelete (udr_Client r) x) v) = None) \<Longrightarrow> fst (run_state ?l w) = Inr pods \<Longrightarrow>
      view w (key_of (KPod p)) = Some (KPod p) \<Longrightarrow> selected sel p \<Longrightarrow> deletable now p \<Longrightarrow> going view w' (key_of (KPod p))"
    using l by auto
qed

end

section \<open>An actuator in memory\<close>

definition lab_datapath :: "host_lab UPFDataPathReconciler" where
  "lab_datapath = \<lparr>udr_Client = mem_client, udr_Env = quiet_env, udr_Host = lab_host (\<lambda>b. None), udr_Clientset = None,
     udr_NodeName = ''node-1'', udr_Now = ret (Seconds 100), udr_Parse = (\<lambda>s. Inr (\<lambda>ls. map_of ls ''app'' = Some ''upf''))\<rparr>"

lemma lab_datapath_simps [simp]:
  "udr_Client lab_datapath = mem_client" "udr_Env lab_datapath = quiet_env" "udr_Now lab_datapath = ret (Seconds 100)"
  "udr_Parse lab_datapath = (\<lambda>s. Inr (\<lambda>ls. map_of ls ''app'' = Some ''upf''))"
  by (simp_all add: lab_datapath_def)

interpretation lab_dp: datapath_world lab_datapath cl_view
  by (intro datapath_world.intro datapath_world_axioms.intro)
    (simp_all add: mem.kube_api_axioms quiet_env_def put_condition.status_conditions_axioms frame_return)

text \<open>Two UPF pods without their networks after 100 seconds, one of them ready all the same.\<close>

definition demo_upf :: "string \<Rightarrow> string \<Rightarrow> Pod" where
  "demo_upf name ready = \<lparr>pod_Meta = (named_meta ''default'' name)\<lparr>om_Labels := [(''app'', ''upf'')]\<rparr>, pod_Phase = ''Running'', pod_IP = ''10.7.0.9'',
     pod_Conditions = [(''Ready'', ready)], pod_ContainerStatuses = [], pod_InitContainerStatuses = []\<rparr>"

definition demo_datapath :: UPFDataPath where
  "demo_datapath = \<lparr>dp_Meta = named_meta ''default'' ''dp'', dp_Spec = \<lparr>dp_UEPool = ''172.7.0.0/16'', dp_AccessGateway = ''10.200.7.1'',
     dp_CoreGateway = ''10.201.7.1'', dp_CoreNextHop = ''10.201.7.10'', dp_AccessBridge = '''', dp_CoreBridge = '''', dp_GnbIP = ''10.200.7.20'',
     dp_EgressNic = ''eth0'', dp_UPFLabel = ''''\<rparr>, dp_Status = \<lparr>dps_LastReconcile = '''', dps_Node = '''', dps_Conditions = []\<rparr>\<rparr>"

definition demo_node :: host_lab where
  "demo_node = demo_host\<lparr>cl_objects := [KUPFDataPath demo_datapath, KPod (demo_upf ''upf-0'' ''False''), KPod (demo_upf ''upf-1'' ''True'')]\<rparr>"

lemma demo_node_view:
  "cl_view demo_node (mk_key (sdcoreGVK ''UPFDataPath'') ''default'' ''dp'') = Some (KUPFDataPath demo_datapath)"
  "cl_view demo_node (key_of (KPod (demo_upf ''upf-0'' ''False''))) = Some (KPod (demo_upf ''upf-0'' ''False''))"
  "cl_view demo_node (key_of (KPod (demo_upf ''upf-1'' ''True''))) = Some (KPod (demo_upf ''upf-1'' ''True''))"
  by (simp_all add: cl_view_def demo_node_def demo_host_def demo_datapath_def demo_upf_def key_of_def mk_key_def live_def named_meta_def
      sdcoreGVK_def coreGVK_def)

section \<open>Properties\<close>


lemma reconcile_returns:
  assumes "run_state (get_as (udr_Client r) as_UPFDataPath (mk_key (sdcoreGVK ''UPFDataPath'') ns name)) w = (Inr dp, w1)"
  shows "snd (fst (run_state (UPFDataPath_Reconcile r ns name) w)) = None"
  using assms by (auto simp: UPFDataPath_Reconcile_def datapath_report_def split: prod.splits)




end
