(* ===== verification/Helm_Controllers.thy ===== *)
theory Helm_Controllers
  imports Go_Net Kube_Laws
begin

text \<open>
  The two reconcilers that deploy Helm charts, \<open>operator/internal/controller/sdcoredeployment_controller.go\<close>
  and \<open>nfdeployment_controller.go\<close>: choosing the chart, building its values from the resource, and
  installing or upgrading the release. Helm itself is a parameter (a chart is what its loader makes of
  the files), so is the YAML decoder; the embedded file system is one node per chart directory.
\<close>

section \<open>Helm and the embedded charts\<close>

datatype fsnode = FileNode string | DirNode "(string \<times> fsnode) list"

text \<open>
  The actions of Helm, each on a configuration that \<open>cfg.Init\<close> made for a namespace; both
  controllers set the same options (five minutes, and for an install the creation of the namespace).
\<close>

record ('w, 'c) helm =
  hInit :: "string \<Rightarrow> ('w, error option) io"
  hHistory :: "string \<Rightarrow> string \<Rightarrow> ('w, error option) io"
  hInstall :: "string \<Rightarrow> string \<Rightarrow> 'c \<Rightarrow> json \<Rightarrow> ('w, error + int) io"
  hUpgrade :: "string \<Rightarrow> string \<Rightarrow> 'c \<Rightarrow> json \<Rightarrow> ('w, error + int) io"
  LoadFiles :: "(string \<times> string) list \<Rightarrow> error + 'c"
  charts :: "string \<Rightarrow> fsnode option"

definition componentToChart :: "(string \<times> string) list" where
  "componentToChart = [(''controlplane'', ''charts/controlplane''), (''upf'', ''charts/upf''), (''ransim'', ''charts/ransim''),
     (''subscribers'', ''charts/subscribers'')]"

text \<open>The files below a directory in the order of \<open>fs.WalkDir\<close>, with their paths relative to it.\<close>

function walk_files :: "string \<Rightarrow> fsnode \<Rightarrow> (string \<times> string) list" where
  "walk_files rel (FileNode d) = [(if rel = '''' then ''.'' else rel, d)]"
| "walk_files rel (DirNode es) = concat (map (\<lambda>e. walk_files (if rel = '''' then fst e else rel @ ''/'' @ fst e) (snd e)) es)"
  by pat_completeness auto
termination
proof (relation "measure (\<lambda>(rel, x). size x)")
  fix rel es and e :: "string \<times> fsnode"
  assume "e \<in> set es"
  then have "size (snd e) < size (DirNode es)" by (induction es) auto
  then show "((if rel = '''' then fst e else rel @ ''/'' @ fst e, snd e), (rel, DirNode es)) \<in> measure (\<lambda>(rel, x). size x)" by simp
qed simp

definition loadChart :: "('w, 'c) helm \<Rightarrow> string \<Rightarrow> error + 'c" where
  "loadChart H component = (case map_of componentToChart component of
       None \<Rightarrow> Inl (ErrorString (''unknown component '' @ quote component))
     | Some dir \<Rightarrow>
         (case charts H dir of None \<Rightarrow> Inl (ErrorString (''open '' @ dir @ '': file does not exist''))
          | Some x \<Rightarrow>
              let files = walk_files '''' x in
              if files = [] then Inl (ErrorString (''no files found under '' @ quote dir @ '' (chart not embedded?)''))
              else LoadFiles H files))"

section \<open>SDCoreDeployment\<close>

text \<open>\<open>sdr_Unmarshal\<close> is \<open>yaml.Unmarshal\<close> into a map.\<close>

record ('w, 'c) SDCoreDeploymentReconciler =
  sdr_Client :: "'w kclient"
  sdr_Env :: "'w env"
  sdr_Helm :: "('w, 'c) helm"
  sdr_Unmarshal :: "string \<Rightarrow> error + json"

definition sd_condition :: "('w, 'c) SDCoreDeploymentReconciler \<Rightarrow> SDCoreDeployment \<Rightarrow> ConditionStatus \<Rightarrow> string \<Rightarrow> string \<Rightarrow> Condition list" where
  "sd_condition r cr st reason msg = SetStatusCondition (sdr_Env r) (sds_Conditions (sd_Status cr))
     \<lparr>cond_Type = ''Available'', cond_Status = st, cond_Reason = reason, cond_Message = msg, cond_ObservedGeneration = 0\<rparr>"

definition sd_failed :: "('w, 'c) SDCoreDeploymentReconciler \<Rightarrow> SDCoreDeployment \<Rightarrow> string \<Rightarrow> SDCoreDeployment" where
  "sd_failed r cr msg = cr\<lparr>sd_Status := (sd_Status cr)\<lparr>sds_Phase := ''Failed'', sds_Message := msg,
     sds_ObservedGeneration := om_Generation (sd_Meta cr), sds_Conditions := sd_condition r cr ConditionFalse ''Error'' msg\<rparr>\<rparr>"

definition sd_fail :: "('w, 'c) SDCoreDeploymentReconciler \<Rightarrow> SDCoreDeployment \<Rightarrow> string \<Rightarrow> ('w, Result \<times> error option) io" where
  "sd_fail r cr msg = do {
     u \<leftarrow> kStatusUpdate (sdr_Client r) (KSDCoreDeployment (sd_failed r cr msg));
     ret (requeue_seconds 30, None) }"

definition target_ns :: "SDCoreDeployment \<Rightarrow> string" where
  "target_ns cr = (if sd_TargetNamespace (sd_Spec cr) = '''' then om_Namespace (sd_Meta cr) else sd_TargetNamespace (sd_Spec cr))"

definition sd_message :: "SDCoreDeployment \<Rightarrow> int \<Rightarrow> string" where
  "sd_message cr revision = ''helm release '' @ quote (om_Name (sd_Meta cr)) @ '' revision '' @ itoa revision @ '' applied to '' @ quote (target_ns cr)"

definition sd_deployed :: "('w, 'c) SDCoreDeploymentReconciler \<Rightarrow> SDCoreDeployment \<Rightarrow> int \<Rightarrow> SDCoreDeployment" where
  "sd_deployed r cr revision = cr\<lparr>sd_Status := (sd_Status cr)\<lparr>sds_Phase := ''Deployed'', sds_Message := sd_message cr revision,
     sds_ReleaseRevision := revision, sds_ObservedGeneration := om_Generation (sd_Meta cr),
     sds_Conditions := sd_condition r cr ConditionTrue ''Deployed'' (sd_message cr revision)\<rparr>\<rparr>"

definition sd_values :: "('w, 'c) SDCoreDeploymentReconciler \<Rightarrow> SDCoreDeployment \<Rightarrow> error + json" where
  "sd_values r cr = (case sd_Values (sd_Spec cr) of None \<Rightarrow> Inr (JObj [])
     | Some raw \<Rightarrow> if raw = '''' then Inr (JObj []) else sdr_Unmarshal r raw)"

text \<open>The release: a missing one is installed, an existing one upgraded; the result is the revision or the message of the failure.\<close>

definition sd_release :: "('w, 'c) helm \<Rightarrow> string \<Rightarrow> string \<Rightarrow> 'c \<Rightarrow> json \<Rightarrow> ('w, string + int) io" where
  "sd_release H ns relName ch vals = do {
     herr \<leftarrow> hHistory H ns relName;
     case herr of
       None \<Rightarrow> do {
         rel \<leftarrow> hUpgrade H ns relName ch vals;
         ret (case rel of Inl e \<Rightarrow> Inl (''helm upgrade: '' @ Error e) | Inr v \<Rightarrow> Inr v) }
     | Some err \<Rightarrow>
         if err = ErrReleaseNotFound then do {
           rel \<leftarrow> hInstall H ns relName ch vals;
           ret (case rel of Inl e \<Rightarrow> Inl (''helm install: '' @ Error e) | Inr v \<Rightarrow> Inr v) }
         else ret (Inl (''helm history: '' @ Error err)) }"

definition SDCoreDeployment_Reconcile :: "('w, 'c) SDCoreDeploymentReconciler \<Rightarrow> string \<Rightarrow> string \<Rightarrow> ('w, Result \<times> error option) io" where
  "SDCoreDeployment_Reconcile r nsp name = do {
     g \<leftarrow> get_as (sdr_Client r) as_SDCoreDeployment (mk_key (sdcoreGVK ''SDCoreDeployment'') nsp name);
     case g of Inl err \<Rightarrow> ret (NoRequeue, IgnoreNotFound err)
     | Inr cr \<Rightarrow>
         (case loadChart (sdr_Helm r) (sd_Component (sd_Spec cr)) of
            Inl err \<Rightarrow> sd_fail r cr (''load chart: '' @ Error err)
          | Inr ch \<Rightarrow>
              (case sd_values r cr of Inl err \<Rightarrow> sd_fail r cr (''parse values: '' @ Error err)
               | Inr vals \<Rightarrow> do {
                   i \<leftarrow> hInit (sdr_Helm r) (target_ns cr);
                   case i of Some err \<Rightarrow> sd_fail r cr (''helm init: '' @ Error err)
                   | None \<Rightarrow> do {
                       rel \<leftarrow> sd_release (sdr_Helm r) (target_ns cr) (om_Name (sd_Meta cr)) ch vals;
                       case rel of Inl msg \<Rightarrow> sd_fail r cr msg
                       | Inr revision \<Rightarrow> do {
                           u \<leftarrow> kStatusUpdate (sdr_Client r) (KSDCoreDeployment (sd_deployed r cr revision));
                           ret (NoRequeue, err_of u) } } })) }"

section \<open>NFDeployment\<close>

text \<open>\<open>nfr_Getenv\<close> is \<open>os.Getenv\<close>: the environment does not change while the operator runs.\<close>

record ('w, 'c) NFDeploymentReconciler =
  nfr_Client :: "'w kclient"
  nfr_Env :: "'w env"
  nfr_Helm :: "('w, 'c) helm"
  nfr_Getenv :: "string \<Rightarrow> string"

definition providerToComponent :: "string \<Rightarrow> string option" where
  "providerToComponent provider =
     (if HasPrefix provider ''upf.'' then Some ''upf''
      else if HasPrefix provider ''smf.'' \<or> HasPrefix provider ''amf.'' \<or> HasPrefix provider ''controlplane.'' then Some ''controlplane''
      else None)"

definition firstIfaceIPv4 :: "InterfaceConfig list \<Rightarrow> string \<Rightarrow> error + string" where
  "firstIfaceIPv4 ifaces name = (case find (\<lambda>ic. ic_Name ic = name \<and> ic_IPv4 ic \<noteq> None) ifaces of
       None \<Rightarrow> Inl (ErrorString (''interface '' @ quote name @ '' not found''))
     | Some ic \<Rightarrow> (case ParseCIDR (ip4_Address (the (ic_IPv4 ic))) of Inl err \<Rightarrow> Inl err | Inr (ip, net) \<Rightarrow> Inr (IP_String ip)))"

definition iface_gateway :: "string \<Rightarrow> InterfaceConfig \<Rightarrow> string option" where
  "iface_gateway name ic = (if ic_Name ic = name then (case ic_IPv4 ic of None \<Rightarrow> None | Some v \<Rightarrow> ip4_Gateway v) else None)"

definition first_of :: "('a \<Rightarrow> string option) \<Rightarrow> 'a list \<Rightarrow> string" where
  "first_of f xs = (case List.map_filter f xs of [] \<Rightarrow> '''' | y # ys \<Rightarrow> y)"

definition firstIfaceGateway :: "InterfaceConfig list \<Rightarrow> string \<Rightarrow> string" where
  "firstIfaceGateway ifaces name = first_of (iface_gateway name) ifaces"

text \<open>The first prefix of the first network instance on the interface that has one.\<close>

definition instance_pool :: "string \<Rightarrow> NetworkInstance \<Rightarrow> string option" where
  "instance_pool ifaceName ni = (if ifaceName \<in> set (ni_Interfaces ni)
     then (case concat (ni_DataNetworks ni) of [] \<Rightarrow> None | p # ps \<Rightarrow> Some p) else None)"

definition firstPool :: "NetworkInstance list \<Rightarrow> string \<Rightarrow> string" where
  "firstPool nis ifaceName = first_of (instance_pool ifaceName) nis"

definition env_or :: "(string \<Rightarrow> string) \<Rightarrow> string \<Rightarrow> string \<Rightarrow> string" where
  "env_or getenv k d = (if getenv k = '''' then d else getenv k)"

definition upf_net :: "string \<Rightarrow> string \<Rightarrow> string \<Rightarrow> string \<Rightarrow> json" where
  "upf_net cni ip master gw = JObj [(''cniPlugin'', JStr cni), (''ipam'', JStr ''static''), (''ip'', JStr (ip @ ''/24'')), (''iface'', JStr master), (''gateway'', JStr gw)]"

definition upf_values :: "(string \<Rightarrow> string) \<Rightarrow> NFDeployment \<Rightarrow> string \<Rightarrow> string \<Rightarrow> json" where
  "upf_values getenv nfd n3 n6 =
     (let pool = firstPool (nfd_NetworkInstances nfd) ''n6'';
          cni = env_or getenv ''UPF_CNI_PLUGIN'' ''bridge'';
          upf = [(''privileged'', JBool True), (''hugepage'', JObj [(''enabled'', JBool False)]), (''sriov'', JObj [(''enabled'', JBool False)]),
            (''access'', upf_net cni n3 (env_or getenv ''UPF_ACCESS_MASTER'' ''eth0'') (firstIfaceGateway (nfd_Interfaces nfd) ''n3'')),
            (''core'', upf_net cni n6 (env_or getenv ''UPF_CORE_MASTER'' ''eth0'') (firstIfaceGateway (nfd_Interfaces nfd) ''n6'')),
            (''cfgFiles'', JObj [(''upf.jsonc'', JObj [(''mode'', JStr ''af_packet'')])])]
      in JObj [(''config'', JObj [(''upf'', JObj (if pool = '''' then upf else upsert ''enb'' (JObj [(''subnet'', JStr pool)]) upf))])])"

definition buildValuesFromNFDeployment :: "(string \<Rightarrow> string) \<Rightarrow> string \<Rightarrow> NFDeployment \<Rightarrow> error + json" where
  "buildValuesFromNFDeployment getenv component nfd =
     (if component = ''upf'' then
        (case firstIfaceIPv4 (nfd_Interfaces nfd) ''n3'' of Inl err \<Rightarrow> Inl (WrapError ''n3: '' err)
         | Inr n3 \<Rightarrow>
             (case firstIfaceIPv4 (nfd_Interfaces nfd) ''n6'' of Inl err \<Rightarrow> Inl (WrapError ''n6: '' err)
              | Inr n6 \<Rightarrow> Inr (upf_values getenv nfd n3 n6)))
      else if component = ''controlplane'' then
        Inr (JObj [(''config'', JObj [(''smf'', JObj [(''n4'', JObj [(''ip'',
          JStr (case firstIfaceIPv4 (nfd_Interfaces nfd) ''n4'' of Inl err \<Rightarrow> '''' | Inr n4 \<Rightarrow> n4))])])])])
      else Inr (JObj []))"

text \<open>The release: only a missing one is installed, every other answer of the history leads to an upgrade.\<close>

definition nf_release :: "('w, 'c) helm \<Rightarrow> string \<Rightarrow> string \<Rightarrow> 'c \<Rightarrow> json \<Rightarrow> ('w, error option) io" where
  "nf_release H ns relName ch vals = do {
     herr \<leftarrow> hHistory H ns relName;
     if herr = Some ErrReleaseNotFound then do { rel \<leftarrow> hInstall H ns relName ch vals; ret (err_of rel) }
     else do { rel \<leftarrow> hUpgrade H ns relName ch vals; ret (err_of rel) } }"

definition nf_deployed :: "('w, 'c) NFDeploymentReconciler \<Rightarrow> NFDeployment \<Rightarrow> string \<Rightarrow> NFDeployment" where
  "nf_deployed r nfd component = nfd\<lparr>nfd_Conditions := SetStatusCondition (nfr_Env r) (nfd_Conditions nfd)
     \<lparr>cond_Type = ''Ready'', cond_Status = ConditionTrue, cond_Reason = ''Deployed'',
      cond_Message = ''SD-Core '' @ component @ '' wired from specialized interfaces'', cond_ObservedGeneration = 0\<rparr>\<rparr>"

definition NFDeployment_Reconcile :: "('w, 'c) NFDeploymentReconciler \<Rightarrow> string \<Rightarrow> string \<Rightarrow> ('w, Result \<times> error option) io" where
  "NFDeployment_Reconcile r nsp name = do {
     g \<leftarrow> get_as (nfr_Client r) as_NFDeployment (mk_key nfdGVK nsp name);
     case g of Inl err \<Rightarrow> ret (NoRequeue, IgnoreNotFound err)
     | Inr nfd \<Rightarrow>
         (case providerToComponent (nfd_Provider nfd) of None \<Rightarrow> ret (NoRequeue, None)
          | Some component \<Rightarrow>
              (case buildValuesFromNFDeployment (nfr_Getenv r) component nfd of Inl err \<Rightarrow> ret (requeue_seconds 30, None)
               | Inr vals \<Rightarrow>
                   (case loadChart (nfr_Helm r) component of Inl err \<Rightarrow> ret (requeue_seconds 30, None)
                    | Inr ch \<Rightarrow> do {
                        i \<leftarrow> hInit (nfr_Helm r) (om_Namespace (nfd_Meta nfd));
                        case i of Some err \<Rightarrow> ret (requeue_seconds 30, None)
                        | None \<Rightarrow> do {
                            e \<leftarrow> nf_release (nfr_Helm r) (om_Namespace (nfd_Meta nfd)) (om_Name (nfd_Meta nfd)) ch vals;
                            case e of Some err \<Rightarrow> ret (requeue_seconds 30, None)
                            | None \<Rightarrow> do {
                                u \<leftarrow> kStatusUpdate (nfr_Client r) (KNFDeployment (nf_deployed r nfd component));
                                ret (NoRequeue, None) } } }))) }"

section \<open>What Helm promises\<close>

text \<open>
  \<open>rel w ns n\<close> is the deployed release of that name: its chart, its values and its revision. A
  successful install or upgrade deploys exactly what it was given; no action touches another
  release; a history that is not found means there is no release.
\<close>

locale helm_releases =
  fixes H :: "('w, 'c) helm" and rel :: "'w \<Rightarrow> string \<Rightarrow> string \<Rightarrow> ('c \<times> json \<times> int) option"
  assumes init_frame: "frame rel (hInit H ns)"
    and history_frame: "frame rel (hHistory H ns n)"
    and history_missing: "run_state (hHistory H ns n) w = (Some ErrReleaseNotFound, w') \<Longrightarrow> rel w ns n = None"
    and install_ok: "run_state (hInstall H ns n ch vals) w = (Inr v, w') \<Longrightarrow> rel w' ns n = Some (ch, vals, v)"
    and install_other: "run_state (hInstall H ns n ch vals) w = (res, w') \<Longrightarrow> (ns', n') \<noteq> (ns, n) \<Longrightarrow> rel w' ns' n' = rel w ns' n'"
    and upgrade_ok: "run_state (hUpgrade H ns n ch vals) w = (Inr v, w') \<Longrightarrow> rel w' ns n = Some (ch, vals, v)"
    and upgrade_other: "run_state (hUpgrade H ns n ch vals) w = (res, w') \<Longrightarrow> (ns', n') \<noteq> (ns, n) \<Longrightarrow> rel w' ns' n' = rel w ns' n'"
begin

lemma sd_release_effect:
  assumes run: "run_state (sd_release H ns n ch vals) w = (res, w')"
  shows "res = Inr v \<Longrightarrow> rel w' ns n = Some (ch, vals, v)" and "(ns', n') \<noteq> (ns, n) \<Longrightarrow> rel w' ns' n' = rel w ns' n'"
proof -
  obtain herr w1 where h: "run_state (hHistory H ns n) w = (herr, w1)" by force
  obtain i w2 where i: "run_state (hInstall H ns n ch vals) w1 = (i, w2)" by force
  obtain g w3 where g: "run_state (hUpgrade H ns n ch vals) w1 = (g, w3)" by force
  note run' = run [unfolded sd_release_def, simplified, unfolded h, simplified]
  have "(res = Inr v \<longrightarrow> rel w' ns n = Some (ch, vals, v)) \<and> ((ns', n') \<noteq> (ns, n) \<longrightarrow> rel w' ns' n' = rel w1 ns' n')"
  proof (cases herr)
    case None
    with run' g have "w' = w3" "res = Inr v \<Longrightarrow> g = Inr v" by (auto split: sum.splits)
    with upgrade_ok [of ns n ch vals w1 v w3] upgrade_other [OF g, of ns' n'] g show ?thesis by auto
  next
    case (Some err)
    show ?thesis
    proof (cases "err = ErrReleaseNotFound")
      case True
      with Some run' i have "w' = w2" "res = Inr v \<Longrightarrow> i = Inr v" by (auto split: sum.splits)
      with install_ok [of ns n ch vals w1 v w2] install_other [OF i, of ns' n'] i show ?thesis by auto
    next
      case False
      with Some run' show ?thesis by auto
    qed
  qed
  with frameD [OF history_frame h]
  show "res = Inr v \<Longrightarrow> rel w' ns n = Some (ch, vals, v)" and "(ns', n') \<noteq> (ns, n) \<Longrightarrow> rel w' ns' n' = rel w ns' n'" by auto
qed

lemma nf_release_effect:
  assumes run: "run_state (nf_release H ns n ch vals) w = (res, w')"
  shows "res = None \<Longrightarrow> \<exists>v. rel w' ns n = Some (ch, vals, v)" and "(ns', n') \<noteq> (ns, n) \<Longrightarrow> rel w' ns' n' = rel w ns' n'"
proof -
  obtain herr w1 where h: "run_state (hHistory H ns n) w = (herr, w1)" by force
  obtain i w2 where i: "run_state (hInstall H ns n ch vals) w1 = (i, w2)" by force
  obtain g w3 where g: "run_state (hUpgrade H ns n ch vals) w1 = (g, w3)" by force
  note run' = run [unfolded nf_release_def, simplified, unfolded h, simplified]
  have "(res = None \<longrightarrow> (\<exists>v. rel w' ns n = Some (ch, vals, v))) \<and> ((ns', n') \<noteq> (ns, n) \<longrightarrow> rel w' ns' n' = rel w1 ns' n')"
  proof (cases "herr = Some ErrReleaseNotFound")
    case True
    with run' i have "w' = w2" "res = err_of i" by auto
    with install_ok [of ns n ch vals w1 _ w2] install_other [OF i, of ns' n'] i show ?thesis by (cases i) auto
  next
    case False
    with run' g have "w' = w3" "res = err_of g" by auto
    with upgrade_ok [of ns n ch vals w1 _ w3] upgrade_other [OF g, of ns' n'] g show ?thesis by (cases g) auto
  qed
  with frameD [OF history_frame h]
  show "res = None \<Longrightarrow> \<exists>v. rel w' ns n = Some (ch, vals, v)" and "(ns', n') \<noteq> (ns, n) \<Longrightarrow> rel w' ns' n' = rel w ns' n'" by auto
qed

end

section \<open>What a reconcile leaves\<close>

text \<open>
  Both controllers talk to the same API server as Helm does. The client's own calls deploy nothing, and what
  Helm changes in the cluster are the objects of the charts, never a resource of the kind \<open>G\<close> reconciled here.
\<close>

locale helm_world = helm_releases H rel + kube_api c view
  for H :: "('w, 'c) helm" and rel :: "'w \<Rightarrow> string \<Rightarrow> string \<Rightarrow> ('c \<times> json \<times> int) option"
    and c :: "'w kclient" and view :: "'w \<Rightarrow> ObjectKey \<Rightarrow> kobject option" and G :: GVK +
  assumes get_rel: "frame rel (kGet c k)" and status_rel: "frame rel (kStatusUpdate c x)"
    and init_view: "key_GVK k = G \<Longrightarrow> frame (\<lambda>w. view w k) (hInit H ns)"
    and history_view: "key_GVK k = G \<Longrightarrow> frame (\<lambda>w. view w k) (hHistory H ns n)"
    and install_view: "key_GVK k = G \<Longrightarrow> frame (\<lambda>w. view w k) (hInstall H ns n ch vals)"
    and upgrade_view: "key_GVK k = G \<Longrightarrow> frame (\<lambda>w. view w k) (hUpgrade H ns n ch vals)"
begin

lemma get_as_rel: "frame rel (get_as c f k)"
  unfolding get_as_def by (intro frame_intros get_rel)

lemma sd_release_view: "key_GVK k = G \<Longrightarrow> frame (\<lambda>w. view w k) (sd_release H ns n ch vals)"
  unfolding sd_release_def by (intro frame_intros history_view install_view upgrade_view)

text \<open>A stored resource is what the reconcile reads, unless the read fails for another reason than absence.\<close>

lemma read_stored:
  assumes "run_state (get_as c f k) w = (g, w1)" and "view w k = Some x" and "f x = Some y"
  shows "g = Inr y \<or> (\<exists>err. g = Inl err \<and> IgnoreNotFound err = Some err)"
proof (cases g)
  case (Inl err)
  with get_as_missing [of f k w err w1] assms(1,2) show ?thesis by (auto simp: IgnoreNotFound_def)
next
  case (Inr z)
  with get_as_ok [of f k w z w1] assms show ?thesis by auto
qed

end

definition sd_reports :: "('w \<Rightarrow> ObjectKey \<Rightarrow> kobject option) \<Rightarrow> 'w \<Rightarrow> ObjectKey \<Rightarrow> SDCoreDeployment \<Rightarrow> string \<Rightarrow> ConditionStatus \<Rightarrow> bool" where
  "sd_reports view w k cr phase st \<longleftrightarrow> (\<exists>y cd. view w k = Some (KSDCoreDeployment y) \<and> sd_Spec y = sd_Spec cr \<and> sds_Phase (sd_Status y) = phase
     \<and> sds_ObservedGeneration (sd_Status y) = om_Generation (sd_Meta cr)
     \<and> find_cond ''Available'' (sds_Conditions (sd_Status y)) = Some cd \<and> cond_Status cd = st \<and> cond_Message cd = sds_Message (sd_Status y))"

locale sdcore_world = helm_world "sdr_Helm r" rel "sdr_Client r" view "sdcoreGVK ''SDCoreDeployment''"
  for r :: "('w, 'c) SDCoreDeploymentReconciler" and rel :: "'w \<Rightarrow> string \<Rightarrow> string \<Rightarrow> ('c \<times> json \<times> int) option"
    and view :: "'w \<Rightarrow> ObjectKey \<Rightarrow> kobject option" +
  assumes conds: "status_conditions (SetStatusCondition (sdr_Env r))"
begin

lemma sd_status_written:
  assumes run: "run_state (kStatusUpdate (sdr_Client r) (KSDCoreDeployment x)) w = (Inr y, w')"
    and obj: "view w k = Some (KSDCoreDeployment cr)" and k: "key_of (KSDCoreDeployment x) = k"
  shows "\<exists>z. view w' k = Some (KSDCoreDeployment z) \<and> sd_Spec z = sd_Spec cr \<and> sd_Status z = sd_Status x"
proof -
  from status_ok [OF run] obj k have i: "same_intent (KSDCoreDeployment cr) y" and p: "put_status y (KSDCoreDeployment x) = y"
    and v: "view w' k = Some y" by auto
  from i have "spec_of y = SSDCoreDeployment (sd_Spec cr)" by (simp add: same_intent_def)
  then obtain z where z: "y = KSDCoreDeployment z" "sd_Spec z = sd_Spec cr" by (cases y) auto
  moreover have "sd_Status z = sd_Status x" using p unfolding z(1) by (cases z) (auto simp: put_status_def)
  ultimately show ?thesis using v by auto
qed

lemma sd_fail_reports:
  assumes run: "run_state (sd_fail r cr msg) w = ((q, e), w')" and obj: "view w k = Some (KSDCoreDeployment cr)"
  shows "q = requeue_seconds 30 \<and> e = None \<and> rel w' = rel w \<and> (view w' = view w \<or> sd_reports view w' k cr ''Failed'' ConditionFalse)"
proof -
  let ?x = "sd_failed r cr msg"
  obtain u w1 where u: "run_state (kStatusUpdate (sdr_Client r) (KSDCoreDeployment ?x)) w = (u, w1)" by force
  with run have q: "q = requeue_seconds 30" "e = None" "w' = w1" by (simp_all add: sd_fail_def)
  have k: "key_of (KSDCoreDeployment ?x) = k" using view_key [OF obj] by (simp add: key_of_def sd_failed_def)
  have "view w1 = view w \<or> sd_reports view w1 k cr ''Failed'' ConditionFalse"
  proof (cases u)
    case (Inl err)
    with u status_err show ?thesis by simp
  next
    case (Inr y)
    from sd_status_written [OF u [unfolded Inr] obj k] show ?thesis
      by (auto simp: sd_reports_def sd_failed_def sd_condition_def
          status_conditions.set_cond_found [OF conds, of "\<lparr>cond_Type = ''Available'', cond_Status = ConditionFalse, cond_Reason = ''Error'',
            cond_Message = msg, cond_ObservedGeneration = 0\<rparr>", simplified])
  qed
  with q frameD [OF status_rel u] show ?thesis by simp
qed

end

text \<open>The outcome of a reconcile: deployed with what the resource asks for, or reported as failed.\<close>

definition sd_outcome :: "('w, 'c) SDCoreDeploymentReconciler \<Rightarrow> ('w \<Rightarrow> string \<Rightarrow> string \<Rightarrow> ('c \<times> json \<times> int) option)
    \<Rightarrow> ('w \<Rightarrow> ObjectKey \<Rightarrow> kobject option) \<Rightarrow> SDCoreDeployment \<Rightarrow> ObjectKey \<Rightarrow> 'w \<Rightarrow> Result \<Rightarrow> bool" where
  "sd_outcome r rel view cr k w' q \<longleftrightarrow>
     (q = NoRequeue \<and> (\<exists>ch vals v. loadChart (sdr_Helm r) (sd_Component (sd_Spec cr)) = Inr ch \<and> sd_values r cr = Inr vals
        \<and> rel w' (target_ns cr) (om_Name (sd_Meta cr)) = Some (ch, vals, v)) \<and> sd_reports view w' k cr ''Deployed'' ConditionTrue)
     \<or> (q = requeue_seconds 30 \<and> (view w' k = Some (KSDCoreDeployment cr) \<or> sd_reports view w' k cr ''Failed'' ConditionFalse))"

context sdcore_world
begin

lemma sd_fail_outcome:
  assumes "run_state (sd_fail r cr msg) w = ((q, e), w')" and "view w k = Some (KSDCoreDeployment cr)"
  shows "sd_outcome r rel view cr k w' q \<and> rel w' = rel w"
  using sd_fail_reports [OF assms] assms(2) by (auto simp: sd_outcome_def)

lemma sd_deployed_outcome:
  assumes chart: "loadChart (sdr_Helm r) (sd_Component (sd_Spec cr)) = Inr ch" and vals: "sd_values r cr = Inr vals"
    and rel: "rel w (target_ns cr) (om_Name (sd_Meta cr)) = Some (ch, vals, v)" and obj: "view w k = Some (KSDCoreDeployment cr)"
    and u: "run_state (kStatusUpdate (sdr_Client r) (KSDCoreDeployment (sd_deployed r cr v))) w = (Inr y, w')"
  shows "sd_outcome r rel view cr k w' NoRequeue \<and> rel w' = rel w"
proof -
  have k: "key_of (KSDCoreDeployment (sd_deployed r cr v)) = k" using view_key [OF obj] by (simp add: key_of_def sd_deployed_def)
  from sd_status_written [OF u obj k] have "sd_reports view w' k cr ''Deployed'' ConditionTrue"
    by (auto simp: sd_reports_def sd_deployed_def sd_condition_def
        status_conditions.set_cond_found [OF conds, of "\<lparr>cond_Type = ''Available'', cond_Status = ConditionTrue, cond_Reason = ''Deployed'',
          cond_Message = m, cond_ObservedGeneration = 0\<rparr>" for m, simplified])
  with chart vals rel frameD [OF status_rel u] show ?thesis by (auto simp: sd_outcome_def)
qed

lemma sd_reconcile:
  assumes obj: "view w k = Some (KSDCoreDeployment cr)" and k: "k = mk_key (sdcoreGVK ''SDCoreDeployment'') nsp name"
    and run: "run_state (SDCoreDeployment_Reconcile r nsp name) w = ((q, None), w')"
  shows "sd_outcome r rel view cr k w' q
    \<and> ((\<exists>e. loadChart (sdr_Helm r) (sd_Component (sd_Spec cr)) = Inl e) \<or> (\<exists>e. sd_values r cr = Inl e) \<longrightarrow> rel w' = rel w)
    \<and> (\<forall>ns' n'. (ns', n') \<noteq> (target_ns cr, om_Name (sd_Meta cr)) \<longrightarrow> rel w' ns' n' = rel w ns' n')"
proof -
  let ?n = "om_Name (sd_Meta cr)" and ?t = "target_ns cr"
  have gk: "key_GVK k = sdcoreGVK ''SDCoreDeployment''" by (simp add: k mk_key_def)
  obtain g w1 where g: "run_state (get_as (sdr_Client r) as_SDCoreDeployment k) w = (g, w1)" by force
  from read_stored [OF g obj] run g k have gr: "g = Inr cr" by (auto simp: SDCoreDeployment_Reconcile_def as_simps)
  have v1: "view w1 k = Some (KSDCoreDeployment cr)" and r1: "rel w1 = rel w"
    using frameD [OF get_as_frame g] frameD [OF get_as_rel g] obj by simp_all
  note run1 = run [unfolded SDCoreDeployment_Reconcile_def, folded k, simplified, unfolded g gr, simplified]
  show ?thesis
  proof (cases "loadChart (sdr_Helm r) (sd_Component (sd_Spec cr))")
    case (Inl e)
    with run1 sd_fail_outcome [OF _ v1] r1 show ?thesis by auto
  next
    case ch: (Inr ch)
    show ?thesis
    proof (cases "sd_values r cr")
      case (Inl e)
      with ch run1 sd_fail_outcome [OF _ v1] r1 show ?thesis by auto
    next
      case vals: (Inr vals)
      obtain i w2 where i: "run_state (hInit (sdr_Helm r) ?t) w1 = (i, w2)" by force
      obtain res w3 where s: "run_state (sd_release (sdr_Helm r) ?t ?n ch vals) w2 = (res, w3)" by force
      have v2: "view w2 k = Some (KSDCoreDeployment cr)" and r2: "rel w2 = rel w"
        using frameD [OF init_view [OF gk] i] frameD [OF init_frame i] v1 r1 by simp_all
      have v3: "view w3 k = Some (KSDCoreDeployment cr)" using frameD [OF sd_release_view [OF gk] s] v2 by simp
      note o3 = sd_release_effect(2) [OF s, unfolded r2]
      show ?thesis
      proof (cases i)
        case (Some e)
        with ch vals run1 i sd_fail_outcome [OF _ v2] r2 show ?thesis by auto
      next
        case None
        show ?thesis
        proof (cases res)
          case (Inl msg)
          with ch vals run1 i s None sd_fail_outcome [OF _ v3] o3 show ?thesis by auto
        next
          case (Inr v)
          obtain u w4 where u: "run_state (kStatusUpdate (sdr_Client r) (KSDCoreDeployment (sd_deployed r cr v))) w3 = (u, w4)" by force
          with ch vals run1 i s None Inr have "q = NoRequeue" "err_of u = None" "w' = w4" by auto
          then obtain y where y: "u = Inr y" by (cases u) auto
          from sd_deployed_outcome [OF ch vals sd_release_effect(1) [OF s Inr] v3 u [unfolded y]] o3 ch vals
          show ?thesis using \<open>q = NoRequeue\<close> \<open>w' = w4\<close> by auto
        qed
      qed
    qed
  qed
qed

end

subsection \<open>The values of a network function\<close>

fun json_at :: "json \<Rightarrow> string list \<Rightarrow> json option" where
  "json_at j [] = Some j"
| "json_at (JObj ps) (k # ks) = (case map_of ps k of None \<Rightarrow> None | Some j \<Rightarrow> json_at j ks)"
| "json_at j (k # ks) = None"

text \<open>The address the specializer put on the first interface of a name that has one.\<close>

definition iface_addr :: "NFDeployment \<Rightarrow> string \<Rightarrow> int list \<Rightarrow> bool" where
  "iface_addr nfd name a \<longleftrightarrow> (\<exists>ic v n. find (\<lambda>ic. ic_Name ic = name \<and> ic_IPv4 ic \<noteq> None) (nfd_Interfaces nfd) = Some ic
     \<and> ic_IPv4 ic = Some v \<and> octets a \<and> 0 \<le> n \<and> n \<le> 32 \<and> ip4_Address v = dotted a @ CHR ''/'' # itoa n)"

lemma firstIfaceIPv4_addr: "iface_addr nfd name a \<Longrightarrow> firstIfaceIPv4 (nfd_Interfaces nfd) name = Inr (dotted a)"
  by (auto simp: iface_addr_def firstIfaceIPv4_def ParseCIDR_dotted)

lemma upf_values_addresses:
  assumes "iface_addr nfd ''n3'' a" and "iface_addr nfd ''n6'' b" and "buildValuesFromNFDeployment getenv ''upf'' nfd = Inr vals"
  shows "json_at vals [''config'', ''upf'', ''access'', ''ip''] = Some (JStr (dotted a @ ''/24''))"
    and "json_at vals [''config'', ''upf'', ''core'', ''ip''] = Some (JStr (dotted b @ ''/24''))"
    and "firstPool (nfd_NetworkInstances nfd) ''n6'' = p \<Longrightarrow> p \<noteq> '''' \<Longrightarrow> json_at vals [''config'', ''upf'', ''enb'', ''subnet''] = Some (JStr p)"
  using assms(3) by (auto simp: buildValuesFromNFDeployment_def firstIfaceIPv4_addr [OF assms(1)] firstIfaceIPv4_addr [OF assms(2)]
      upf_values_def upf_net_def Let_def)

locale nf_world = helm_world "nfr_Helm r" rel "nfr_Client r" view nfdGVK
  for r :: "('w, 'c) NFDeploymentReconciler" and rel :: "'w \<Rightarrow> string \<Rightarrow> string \<Rightarrow> ('c \<times> json \<times> int) option"
    and view :: "'w \<Rightarrow> ObjectKey \<Rightarrow> kobject option"
begin

lemma nf_reconcile:
  assumes obj: "view w (mk_key nfdGVK nsp name) = Some (KNFDeployment nfd)"
    and run: "run_state (NFDeployment_Reconcile r nsp name) w = ((q, None), w')"
    and comp: "providerToComponent (nfd_Provider nfd) = Some component"
  shows "(q = NoRequeue \<and> (\<exists>ch vals v. loadChart (nfr_Helm r) component = Inr ch \<and> buildValuesFromNFDeployment (nfr_Getenv r) component nfd = Inr vals
        \<and> rel w' nsp name = Some (ch, vals, v)) \<or> q = requeue_seconds 30)
    \<and> ((\<exists>e. buildValuesFromNFDeployment (nfr_Getenv r) component nfd = Inl e) \<or> (\<exists>e. loadChart (nfr_Helm r) component = Inl e) \<longrightarrow>
        q = requeue_seconds 30 \<and> rel w' = rel w)
    \<and> (\<forall>ns' n'. (ns', n') \<noteq> (nsp, name) \<longrightarrow> rel w' ns' n' = rel w ns' n')"
proof -
  let ?k = "mk_key nfdGVK nsp name"
  have nm: "om_Namespace (nfd_Meta nfd) = nsp" "om_Name (nfd_Meta nfd) = name"
    using view_key [OF obj] by (simp_all add: key_of_mk_key)
  obtain g w1 where g: "run_state (get_as (nfr_Client r) as_NFDeployment ?k) w = (g, w1)" by force
  from read_stored [OF g obj] run g have gr: "g = Inr nfd" by (auto simp: NFDeployment_Reconcile_def as_simps)
  have r1: "rel w1 = rel w" by (rule frameD [OF get_as_rel g])
  note run1 = run [unfolded NFDeployment_Reconcile_def, simplified, unfolded g gr, simplified, unfolded comp nm, simplified]
  show ?thesis
  proof (cases "\<exists>e. buildValuesFromNFDeployment (nfr_Getenv r) component nfd = Inl e \<or> loadChart (nfr_Helm r) component = Inl e")
    case True
    with run1 r1 show ?thesis by (auto split: sum.splits)
  next
    case False
    then obtain vals ch where vals: "buildValuesFromNFDeployment (nfr_Getenv r) component nfd = Inr vals"
      and ch: "loadChart (nfr_Helm r) component = Inr ch" by (meson sum.exhaust)
    obtain i w2 where i: "run_state (hInit (nfr_Helm r) nsp) w1 = (i, w2)" by force
    obtain e w3 where s: "run_state (nf_release (nfr_Helm r) nsp name ch vals) w2 = (e, w3)" by force
    obtain u w4 where u: "run_state (kStatusUpdate (nfr_Client r) (KNFDeployment (nf_deployed r nfd component))) w3 = (u, w4)" by force
    have r2: "rel w2 = rel w" using frameD [OF init_frame i] r1 by simp
    note o3 = nf_release_effect [OF s, unfolded r2]
    show ?thesis
      using run1 vals ch i s u frameD [OF status_rel u] o3 r2 by (cases i; cases e) auto
  qed
qed

end

section \<open>Helm in memory\<close>

record helm_lab = cluster +
  hm_releases :: "((string \<times> string) \<times> string \<times> json \<times> int) list"

definition lab_rel :: "helm_lab \<Rightarrow> string \<Rightarrow> string \<Rightarrow> (string \<times> json \<times> int) option" where
  "lab_rel w ns n = map_of (hm_releases w) (ns, n)"

definition lab_deploy :: "string \<Rightarrow> string \<Rightarrow> string \<Rightarrow> json \<Rightarrow> (helm_lab, error + int) io" where
  "lab_deploy ns n ch vals = State (\<lambda>w.
     let v = (case lab_rel w ns n of None \<Rightarrow> 1 | Some (c, j, k) \<Rightarrow> k + 1)
     in (Inr v, w\<lparr>hm_releases := ((ns, n), ch, vals, v) # hm_releases w\<rparr>))"

definition lab_helm :: "(helm_lab, string) helm" where
  "lab_helm = \<lparr>hInit = (\<lambda>ns. ret None),
     hHistory = (\<lambda>ns n. State (\<lambda>w. (if lab_rel w ns n = None then Some ErrReleaseNotFound else None, w))),
     hInstall = lab_deploy, hUpgrade = lab_deploy, LoadFiles = (\<lambda>fs. Inr (concat (map snd fs))),
     charts = (\<lambda>d. if d = ''charts/upf'' then Some (DirNode [(''Chart.yaml'', FileNode ''upf''), (''templates'', DirNode [(''a.yaml'', FileNode ''x'')])]) else None)\<rparr>"

lemma mem_releases [simp]:
  "frame lab_rel (mem_get k)" "frame lab_rel (mem_status x)"
  by (auto simp: frame_def mem_get_def mem_status_def lab_rel_def mem_write_def Let_def fun_eq_iff split: option.splits if_splits)

interpretation lab_helm: helm_world lab_helm lab_rel mem_client cl_view G for G
  by unfold_locales
    (auto simp: lab_helm_def frame_def lab_deploy_def lab_rel_def cl_view_def Let_def mem_client_def
      mem_releases [unfolded frame_def, rule_format] split: if_splits)

definition lab_sdcore :: "(helm_lab, string) SDCoreDeploymentReconciler" where
  "lab_sdcore = \<lparr>sdr_Client = mem_client, sdr_Env = quiet_env, sdr_Helm = lab_helm, sdr_Unmarshal = (\<lambda>s. Inl (ErrorString ''yaml''))\<rparr>"

definition lab_nf :: "(helm_lab, string) NFDeploymentReconciler" where
  "lab_nf = \<lparr>nfr_Client = mem_client, nfr_Env = quiet_env, nfr_Helm = lab_helm, nfr_Getenv = (\<lambda>k. '''')\<rparr>"

lemma lab_reconcilers [simp]:
  "sdr_Client lab_sdcore = mem_client" "sdr_Helm lab_sdcore = lab_helm" "sdr_Env lab_sdcore = quiet_env"
  "nfr_Client lab_nf = mem_client" "nfr_Helm lab_nf = lab_helm" "nfr_Getenv lab_nf = (\<lambda>k. '''')"
  by (simp_all add: lab_sdcore_def lab_nf_def)

interpretation lab_sd: sdcore_world lab_sdcore lab_rel cl_view
  by (intro sdcore_world.intro sdcore_world_axioms.intro)
    (simp_all add: lab_helm.helm_world_axioms quiet_env_def put_condition.status_conditions_axioms)

interpretation lab_nfd: nf_world lab_nf lab_rel cl_view
  by (intro nf_world.intro) (simp add: lab_helm.helm_world_axioms)

definition demo_sdcore :: SDCoreDeployment where
  "demo_sdcore = \<lparr>sd_Meta = named_meta ''default'' ''upf'', sd_Spec = \<lparr>sd_Component = ''upf'', sd_Values = None, sd_TargetNamespace = ''edge''\<rparr>,
     sd_Status = \<lparr>sds_Phase = '''', sds_Message = '''', sds_ReleaseRevision = 0, sds_ObservedGeneration = 0, sds_Conditions = []\<rparr>\<rparr>"

definition demo_nf :: NFDeployment where
  "demo_nf = \<lparr>nfd_Meta = named_meta ''default'' ''upf-edge'', nfd_Provider = ''upf.sdcore.io'',
     nfd_Interfaces = [\<lparr>ic_Name = ''n3'', ic_IPv4 = Some \<lparr>ip4_Address = dotted [10, 202, 0, 5] @ CHR ''/'' # itoa 24, ip4_Gateway = None\<rparr>\<rparr>,
       \<lparr>ic_Name = ''n6'', ic_IPv4 = Some \<lparr>ip4_Address = dotted [10, 203, 0, 5] @ CHR ''/'' # itoa 24, ip4_Gateway = None\<rparr>\<rparr>],
     nfd_NetworkInstances = [], nfd_Conditions = []\<rparr>"

definition demo_helm :: helm_lab where
  "demo_helm = \<lparr>cl_objects = [KSDCoreDeployment demo_sdcore, KNFDeployment demo_nf], cl_revision = 1, hm_releases = []\<rparr>"

lemma demo_helm_view:
  "cl_view demo_helm (mk_key (sdcoreGVK ''SDCoreDeployment'') ''default'' ''upf'') = Some (KSDCoreDeployment demo_sdcore)"
  "cl_view demo_helm (mk_key nfdGVK ''default'' ''upf-edge'') = Some (KNFDeployment demo_nf)"
  by (simp_all add: cl_view_def demo_helm_def demo_sdcore_def demo_nf_def key_of_def mk_key_def live_def named_meta_def sdcoreGVK_def nfdGVK_def)

lemma demo_chart: "loadChart lab_helm ''upf'' = Inr ''upfx''"
  by (simp add: loadChart_def componentToChart_def lab_helm_def)

section \<open>Properties\<close>


lemma demo_sdcore_runs: "fst (run_state (SDCoreDeployment_Reconcile lab_sdcore ''default'' ''upf'') demo_helm) = (NoRequeue, None)"
proof -
  have g: "run_state (get_as mem_client as_SDCoreDeployment (mk_key (sdcoreGVK ''SDCoreDeployment'') ''default'' ''upf'')) demo_helm
      = (Inr demo_sdcore, demo_helm)" by (simp add: get_as_def decode_as_def mem_client_def mem_get_def demo_helm_view)
  have s: "sd_Component (sd_Spec demo_sdcore) = ''upf''" "sd_values lab_sdcore demo_sdcore = Inr (JObj [])"
    "target_ns demo_sdcore = ''edge''" "om_Name (sd_Meta demo_sdcore) = ''upf''"
    by (simp_all add: demo_sdcore_def sd_values_def target_ns_def)
  have h: "run_state (sd_release lab_helm ''edge'' ''upf'' ch vals) demo_helm
      = (Inr 1, demo_helm\<lparr>hm_releases := [((''edge'', ''upf''), ch, vals, 1)]\<rparr>)" for ch vals
    by (simp add: sd_release_def lab_helm_def lab_deploy_def lab_rel_def demo_helm_def)
  have k: "key_of (KSDCoreDeployment (sd_deployed lab_sdcore demo_sdcore 1)) = mk_key (sdcoreGVK ''SDCoreDeployment'') ''default'' ''upf''"
    by (simp add: key_of_mk_key sd_deployed_def demo_sdcore_def)
  have v: "cl_view (demo_helm\<lparr>hm_releases := x\<rparr>) = cl_view demo_helm" for x by (simp add: cl_view_def fun_eq_iff)
  have m: "om_ResourceVersion (sd_Meta (sd_deployed lab_sdcore demo_sdcore 1)) = ''''"
    by (simp add: sd_deployed_def demo_sdcore_def named_meta_def)
  have u: "\<exists>y w'. run_state (mem_status (KSDCoreDeployment (sd_deployed lab_sdcore demo_sdcore 1))) (demo_helm\<lparr>hm_releases := x\<rparr>) = (Inr y, w')" for x
    by (simp add: mem_status_def k v demo_helm_view m Let_def)
  have i: "hInit lab_helm ns = ret None" for ns by (simp add: lab_helm_def)
  have c: "kStatusUpdate mem_client = mem_status" by (simp add: mem_client_def)
  show ?thesis
    using u [of "[((''edge'', ''upf''), ''upfx'', JObj [], 1)]"]
    by (auto simp: SDCoreDeployment_Reconcile_def g s demo_chart h i c)
qed


text \<open>C25. A reconcile of an NFDeployment of an SD-Core provider either leaves the release of its name with the chart of its
  component and the values built from its interfaces, or comes back in 30 seconds; when a needed interface is missing or
  its address does not parse, nothing is deployed, and no other release is ever touched. For a UPF the deployed values
  carry, for N3 and N6, exactly the addresses the interfaces were given, with the prefix length 24.\<close>

theorem NFDeployment_Reconcile_correct:
  assumes "nf_world r rel view" and "view w (mk_key nfdGVK nsp name) = Some (KNFDeployment nfd)"
    and "run_state (NFDeployment_Reconcile r nsp name) w = ((q, None), w')"
    and "providerToComponent (nfd_Provider nfd) = Some component"
  shows "(q = NoRequeue \<and> (\<exists>ch vals v. loadChart (nfr_Helm r) component = Inr ch \<and> buildValuesFromNFDeployment (nfr_Getenv r) component nfd = Inr vals
        \<and> rel w' nsp name = Some (ch, vals, v)
        \<and> (\<forall>a b. component = ''upf'' \<and> iface_addr nfd ''n3'' a \<and> iface_addr nfd ''n6'' b \<longrightarrow>
             json_at vals [''config'', ''upf'', ''access'', ''ip''] = Some (JStr (dotted a @ ''/24''))
             \<and> json_at vals [''config'', ''upf'', ''core'', ''ip''] = Some (JStr (dotted b @ ''/24''))))
      \<or> q = requeue_seconds 30)
    \<and> ((\<exists>e. buildValuesFromNFDeployment (nfr_Getenv r) component nfd = Inl e) \<or> (\<exists>e. loadChart (nfr_Helm r) component = Inl e) \<longrightarrow>
        q = requeue_seconds 30 \<and> rel w' = rel w)
    \<and> (\<forall>ns' n'. (ns', n') \<noteq> (nsp, name) \<longrightarrow> rel w' ns' n' = rel w ns' n')"
proof -
  note n = nf_world.nf_reconcile [OF assms]
  have "q = requeue_seconds 30 \<or> q = NoRequeue \<and> (\<exists>ch vals v. loadChart (nfr_Helm r) component = Inr ch
      \<and> buildValuesFromNFDeployment (nfr_Getenv r) component nfd = Inr vals \<and> rel w' nsp name = Some (ch, vals, v))"
    using n [THEN conjunct1] by blast
  moreover have "json_at vals [''config'', ''upf'', ''access'', ''ip''] = Some (JStr (dotted a @ ''/24''))
      \<and> json_at vals [''config'', ''upf'', ''core'', ''ip''] = Some (JStr (dotted b @ ''/24''))"
    if "buildValuesFromNFDeployment (nfr_Getenv r) component nfd = Inr vals" "component = ''upf'' \<and> iface_addr nfd ''n3'' a \<and> iface_addr nfd ''n6'' b"
    for vals a b using that upf_values_addresses(1,2) [of nfd a b "nfr_Getenv r" vals] by simp
  ultimately show ?thesis using n [THEN conjunct2] by (elim disjE) (simp_all, metis)
qed

lemma demo_nf_values: "\<exists>vals. buildValuesFromNFDeployment (\<lambda>k. '''') ''upf'' demo_nf = Inr vals" and
  demo_nf_addrs: "iface_addr demo_nf ''n3'' [10, 202, 0, 5]" "iface_addr demo_nf ''n6'' [10, 203, 0, 5]"
proof -
  show a: "iface_addr demo_nf ''n3'' [10, 202, 0, 5]"
    by (simp add: iface_addr_def demo_nf_def octets_def del: dotted.simps) (intro exI [of _ 24], simp)
  show b: "iface_addr demo_nf ''n6'' [10, 203, 0, 5]"
    by (simp add: iface_addr_def demo_nf_def octets_def del: dotted.simps) (intro exI [of _ 24], simp)
  show "\<exists>vals. buildValuesFromNFDeployment (\<lambda>k. '''') ''upf'' demo_nf = Inr vals"
    by (simp add: buildValuesFromNFDeployment_def firstIfaceIPv4_addr [OF a] firstIfaceIPv4_addr [OF b])
qed

lemma demo_nf_runs: "fst (run_state (NFDeployment_Reconcile lab_nf ''default'' ''upf-edge'') demo_helm) = (NoRequeue, None)"
proof -
  obtain vals where b: "buildValuesFromNFDeployment (\<lambda>k. '''') ''upf'' demo_nf = Inr vals" using demo_nf_values by blast
  have g: "run_state (get_as mem_client as_NFDeployment (mk_key nfdGVK ''default'' ''upf-edge'')) demo_helm = (Inr demo_nf, demo_helm)"
    by (simp add: get_as_def decode_as_def mem_client_def mem_get_def demo_helm_view)
  have s: "providerToComponent (nfd_Provider demo_nf) = Some ''upf''" "om_Namespace (nfd_Meta demo_nf) = ''default''" "om_Name (nfd_Meta demo_nf) = ''upf-edge''"
    by (simp_all add: demo_nf_def providerToComponent_def HasPrefix_def)
  have h: "\<exists>w'. run_state (nf_release lab_helm ns n ch vals) demo_helm = (None, w')" for ns n ch vals
    by (simp add: nf_release_def lab_helm_def lab_deploy_def lab_rel_def demo_helm_def)
  have i: "hInit lab_helm ns = ret None" for ns by (simp add: lab_helm_def)
  obtain w' where n: "run_state (nf_release lab_helm ''default'' ''upf-edge'' ''upfx'' vals) demo_helm = (None, w')" using h by blast
  show ?thesis by (auto simp: NFDeployment_Reconcile_def g s b demo_chart i n split: prod.splits)
qed

theorem NFDeployment_Reconcile_correct_witness:
  "\<exists>w' ch vals v. run_state (NFDeployment_Reconcile lab_nf ''default'' ''upf-edge'') demo_helm = ((NoRequeue, None), w')
     \<and> lab_rel w' ''default'' ''upf-edge'' = Some (ch, vals, v)
     \<and> json_at vals [''config'', ''upf'', ''access'', ''ip''] = Some (JStr (dotted [10, 202, 0, 5] @ ''/24''))"
proof -
  obtain w' where run: "run_state (NFDeployment_Reconcile lab_nf ''default'' ''upf-edge'') demo_helm = ((NoRequeue, None), w')"
    using demo_nf_runs by (metis prod.collapse)
  have p: "providerToComponent (nfd_Provider demo_nf) = Some ''upf''" by (simp add: demo_nf_def providerToComponent_def HasPrefix_def)
  have "NoRequeue \<noteq> requeue_seconds 30" by (simp add: NoRequeue_def requeue_seconds_def Seconds_def)
  with NFDeployment_Reconcile_correct [OF lab_nfd.nf_world_axioms demo_helm_view(2) run p, THEN conjunct1]
  obtain ch vals v where "lab_rel w' ''default'' ''upf-edge'' = Some (ch, vals, v)"
    and "\<forall>a b. ''upf'' = ''upf'' \<and> iface_addr demo_nf ''n3'' a \<and> iface_addr demo_nf ''n6'' b \<longrightarrow>
      json_at vals [''config'', ''upf'', ''access'', ''ip''] = Some (JStr (dotted a @ ''/24''))
      \<and> json_at vals [''config'', ''upf'', ''core'', ''ip''] = Some (JStr (dotted b @ ''/24''))" by blast
  moreover from this(2) [rule_format, of "[10, 202, 0, 5]" "[10, 203, 0, 5]"] demo_nf_addrs
  have "json_at vals [''config'', ''upf'', ''access'', ''ip''] = Some (JStr (dotted [10, 202, 0, 5] @ ''/24''))" by (simp del: dotted.simps json_at.simps)
  ultimately show ?thesis using run by (intro exI conjI)
qed

end
