(* ===== verification/Go_Memory.thy ===== *)
theory Go_Memory
  imports Prelude
begin

text \<open>
  Go values that hold pointers, on an explicit memory. Everywhere else in the development a Go struct is a
  record and sharing is invisible; the deep copies of the API types are about nothing but sharing, so here a
  pointer, a slice and a map are addresses of cells. A type is described by a term of \<open>ty\<close>, and
  \<open>view m t v\<close> reads the value \<open>v\<close> of type \<open>t\<close> in the memory \<open>m\<close>: the tree it stands
  for, and the addresses it occupies. The theory has the statement forms generated copy functions consist of,
  and for each the rule that it copies deeply.
\<close>

section \<open>Values, cells, types\<close>

type_synonym addr = nat

datatype val =
    VStr string
  | VInt int
  | VBool bool
  | VNil
  | VRef addr
  | VStruct "(string \<times> val) list"

text \<open>What an address holds: a variable, the elements of a slice, the entries of a map (no key twice).\<close>

datatype cell = Obj val | Arr "val list" | Entries "(string \<times> val) list"

type_synonym mem = "cell list"

type_synonym copy = "val \<Rightarrow> (mem, val) io"

datatype ty =
    TStr
  | TInt
  | TBool
  | TPtr ty
  | TSlice ty
  | TMap ty
  | TStruct "(string \<times> ty) list"

text \<open>The zero value of a type.\<close>

fun zero_value :: "ty \<Rightarrow> val" where
  "zero_value TStr = VStr []"
| "zero_value TInt = VInt 0"
| "zero_value TBool = VBool False"
| "zero_value (TStruct ts) = VStruct (map (\<lambda>(n, t). (n, zero_value t)) ts)"
| "zero_value _ = VNil"

text \<open>A type whose values hold no address: assignment copies them.\<close>

fun flat :: "ty \<Rightarrow> bool" where
  "flat (TPtr t) = False"
| "flat (TSlice t) = False"
| "flat (TMap t) = False"
| "flat (TStruct ts) = (\<forall>(n, t) \<in> set ts. flat t)"
| "flat _ = True"

section \<open>Reading a value\<close>

text \<open>A value without its addresses.\<close>

datatype tree =
    AStr string
  | AInt int
  | ABool bool
  | ANil
  | APtr tree
  | ASlice "tree list"
  | AMap "(string \<times> tree) list"
  | AStruct "(string \<times> tree) list"

definition cell_at :: "mem \<Rightarrow> addr \<Rightarrow> cell option" where
  "cell_at m a = (if a < length m then Some (m ! a) else None)"

definition both :: "('a \<Rightarrow> 'b \<Rightarrow> 'c) \<Rightarrow> ('a \<times> addr list) option \<Rightarrow> ('b \<times> addr list) option \<Rightarrow> ('c \<times> addr list) option" where
  "both f p q = (case (p, q) of (Some (x, as), Some (y, bs)) \<Rightarrow> Some (f x y, as @ bs) | _ \<Rightarrow> None)"

lemma both_Some_iff [simp]:
  "both f p q = Some (z, cs) \<longleftrightarrow> (\<exists>x y as bs. p = Some (x, as) \<and> q = Some (y, bs) \<and> z = f x y \<and> cs = as @ bs)"
  by (auto simp: both_def split: option.splits)

definition under :: "('a \<Rightarrow> 'b) \<Rightarrow> addr list \<Rightarrow> ('a \<times> addr list) option \<Rightarrow> ('b \<times> addr list) option" where
  "under f a p = map_option (\<lambda>(x, as). (f x, a @ as)) p"

lemma under_Some_iff [simp]:
  "under f a p = Some (z, cs) \<longleftrightarrow> (\<exists>x as. p = Some (x, as) \<and> z = f x \<and> cs = a @ as)"
  by (auto simp: under_def)

function view :: "mem \<Rightarrow> ty \<Rightarrow> val \<Rightarrow> (tree \<times> addr list) option"
  and views :: "mem \<Rightarrow> ty \<Rightarrow> val list \<Rightarrow> (tree list \<times> addr list) option"
  and view_entries :: "mem \<Rightarrow> ty \<Rightarrow> (string \<times> val) list \<Rightarrow> ((string \<times> tree) list \<times> addr list) option"
  and view_fields :: "mem \<Rightarrow> (string \<times> ty) list \<Rightarrow> (string \<times> val) list \<Rightarrow> ((string \<times> tree) list \<times> addr list) option"
where
  "view m TStr v = (case v of VStr s \<Rightarrow> Some (AStr s, []) | _ \<Rightarrow> None)"
| "view m TInt v = (case v of VInt i \<Rightarrow> Some (AInt i, []) | _ \<Rightarrow> None)"
| "view m TBool v = (case v of VBool b \<Rightarrow> Some (ABool b, []) | _ \<Rightarrow> None)"
| "view m (TPtr t) v = (case v of VNil \<Rightarrow> Some (ANil, [])
     | VRef a \<Rightarrow> (case cell_at m a of Some (Obj x) \<Rightarrow> under APtr [a] (view m t x) | _ \<Rightarrow> None)
     | _ \<Rightarrow> None)"
| "view m (TSlice t) v = (case v of VNil \<Rightarrow> Some (ANil, [])
     | VRef a \<Rightarrow> (case cell_at m a of Some (Arr xs) \<Rightarrow> under ASlice [a] (views m t xs) | _ \<Rightarrow> None)
     | _ \<Rightarrow> None)"
| "view m (TMap t) v = (case v of VNil \<Rightarrow> Some (ANil, [])
     | VRef a \<Rightarrow> (case cell_at m a of Some (Entries es) \<Rightarrow> (if distinct (map fst es) then under AMap [a] (view_entries m t es) else None) | _ \<Rightarrow> None)
     | _ \<Rightarrow> None)"
| "view m (TStruct ts) v = (case v of VStruct fs \<Rightarrow> under AStruct [] (view_fields m ts fs) | _ \<Rightarrow> None)"
| "views m t [] = Some ([], [])"
| "views m t (v # vs) = both Cons (view m t v) (views m t vs)"
| "view_entries m t [] = Some ([], [])"
| "view_entries m t ((k, v) # es) = both (\<lambda>x. Cons (k, x)) (view m t v) (view_entries m t es)"
| "view_fields m [] fs = (if fs = [] then Some ([], []) else None)"
| "view_fields m ((n, t) # ts) fs = (case fs of (k, v) # fs' \<Rightarrow>
     (if k = n then both (\<lambda>x. Cons (n, x)) (view m t v) (view_fields m ts fs') else None) | [] \<Rightarrow> None)"
  by pat_completeness auto
termination
  by (relation "measures [\<lambda>x. case x of Inl (Inl (m, t, v)) \<Rightarrow> size t | Inl (Inr (m, t, vs)) \<Rightarrow> size t
        | Inr (Inl (m, t, es)) \<Rightarrow> size t | Inr (Inr (m, ts, fs)) \<Rightarrow> size_list (size_prod (\<lambda>x. 0) size) ts,
      \<lambda>x. case x of Inl (Inl _) \<Rightarrow> 0 | Inl (Inr (m, t, vs)) \<Rightarrow> Suc (length vs)
        | Inr (Inl (m, t, es)) \<Rightarrow> Suc (length es) | Inr (Inr (m, ts, fs)) \<Rightarrow> 0]") auto

text \<open>What a value is depends on the cells it occupies and on no other.\<close>

lemma view_local:
  "view m t v = Some (x, as) \<Longrightarrow> \<forall>a \<in> set as. cell_at m' a = cell_at m a \<Longrightarrow> view m' t v = Some (x, as)"
  "views m t vs = Some (xs, as) \<Longrightarrow> \<forall>a \<in> set as. cell_at m' a = cell_at m a \<Longrightarrow> views m' t vs = Some (xs, as)"
  "view_entries m t es = Some (ys, as) \<Longrightarrow> \<forall>a \<in> set as. cell_at m' a = cell_at m a \<Longrightarrow>
     view_entries m' t es = Some (ys, as)"
  "view_fields m ts fs = Some (ys, as) \<Longrightarrow> \<forall>a \<in> set as. cell_at m' a = cell_at m a \<Longrightarrow>
     view_fields m' ts fs = Some (ys, as)"
proof (induction m t v and m t vs and m t es and m ts fs arbitrary: x as and xs as and ys as and ys as
    rule: view_views_view_entries_view_fields.induct)
qed (fastforce split: val.splits option.splits cell.splits list.splits if_splits)+

lemma view_allocated:
  "view m t v = Some (x, as) \<Longrightarrow> set as \<subseteq> {..<length m}"
  "views m t vs = Some (xs, as) \<Longrightarrow> set as \<subseteq> {..<length m}"
  "view_entries m t es = Some (ys, as) \<Longrightarrow> set as \<subseteq> {..<length m}"
  "view_fields m ts fs = Some (ys, as) \<Longrightarrow> set as \<subseteq> {..<length m}"
proof (induction m t v and m t vs and m t es and m ts fs arbitrary: x as and xs as and ys as and ys as
    rule: view_views_view_entries_view_fields.induct)
qed (fastforce simp: cell_at_def split: val.splits option.splits cell.splits list.splits if_splits)+

lemma view_flat:
  "view m t v = Some (x, as) \<Longrightarrow> flat t \<Longrightarrow> as = []"
  "views m t vs = Some (xs, as) \<Longrightarrow> flat t \<Longrightarrow> as = []"
  "view_entries m t es = Some (ys, as) \<Longrightarrow> flat t \<Longrightarrow> as = []"
  "view_fields m ts fs = Some (ys, as) \<Longrightarrow> \<forall>(n, t) \<in> set ts. flat t \<Longrightarrow> as = []"
proof (induction m t v and m t vs and m t es and m ts fs arbitrary: x as and xs as and ys as and ys as
    rule: view_views_view_entries_view_fields.induct)
qed (fastforce split: val.splits option.splits cell.splits list.splits if_splits)+

lemma cell_at_append [simp]: "a < length m \<Longrightarrow> cell_at (m @ e) a = cell_at m a"
  by (simp add: cell_at_def nth_append)

lemma cell_at_update [simp]: "a \<noteq> b \<Longrightarrow> cell_at (m[b := c]) a = cell_at m a"
  by (simp add: cell_at_def)

lemma view_append: "view m t v = Some (x, as) \<Longrightarrow> view (m @ e) t v = Some (x, as)"
  using view_local(1) [of m t v x as "m @ e"] view_allocated(1) [of m t v x as] by fastforce

lemma view_update: "view m t v = Some (x, as) \<Longrightarrow> b \<notin> set as \<Longrightarrow> view (m[b := c]) t v = Some (x, as)"
  using view_local(1) [of m t v x as "m[b := c]"] by (metis cell_at_update)

lemma views_append: "views m t vs = Some (xs, as) \<Longrightarrow> views (m @ e) t vs = Some (xs, as)"
  using view_local(2) [of m t vs xs as "m @ e"] view_allocated(2) [of m t vs xs as] by fastforce

lemma views_update: "views m t vs = Some (xs, as) \<Longrightarrow> b \<notin> set as \<Longrightarrow> views (m[b := c]) t vs = Some (xs, as)"
  using view_local(2) [of m t vs xs as "m[b := c]"] by (metis cell_at_update)

lemma views_length: "views m t vs = Some (xs, as) \<Longrightarrow> length xs = length vs"
  by (induction vs arbitrary: xs as) auto

lemma views_nth: "views m t vs = Some (xs, as) \<Longrightarrow> i < length vs \<Longrightarrow> \<exists>bs. view m t (vs ! i) = Some (xs ! i, bs)"
  by (induction vs arbitrary: xs as i) (auto simp: nth_Cons split: nat.splits)

lemma views_snoc:
  "views m t vs = Some (xs, as) \<Longrightarrow> view m t v = Some (x, bs) \<Longrightarrow> views m t (vs @ [v]) = Some (xs @ [x], as @ bs)"
  by (induction vs arbitrary: xs as) auto

section \<open>Statements of a copy function\<close>

text \<open>Allocation, reading and writing. Go has no address off the memory, so what a read there gives is of no matter.\<close>

definition alloc :: "cell \<Rightarrow> (mem, addr) io" where
  "alloc c = State (\<lambda>m. (length m, m @ [c]))"

definition load :: "val \<Rightarrow> (mem, val) io" where
  "load p = State (\<lambda>m. (case p of VRef a \<Rightarrow> (case cell_at m a of Some (Obj v) \<Rightarrow> v | _ \<Rightarrow> VNil) | _ \<Rightarrow> VNil, m))"

definition elements :: "val \<Rightarrow> (mem, val list) io" where
  "elements p = State (\<lambda>m. (case p of VRef a \<Rightarrow> (case cell_at m a of Some (Arr vs) \<Rightarrow> vs | _ \<Rightarrow> []) | _ \<Rightarrow> [], m))"

definition map_entries :: "val \<Rightarrow> (mem, (string \<times> val) list) io" where
  "map_entries p = State (\<lambda>m. (case p of VRef a \<Rightarrow> (case cell_at m a of Some (Entries es) \<Rightarrow> es | _ \<Rightarrow> []) | _ \<Rightarrow> [], m))"

definition store :: "addr \<Rightarrow> cell \<Rightarrow> (mem, unit) io" where
  "store a c = State (\<lambda>m. ((), m[a := c]))"

definition set_element :: "addr \<Rightarrow> nat \<Rightarrow> val \<Rightarrow> (mem, unit) io" where
  "set_element a i v = State (\<lambda>m. ((), case cell_at m a of Some (Arr vs) \<Rightarrow> m[a := Arr (vs[i := v])] | _ \<Rightarrow> m))"

definition set_entry :: "addr \<Rightarrow> string \<Rightarrow> val \<Rightarrow> (mem, unit) io" where
  "set_entry a k v = State (\<lambda>m. ((), case cell_at m a of Some (Entries es) \<Rightarrow> m[a := Entries (upsert k v es)] | _ \<Rightarrow> m))"

text \<open>
  The forms of the statement that fills one field of \<open>*out\<close>, as functions from the field of \<open>*in\<close>:
  \<open>out.F = in.F\<close> (also \<open>in.F.DeepCopyInto(&out.F)\<close> is the function itself), and under
  \<open>if in.F != nil\<close>, \<open>*out = new(T); (*in).DeepCopyInto(*out)\<close> (with \<open>**out = **in\<close> when the
  function is \<open>assign\<close>), \<open>*out = make([]T, len(*in))\<close> followed by a loop of \<open>DeepCopyInto\<close> or by
  \<open>copy(*out, *in)\<close>, and \<open>*out = make(map[string]T, len(*in))\<close> with its loop over the entries.
\<close>

definition assign :: copy where
  "assign v = ret v"

definition new_into :: "ty \<Rightarrow> copy \<Rightarrow> copy" where
  "new_into t f p = (if p = VNil then ret p else do {
     a \<leftarrow> alloc (Obj (zero_value t));
     x \<leftarrow> load p;
     y \<leftarrow> f x;
     u \<leftarrow> store a (Obj y);
     ret (VRef a) })"

definition make_into :: "ty \<Rightarrow> copy \<Rightarrow> copy" where
  "make_into t f p = (if p = VNil then ret p else do {
     xs \<leftarrow> elements p;
     a \<leftarrow> alloc (Arr (replicate (length xs) (zero_value t)));
     u \<leftarrow> for_each (\<lambda>i. do { ys \<leftarrow> elements p; y \<leftarrow> f (ys ! i); set_element a i y }) [0..<length xs];
     ret (VRef a) })"

definition make_copy :: "ty \<Rightarrow> copy" where
  "make_copy t p = (if p = VNil then ret p else do {
     xs \<leftarrow> elements p;
     a \<leftarrow> alloc (Arr (replicate (length xs) (zero_value t)));
     ys \<leftarrow> elements p;
     u \<leftarrow> store a (Arr ys);
     ret (VRef a) })"

definition make_map :: copy where
  "make_map p = (if p = VNil then ret p else do {
     a \<leftarrow> alloc (Entries []);
     es \<leftarrow> map_entries p;
     u \<leftarrow> for_each (\<lambda>(k, x). set_entry a k x) es;
     ret (VRef a) })"

text \<open>The fields of a struct, and the body \<open>*out = *in\<close> followed by one statement per field it names.\<close>

fun field :: "string \<Rightarrow> val \<Rightarrow> val" where
  "field n (VStruct fs) = (case map_of fs n of Some x \<Rightarrow> x | None \<Rightarrow> VNil)"
| "field n v = VNil"

fun set_field :: "string \<Rightarrow> val \<Rightarrow> val \<Rightarrow> val" where
  "set_field n x (VStruct fs) = VStruct (map (\<lambda>(k, y). (k, if k = n then x else y)) fs)"
| "set_field n x v = v"

fun copy_fields :: "(string \<times> copy) list \<Rightarrow> val \<Rightarrow> val \<Rightarrow> (mem, val) io" where
  "copy_fields [] inp out = ret out"
| "copy_fields ((n, k) # ss) inp out = do { x \<leftarrow> k (field n inp); copy_fields ss inp (set_field n x out) }"

definition copy_struct :: "(string \<times> copy) list \<Rightarrow> copy" where
  "copy_struct ss inp = copy_fields ss inp inp"

text \<open>\<open>DeepCopy\<close> of a type with the given \<open>DeepCopyInto\<close>, and \<open>DeepCopyObject\<close>.\<close>

definition DeepCopy_of :: "ty \<Rightarrow> copy \<Rightarrow> copy" where
  "DeepCopy_of t into p = (if p = VNil then ret VNil else do {
     out \<leftarrow> alloc (Obj (zero_value t));
     x \<leftarrow> load p;
     y \<leftarrow> into x;
     u \<leftarrow> store out (Obj y);
     ret (VRef out) })"

definition DeepCopyObject_of :: "copy \<Rightarrow> copy" where
  "DeepCopyObject_of DeepCopy p = do { c \<leftarrow> DeepCopy p; if c \<noteq> VNil then ret c else ret VNil }"

section \<open>What a deep copy is\<close>

text \<open>
  Whatever value of the type it is given, the copy function adds cells to the memory and changes none, and
  returns a value that stands for the same tree and occupies only added cells, each once.
\<close>

definition copies :: "ty \<Rightarrow> copy \<Rightarrow> bool" where
  "copies t k \<longleftrightarrow> (\<forall>m v x as. view m t v = Some (x, as) \<longrightarrow>
     (\<exists>v' e bs. run_state (k v) m = (v', m @ e) \<and> view (m @ e) t v' = Some (x, bs)
        \<and> distinct bs \<and> set bs \<subseteq> {length m ..< length m + length e}))"

lemma copiesI:
  assumes "\<And>m v x as. view m t v = Some (x, as) \<Longrightarrow> \<exists>v' e bs. run_state (k v) m = (v', m @ e)
     \<and> view (m @ e) t v' = Some (x, bs) \<and> distinct bs \<and> set bs \<subseteq> {length m ..< length m + length e}"
  shows "copies t k"
  using assms by (simp add: copies_def)

lemma copiesE:
  assumes "copies t k" and "view m t v = Some (x, as)"
  obtains v' e bs where "run_state (k v) m = (v', m @ e)" and "view (m @ e) t v' = Some (x, bs)"
    and "distinct bs" and "set bs \<subseteq> {length m ..< length m + length e}"
  using assms unfolding copies_def by blast

lemma copies_assign: "flat t \<Longrightarrow> copies t assign"
proof (rule copiesI)
  fix m v x as
  assume "flat t" and v: "view m t v = Some (x, as)"
  with view_flat(1) have "as = []" by blast
  with v show "\<exists>v' e bs. run_state (assign v) m = (v', m @ e) \<and> view (m @ e) t v' = Some (x, bs)
     \<and> distinct bs \<and> set bs \<subseteq> {length m ..< length m + length e}"
    by (intro exI [of _ v] exI [of _ "[]"]) (simp add: assign_def)
qed

lemma copies_new_into:
  assumes "copies t f"
  shows "copies (TPtr t) (new_into t f)"
proof (rule copiesI)
  fix m p x as
  assume v: "view m (TPtr t) p = Some (x, as)"
  show "\<exists>v' e bs. run_state (new_into t f p) m = (v', m @ e) \<and> view (m @ e) (TPtr t) v' = Some (x, bs)
     \<and> distinct bs \<and> set bs \<subseteq> {length m ..< length m + length e}"
  proof (cases "p = VNil")
    case True
    with v show ?thesis by (intro exI [of _ VNil] exI [of _ "[]"]) (simp add: new_into_def)
  next
    case False
    with v obtain a y z bs where p: "p = VRef a" "cell_at m a = Some (Obj y)" and y: "view m t y = Some (z, bs)" and x: "x = APtr z"
      by (auto split: val.splits option.splits cell.splits)
    let ?m = "m @ [Obj (zero_value t)]"
    from y have "view ?m t y = Some (z, bs)" by (rule view_append)
    with assms obtain y' e cs where r: "run_state (f y) ?m = (y', ?m @ e)" and y': "view (?m @ e) t y' = Some (z, cs)"
      and cs: "distinct cs" "set cs \<subseteq> {length ?m ..< length ?m + length e}" by (rule copiesE)
    let ?e = "Obj y' # e"
    have m': "(?m @ e)[length m := Obj y'] = m @ ?e" by simp
    have "view (m @ ?e) t y' = Some (z, cs)"
      using view_update [OF y', of "length m" "Obj y'"] cs(2) m' by fastforce
    moreover have "cell_at (m @ ?e) (length m) = Some (Obj y')" by (simp add: cell_at_def)
    ultimately have "view (m @ ?e) (TPtr t) (VRef (length m)) = Some (x, length m # cs)" using x by simp
    moreover have "run_state (new_into t f p) m = (VRef (length m), m @ ?e)"
      using p r m' by (simp add: new_into_def alloc_def load_def store_def cell_at_def nth_append split: if_splits)
    ultimately show ?thesis using cs by (intro exI conjI) (assumption, assumption, auto)
  qed
qed

lemma make_loop:
  assumes f: "copies t f" and a: "cell_at m a = Some (Arr xs)" and xs: "views m t xs = Some (zs, as)"
    and n: "i \<le> length xs" "length ws = length xs"
    and done_: "views (m @ Arr ws # e) t (take i ws) = Some (take i zs, bs)" "distinct bs"
      "set bs \<subseteq> {Suc (length m) ..< Suc (length m) + length e}"
  shows "\<exists>ws' e' bs'. run_state (for_each (\<lambda>i. do { ys \<leftarrow> elements (VRef a); y \<leftarrow> f (ys ! i); set_element (length m) i y })
           [i..<length xs]) (m @ Arr ws # e) = ((), m @ Arr ws' # e')
     \<and> length ws' = length xs \<and> views (m @ Arr ws' # e') t ws' = Some (zs, bs') \<and> distinct bs'
     \<and> set bs' \<subseteq> {Suc (length m) ..< Suc (length m) + length e'}"
  using n done_
proof (induction "length xs - i" arbitrary: i ws e bs)
  case 0
  then show ?case using views_length [OF xs] by auto
next
  case (Suc d)
  let ?M = "m @ Arr ws # e"
  from Suc.hyps(2) have i: "i < length xs" by simp
  from a have al: "a < length m" by (simp add: cell_at_def split: if_splits)
  obtain cs where "view m t (xs ! i) = Some (zs ! i, cs)" using views_nth [OF xs i] by blast
  then have "view ?M t (xs ! i) = Some (zs ! i, cs)" by (rule view_append)
  with f obtain y g ds where y: "run_state (f (xs ! i)) ?M = (y, ?M @ g)" and vy: "view (?M @ g) t y = Some (zs ! i, ds)"
    and ds: "distinct ds" "set ds \<subseteq> {length ?M ..< length ?M + length g}" by (rule copiesE)
  let ?w = "ws[i := y]" and ?N = "m @ Arr (ws[i := y]) # (e @ g)"
  have N: "(?M @ g)[length m := Arr ?w] = ?N" by simp
  have "views ?N t (take i ws) = Some (take i zs, bs)"
    using views_update [OF views_append [OF Suc.prems(3), of g], of "length m" "Arr ?w"] Suc.prems(5) N by fastforce
  moreover have "view ?N t y = Some (zs ! i, ds)"
    using view_update [OF vy, of "length m" "Arr ?w"] ds(2) N by fastforce
  moreover have "take (Suc i) ?w = take i ws @ [y]" using i Suc.prems(2) by (simp add: take_Suc_conv_app_nth)
  moreover have "take (Suc i) zs = take i zs @ [zs ! i]" using i views_length [OF xs] by (simp add: take_Suc_conv_app_nth)
  ultimately have "views ?N t (take (Suc i) ?w) = Some (take (Suc i) zs, bs @ ds)" by (metis views_snoc)
  moreover have "distinct (bs @ ds)" "set (bs @ ds) \<subseteq> {Suc (length m) ..< Suc (length m) + length (e @ g)}"
    using Suc.prems(4,5) ds by fastforce+
  ultimately have "\<exists>ws' e' bs'. run_state (for_each (\<lambda>i. do { ys \<leftarrow> elements (VRef a); y \<leftarrow> f (ys ! i);
       set_element (length m) i y }) [Suc i..<length xs]) ?N = ((), m @ Arr ws' # e')
     \<and> length ws' = length xs \<and> views (m @ Arr ws' # e') t ws' = Some (zs, bs') \<and> distinct bs'
     \<and> set bs' \<subseteq> {Suc (length m) ..< Suc (length m) + length e'}"
    using Suc.hyps(2) i Suc.prems(2) by (intro Suc.hyps(1) [where bs = "bs @ ds"]) (assumption | simp | arith)+
  then obtain ws' e' bs' where IH: "run_state (for_each (\<lambda>i. do { ys \<leftarrow> elements (VRef a); y \<leftarrow> f (ys ! i);
       set_element (length m) i y }) [Suc i..<length xs]) ?N = ((), m @ Arr ws' # e')"
    "length ws' = length xs" "views (m @ Arr ws' # e') t ws' = Some (zs, bs')" "distinct bs'"
    "set bs' \<subseteq> {Suc (length m) ..< Suc (length m) + length e'}" by blast
  have "run_state (elements (VRef a)) ?M = (xs, ?M)" using a al by (simp add: elements_def)
  moreover have "run_state (set_element (length m) i y) (?M @ g) = ((), ?N)"
    by (simp add: set_element_def cell_at_def)
  ultimately have "run_state (for_each (\<lambda>i. do { ys \<leftarrow> elements (VRef a); y \<leftarrow> f (ys ! i); set_element (length m) i y })
       [i..<length xs]) ?M = ((), m @ Arr ws' # e')"
    using IH(1) y by (simp add: upt_conv_Cons [OF i])
  with IH(2-) show ?case by blast
qed

lemma copies_make_into:
  assumes "copies t f"
  shows "copies (TSlice t) (make_into t f)"
proof (rule copiesI)
  fix m p x as
  assume v: "view m (TSlice t) p = Some (x, as)"
  show "\<exists>v' e bs. run_state (make_into t f p) m = (v', m @ e) \<and> view (m @ e) (TSlice t) v' = Some (x, bs)
     \<and> distinct bs \<and> set bs \<subseteq> {length m ..< length m + length e}"
  proof (cases "p = VNil")
    case True
    with v show ?thesis by (intro exI [of _ VNil] exI [of _ "[]"]) (simp add: make_into_def)
  next
    case False
    with v obtain a xs zs bs where p: "p = VRef a" "cell_at m a = Some (Arr xs)" and xs: "views m t xs = Some (zs, bs)" and x: "x = ASlice zs"
      by (auto split: val.splits option.splits cell.splits)
    let ?z = "replicate (length xs) (zero_value t)"
    obtain ws e cs where r: "run_state (for_each (\<lambda>i. do { ys \<leftarrow> elements (VRef a); y \<leftarrow> f (ys ! i); set_element (length m) i y })
         [0..<length xs]) (m @ [Arr ?z]) = ((), m @ Arr ws # e)"
      and w: "views (m @ Arr ws # e) t ws = Some (zs, cs)" "distinct cs" "set cs \<subseteq> {Suc (length m) ..< Suc (length m) + length e}"
      using make_loop [OF assms p(2) xs, of 0 ?z "[]" "[]"] by auto
    have "view (m @ Arr ws # e) (TSlice t) (VRef (length m)) = Some (x, length m # cs)"
      using w(1) x by (simp add: cell_at_def)
    moreover have "run_state (make_into t f p) m = (VRef (length m), m @ Arr ws # e)"
      using p r by (simp add: make_into_def alloc_def elements_def)
    ultimately show ?thesis using w(2,3) by (intro exI conjI) (assumption, assumption, auto)
  qed
qed

lemma copies_make_copy:
  assumes "flat t"
  shows "copies (TSlice t) (make_copy t)"
proof (rule copiesI)
  fix m p x as
  assume v: "view m (TSlice t) p = Some (x, as)"
  show "\<exists>v' e bs. run_state (make_copy t p) m = (v', m @ e) \<and> view (m @ e) (TSlice t) v' = Some (x, bs)
     \<and> distinct bs \<and> set bs \<subseteq> {length m ..< length m + length e}"
  proof (cases "p = VNil")
    case True
    with v show ?thesis by (intro exI [of _ VNil] exI [of _ "[]"]) (simp add: make_copy_def)
  next
    case False
    with v obtain a xs zs bs where p: "p = VRef a" "cell_at m a = Some (Arr xs)" and xs: "views m t xs = Some (zs, bs)" and x: "x = ASlice zs"
      by (auto split: val.splits option.splits cell.splits)
    from xs assms have "bs = []" by (rule view_flat(2))
    with xs x have "view (m @ [Arr xs]) (TSlice t) (VRef (length m)) = Some (x, [length m])"
      using views_append [OF xs, of "[Arr xs]"] by (simp add: cell_at_def)
    moreover from p have "a < length m" by (simp add: cell_at_def split: if_splits)
    then have "run_state (make_copy t p) m = (VRef (length m), m @ [Arr xs])"
      using p by (simp add: make_copy_def alloc_def elements_def store_def)
    ultimately show ?thesis by (intro exI conjI) (assumption, assumption, auto)
  qed
qed

lemma upsert_new: "k \<notin> fst ` set es \<Longrightarrow> upsert k v es = es @ [(k, v)]"
  by (induction es) auto

lemma set_entry_loop:
  "distinct (map fst (ds @ es)) \<Longrightarrow>
   run_state (for_each (\<lambda>(k, x). set_entry (length m) k x) es) (m @ [Entries ds]) = ((), m @ [Entries (ds @ es)])"
proof (induction es arbitrary: ds)
  case (Cons e es)
  obtain k x where e: "e = (k, x)" by force
  with Cons.prems have "k \<notin> fst ` set ds" by auto
  then have "run_state (set_entry (length m) k x) (m @ [Entries ds]) = ((), m @ [Entries (ds @ [e])])"
    by (simp add: set_entry_def cell_at_def upsert_new e)
  with Cons.IH [of "ds @ [e]"] Cons.prems e show ?case by simp
qed simp

lemma copies_make_map:
  assumes "flat t"
  shows "copies (TMap t) make_map"
proof (rule copiesI)
  fix m p x as
  assume v: "view m (TMap t) p = Some (x, as)"
  show "\<exists>v' e bs. run_state (make_map p) m = (v', m @ e) \<and> view (m @ e) (TMap t) v' = Some (x, bs)
     \<and> distinct bs \<and> set bs \<subseteq> {length m ..< length m + length e}"
  proof (cases "p = VNil")
    case True
    with v show ?thesis by (intro exI [of _ VNil] exI [of _ "[]"]) (simp add: make_map_def)
  next
    case False
    with v obtain a es zs bs where p: "p = VRef a" "cell_at m a = Some (Entries es)" and es: "view_entries m t es = Some (zs, bs)"
      and x: "x = AMap zs" and d: "distinct (map fst es)"
      by (auto split: val.splits option.splits cell.splits if_splits)
    from es assms have "bs = []" by (rule view_flat(3))
    with es have "view_entries (m @ [Entries es]) t es = Some (zs, [])"
      using view_local(3) [of m t es zs "[]" "m @ [Entries es]"] by simp
    with x d have "view (m @ [Entries es]) (TMap t) (VRef (length m)) = Some (x, [length m])"
      by (simp add: cell_at_def)
    moreover have "run_state (make_map p) m = (VRef (length m), m @ [Entries es])"
      using p d set_entry_loop [of "[]" es m]
      by (simp add: make_map_def alloc_def map_entries_def cell_at_def nth_append split: if_splits)
    ultimately show ?thesis by (intro exI conjI) (assumption, assumption, auto)
  qed
qed

text \<open>The fields of a struct one by one, under their names.\<close>

lemma view_fields_iff:
  "distinct (map fst ts) \<Longrightarrow> view_fields m ts fs = Some (ys, as) \<longleftrightarrow>
     map fst fs = map fst ts \<and> (\<exists>X A. (\<forall>(n, t) \<in> set ts. view m t (field n (VStruct fs)) = Some (X n, A n))
       \<and> ys = map (\<lambda>(n, t). (n, X n)) ts \<and> as = concat (map (\<lambda>(n, t). A n) ts))"
proof (induction ts arbitrary: fs ys as)
  case (Cons nt ts)
  obtain n t where nt: "nt = (n, t)" by force
  show ?case
  proof (cases fs)
    case (Cons kv gs)
    obtain k v where kv: "kv = (k, v)" by force
    have other: "field n' (VStruct (kv # gs)) = field n' (VStruct gs)" if "n' \<noteq> k" for n' using that kv by simp
    from Cons.prems nt have n: "n \<notin> fst ` set ts" and d: "distinct (map fst ts)" by auto
    show ?thesis
    proof
      assume l: "view_fields m (nt # ts) fs = Some (ys, as)"
      with nt kv Cons obtain x a zs bs where "k = n" and v: "view m t v = Some (x, a)"
        and r: "view_fields m ts gs = Some (zs, bs)" "ys = (n, x) # zs" "as = a @ bs"
        by (auto split: if_splits)
      from r(1) Cons.IH [OF d] obtain X A where XA: "map fst gs = map fst ts"
        "\<forall>(n, t) \<in> set ts. view m t (field n (VStruct gs)) = Some (X n, A n)"
        "zs = map (\<lambda>(n, t). (n, X n)) ts" "bs = concat (map (\<lambda>(n, t). A n) ts)" by blast
      have "\<forall>(n', t') \<in> set (nt # ts). view m t' (field n' (VStruct fs)) = Some ((X(n := x)) n', (A(n := a)) n')"
        using XA(2) v n nt kv Cons \<open>k = n\<close> by (fastforce simp: image_iff)
      moreover have m1: "map (\<lambda>(n', t). (n', (X(n := x)) n')) ts = zs" and m2: "map (\<lambda>(n', t). (A(n := a)) n') ts = map (\<lambda>(n, t). A n) ts"
        using n XA(3) by (auto simp: image_iff)
      have "ys = map (\<lambda>(n', t). (n', (X(n := x)) n')) (nt # ts)" "as = concat (map (\<lambda>(n', t). (A(n := a)) n') (nt # ts))"
        by (simp_all only: nt list.map prod.case m1 m2 r fun_upd_same concat.simps XA(4))
      moreover have "map fst fs = map fst (nt # ts)" using XA(1) nt kv Cons \<open>k = n\<close> by simp
      ultimately show "map fst fs = map fst (nt # ts) \<and> (\<exists>X A. (\<forall>(n, t) \<in> set (nt # ts). view m t (field n (VStruct fs)) = Some (X n, A n))
           \<and> ys = map (\<lambda>(n, t). (n, X n)) (nt # ts) \<and> as = concat (map (\<lambda>(n, t). A n) (nt # ts)))"
        by blast
    next
      assume r: "map fst fs = map fst (nt # ts) \<and> (\<exists>X A. (\<forall>(n, t) \<in> set (nt # ts). view m t (field n (VStruct fs)) = Some (X n, A n))
           \<and> ys = map (\<lambda>(n, t). (n, X n)) (nt # ts) \<and> as = concat (map (\<lambda>(n, t). A n) (nt # ts)))"
      then obtain X A where XA: "\<forall>(n, t) \<in> set (nt # ts). view m t (field n (VStruct fs)) = Some (X n, A n)"
        "ys = map (\<lambda>(n, t). (n, X n)) (nt # ts)" "as = concat (map (\<lambda>(n, t). A n) (nt # ts))" by blast
      have "\<forall>(n, t) \<in> set ts. view m t (field n (VStruct gs)) = Some (X n, A n)"
        using XA(1) n r nt kv Cons by (fastforce simp: image_iff)
      with r Cons have "view_fields m ts gs = Some (map (\<lambda>(n, t). (n, X n)) ts, concat (map (\<lambda>(n, t). A n) ts))"
        using Cons.IH [OF d] by auto
      with XA r nt kv Cons show "view_fields m (nt # ts) fs = Some (ys, as)" by simp
    qed
  qed (auto simp: nt)
qed auto

lemma field_set_field [simp]:
  "n \<in> fst ` set fs \<Longrightarrow> field n' (set_field n x (VStruct fs)) = (if n' = n then x else field n' (VStruct fs))"
proof -
  have "map_of (map (\<lambda>(k, y). (k, if k = n then x else y)) fs) n' = map_option (\<lambda>y. if n' = n then x else y) (map_of fs n')"
    by (induction fs) auto
  moreover assume "n \<in> fst ` set fs"
  then have "map_of fs n \<noteq> None" by (simp add: map_of_eq_None_iff)
  ultimately show ?thesis by (auto split: option.splits)
qed

lemma copy_fields_run:
  assumes "distinct (map fst ss)" and "fst ` set ss \<subseteq> fst ` set fs"
    and "\<forall>(n, k) \<in> set ss. copies (T n) k \<and> view m (T n) (field n inp) = Some (X n, A n)"
  shows "\<exists>fs' e B. run_state (copy_fields ss inp (VStruct fs)) m = (VStruct fs', m @ e) \<and> map fst fs' = map fst fs
     \<and> (\<forall>n \<in> fst ` set ss. view (m @ e) (T n) (field n (VStruct fs')) = Some (X n, B n) \<and> distinct (B n)
          \<and> set (B n) \<subseteq> {length m ..< length m + length e})
     \<and> (\<forall>n. n \<notin> fst ` set ss \<longrightarrow> field n (VStruct fs') = field n (VStruct fs))
     \<and> (\<forall>n \<in> fst ` set ss. \<forall>l \<in> fst ` set ss. n \<noteq> l \<longrightarrow> set (B n) \<inter> set (B l) = {})"
  using assms
proof (induction ss arbitrary: fs m)
  case Nil
  then show ?case by (intro exI [of _ fs] exI [of _ "[]"]) simp
next
  case (Cons s ss)
  obtain n k where s: "s = (n, k)" by force
  with Cons.prems(3) have "copies (T n) k" "view m (T n) (field n inp) = Some (X n, A n)" by auto
  then obtain v e bs where k: "run_state (k (field n inp)) m = (v, m @ e)" and v: "view (m @ e) (T n) v = Some (X n, bs)"
    and bs: "distinct bs" "set bs \<subseteq> {length m ..< length m + length e}" by (rule copiesE)
  obtain gs where gs: "set_field n v (VStruct fs) = VStruct gs" "map fst gs = map fst fs"
    by (auto simp: case_prod_beta)
  then have names: "fst ` set gs = fst ` set fs" by (metis list.set_map)
  have "\<forall>(l, k) \<in> set ss. copies (T l) k \<and> view (m @ e) (T l) (field l inp) = Some (X l, A l)"
    using Cons.prems(3) view_append by fastforce
  with Cons.IH [of gs "m @ e"] Cons.prems(1,2) names s obtain fs' e' B where IH:
    "run_state (copy_fields ss inp (VStruct gs)) (m @ e) = (VStruct fs', (m @ e) @ e')" "map fst fs' = map fst gs"
    "\<forall>n \<in> fst ` set ss. view ((m @ e) @ e') (T n) (field n (VStruct fs')) = Some (X n, B n) \<and> distinct (B n)
       \<and> set (B n) \<subseteq> {length (m @ e) ..< length (m @ e) + length e'}"
    "\<forall>n. n \<notin> fst ` set ss \<longrightarrow> field n (VStruct fs') = field n (VStruct gs)"
    "\<forall>n \<in> fst ` set ss. \<forall>l \<in> fst ` set ss. n \<noteq> l \<longrightarrow> set (B n) \<inter> set (B l) = {}" by auto
  let ?B = "B(n := bs)"
  have n: "n \<notin> fst ` set ss" "n \<in> fst ` set fs" using Cons.prems(1,2) s by auto
  have fgs: "field l (VStruct gs) = (if l = n then v else field l (VStruct fs))" for l
    using field_set_field [OF n(2), of l v] gs(1) by simp
  have "run_state (copy_fields (s # ss) inp (VStruct fs)) m = (VStruct fs', m @ (e @ e'))"
    using s k gs(1) IH(1) by simp
  moreover have "\<forall>l \<in> fst ` set (s # ss). view (m @ (e @ e')) (T l) (field l (VStruct fs')) = Some (X l, ?B l) \<and> distinct (?B l)
       \<and> set (?B l) \<subseteq> {length m ..< length m + length (e @ e')}"
  proof
    fix l assume "l \<in> fst ` set (s # ss)"
    then show "view (m @ (e @ e')) (T l) (field l (VStruct fs')) = Some (X l, ?B l) \<and> distinct (?B l)
       \<and> set (?B l) \<subseteq> {length m ..< length m + length (e @ e')}"
      using IH(3,4) view_append [OF v, of e'] bs n(1) s fgs [of n] by (cases "l = n") fastforce+
  qed
  moreover have "\<forall>l. l \<notin> fst ` set (s # ss) \<longrightarrow> field l (VStruct fs') = field l (VStruct fs)"
    using IH(4) fgs s by simp
  moreover have "\<forall>l \<in> fst ` set (s # ss). \<forall>l' \<in> fst ` set (s # ss). l \<noteq> l' \<longrightarrow> set (?B l) \<inter> set (?B l') = {}"
  proof (intro ballI impI)
    fix l l' assume l: "l \<in> fst ` set (s # ss)" "l' \<in> fst ` set (s # ss)" "l \<noteq> l'"
    have new: "set bs \<inter> set (B j) = {}" if "j \<in> fst ` set ss" for j using IH(3) bs(2) that by fastforce
    from l s consider "l = n" "l' \<in> fst ` set ss" | "l' = n" "l \<in> fst ` set ss" | "l \<noteq> n" "l' \<noteq> n" "l \<in> fst ` set ss" "l' \<in> fst ` set ss"
      by fastforce
    then show "set (?B l) \<inter> set (?B l') = {}"
    proof cases
      case 1
      with new l(3) show ?thesis by simp
    next
      case 2
      with new l(3) show ?thesis by (simp add: Int_commute)
    next
      case 3
      with IH(5) l(3) have "set (B l) \<inter> set (B l') = {}" by blast
      with 3 show ?thesis by simp
    qed
  qed
  ultimately show ?case using IH(2) gs(2) by (metis (no_types, lifting))
qed

lemma distinct_concat_named:
  assumes "distinct (map fst ts)" and "\<forall>(n, t) \<in> set ts. distinct (B n)"
    and "\<forall>(n, t) \<in> set ts. \<forall>(l, u) \<in> set ts. n \<noteq> l \<longrightarrow> set (B n) \<inter> set (B l) = {}"
  shows "distinct (concat (map (\<lambda>(n, t). B n) ts))"
  using assms
proof (induction ts)
  case (Cons nt ts)
  obtain n t where nt: "nt = (n, t)" by force
  have "set (B n) \<inter> (\<Union>(l, u) \<in> set ts. set (B l)) = {}" using Cons.prems(1,3) nt by (fastforce simp: image_iff)
  with Cons nt show ?case by (auto simp: case_prod_beta)
qed simp

text \<open>
  The body of a struct's copy function is right when each field that it leaves to \<open>*out = *in\<close> is of a flat
  type, and each statement copies the type of its field.
\<close>

definition covers :: "(string \<times> ty) list \<Rightarrow> (string \<times> copy) list \<Rightarrow> bool" where
  "covers ts ss \<longleftrightarrow> distinct (map fst ts) \<and> distinct (map fst ss) \<and> fst ` set ss \<subseteq> fst ` set ts
     \<and> (\<forall>(n, t) \<in> set ts. case map_of ss n of Some k \<Rightarrow> copies t k | None \<Rightarrow> flat t)"

lemma copies_struct:
  assumes "covers ts ss"
  shows "copies (TStruct ts) (copy_struct ss)"
proof (rule copiesI)
  fix m v x as
  assume v: "view m (TStruct ts) v = Some (x, as)"
  from assms have d: "distinct (map fst ts)" "distinct (map fst ss)" "fst ` set ss \<subseteq> fst ` set ts" by (auto simp: covers_def)
  define T where "T n = the (map_of ts n)" for n
  have T: "T n = t" if "(n, t) \<in> set ts" for n t using that d(1) by (simp add: T_def)
  from v obtain fs ys where fs: "v = VStruct fs" and f: "view_fields m ts fs = Some (ys, as)" and x: "x = AStruct ys"
    by (auto split: val.splits)
  from f [unfolded view_fields_iff [OF d(1)]] obtain X A where names: "map fst fs = map fst ts"
    and XA: "\<forall>(n, t) \<in> set ts. view m t (field n v) = Some (X n, A n)" and ys: "ys = map (\<lambda>(n, t). (n, X n)) ts"
    unfolding fs by blast
  have c: "\<forall>(n, k) \<in> set ss. copies (T n) k \<and> view m (T n) (field n v) = Some (X n, A n)"
  proof (clarify)
    fix n k assume nk: "(n, k) \<in> set ss"
    with d(3) obtain t where t: "(n, t) \<in> set ts" by force
    from nk d(2) have "map_of ss n = Some k" by simp
    with assms t have "copies t k" unfolding covers_def by fastforce
    with T [OF t] XA t show "copies (T n) k \<and> view m (T n) (field n v) = Some (X n, A n)" by auto
  qed
  have "fst ` set ss \<subseteq> fst ` set fs" using d(3) names by (metis list.set_map)
  from copy_fields_run [OF d(2) this c] obtain fs' e B where run: "run_state (copy_fields ss v (VStruct fs)) m = (VStruct fs', m @ e)"
    and n': "map fst fs' = map fst fs"
    and B: "\<forall>n \<in> fst ` set ss. view (m @ e) (T n) (field n (VStruct fs')) = Some (X n, B n) \<and> distinct (B n)
          \<and> set (B n) \<subseteq> {length m ..< length m + length e}"
    and other: "\<forall>n. n \<notin> fst ` set ss \<longrightarrow> field n (VStruct fs') = field n (VStruct fs)"
    and disj: "\<forall>n \<in> fst ` set ss. \<forall>l \<in> fst ` set ss. n \<noteq> l \<longrightarrow> set (B n) \<inter> set (B l) = {}" by blast
  define C where "C n = (if n \<in> fst ` set ss then B n else [])" for n
  have C: "view (m @ e) t (field n (VStruct fs')) = Some (X n, C n)" if nt: "(n, t) \<in> set ts" for n t
  proof (cases "n \<in> fst ` set ss")
    case True
    with B T [OF nt] show ?thesis by (auto simp: C_def)
  next
    case False
    then have "map_of ss n = None" by (simp add: map_of_eq_None_iff)
    with assms nt have "flat t" unfolding covers_def by fastforce
    moreover from XA nt have w: "view m t (field n v) = Some (X n, A n)" by auto
    ultimately have "A n = []" using view_flat(1) by blast
    with view_append [OF w, of e] other False fs show ?thesis by (simp add: C_def)
  qed
  let ?bs = "concat (map (\<lambda>(n, t). C n) ts)"
  have "view_fields (m @ e) ts fs' = Some (ys, ?bs)"
    unfolding view_fields_iff [OF d(1)] using C names n' ys by (intro conjI exI [of _ X] exI [of _ C]) auto
  then have w: "view (m @ e) (TStruct ts) (VStruct fs') = Some (x, ?bs)" using x by simp
  have dC: "distinct (C n)" for n using B by (cases "n \<in> fst ` set ss") (unfold C_def, simp_all only: if_True if_False distinct.simps)
  have eC: "n \<noteq> l \<longrightarrow> set (C n) \<inter> set (C l) = {}" for n l
    using disj by (cases "n \<in> fst ` set ss"; cases "l \<in> fst ` set ss") (unfold C_def, simp_all only: if_True if_False, auto simp del: ball_simps)
  have "distinct ?bs" by (rule distinct_concat_named [OF d(1)]) (use dC eC in auto)
  moreover have "set ?bs \<subseteq> {length m ..< length m + length e}"
    using B by (auto simp: C_def split: if_splits dest!: bspec)
  moreover have "run_state (copy_struct ss v) m = (VStruct fs', m @ e)" using run fs by (simp add: copy_struct_def)
  ultimately show "\<exists>v' e bs. run_state (copy_struct ss v) m = (v', m @ e) \<and> view (m @ e) (TStruct ts) v' = Some (x, bs)
     \<and> distinct bs \<and> set bs \<subseteq> {length m ..< length m + length e}"
    using w by blast
qed

lemma DeepCopy_of_new_into: "DeepCopy_of t f = new_into t f"
  by (simp add: fun_eq_iff DeepCopy_of_def new_into_def)

lemmas copies_DeepCopy = copies_new_into [folded DeepCopy_of_new_into]

lemma DeepCopyObject_of_id [simp]: "DeepCopyObject_of f = f"
proof (rule ext)
  fix p
  have "run_state (DeepCopyObject_of f p) m = run_state (f p) m" for m
    by (simp add: DeepCopyObject_of_def split: prod.splits)
  then show "DeepCopyObject_of f p = f p" by (metis (no_types) ext state.expand)
qed

section \<open>What a program does to a value it does not hold\<close>

text \<open>
  Whatever a program that holds the addresses \<open>S\<close> does: it may write the cells it holds and allocate new ones
  (and then write those).
\<close>

definition writes_within :: "addr set \<Rightarrow> mem \<Rightarrow> mem \<Rightarrow> bool" where
  "writes_within S m m' \<longleftrightarrow> length m \<le> length m' \<and> (\<forall>a < length m. a \<notin> S \<longrightarrow> m' ! a = m ! a)"

lemma view_writes_within:
  "view m t v = Some (x, as) \<Longrightarrow> writes_within S m m' \<Longrightarrow> S \<inter> set as = {} \<Longrightarrow> view m' t v = Some (x, as)"
  using view_local(1) [of m t v x as m'] view_allocated(1) [of m t v x as]
  by (fastforce simp: writes_within_def cell_at_def)

lemma writes_within_update: "b \<in> S \<Longrightarrow> writes_within S m (m[b := c])"
  by (simp add: writes_within_def) (metis nth_list_update_neq)

lemma writes_within_trans:
  "writes_within S m m' \<Longrightarrow> writes_within (S \<union> {length m..}) m' m'' \<Longrightarrow> writes_within S m m''"
  by (force simp: writes_within_def)

text \<open>A deep copy and its original: neither is changed through the other.\<close>

lemma copies_isolated:
  assumes k: "copies t k" and v: "view m t v = Some (x, as)"
  obtains v' e bs where "run_state (k v) m = (v', m @ e)" and "view (m @ e) t v' = Some (x, bs)"
    and "distinct bs" and "set bs \<subseteq> {length m ..< length m + length e}" and "set as \<inter> set bs = {}"
    and "\<And>m'. writes_within (set bs) (m @ e) m' \<Longrightarrow> view m' t v = Some (x, as)"
    and "\<And>m'. writes_within (set as) (m @ e) m' \<Longrightarrow> view m' t v' = Some (x, bs)"
proof -
  from k v obtain v' e bs where r: "run_state (k v) m = (v', m @ e)" and v': "view (m @ e) t v' = Some (x, bs)"
    and bs: "distinct bs" "set bs \<subseteq> {length m ..< length m + length e}" by (rule copiesE)
  have d: "set as \<inter> set bs = {}" using view_allocated(1) [OF v] bs(2) by fastforce
  from view_writes_within [OF view_append [OF v]] d have "writes_within (set bs) (m @ e) m' \<Longrightarrow> view m' t v = Some (x, as)" for m'
    by (metis Int_commute)
  moreover from view_writes_within [OF v'] d have "writes_within (set as) (m @ e) m' \<Longrightarrow> view m' t v' = Some (x, bs)" for m'
    by blast
  ultimately show ?thesis using that r v' bs d by blast
qed

end
