(* ===== verification/Deep_Copies.thy ===== *)
theory Deep_Copies
  imports Go_Memory
begin

text \<open>
  The copy functions of \<open>api/v1alpha1/zz_generated.deepcopy.go\<close>, one definition per function, over the
  struct types of \<open>api/v1alpha1/*_types.go\<close> with their pointers, slices and maps. The informer cache hands out
  its objects through \<open>DeepCopyObject\<close>, and \<open>applyTyped\<close> reads the server's copy of an object into a deep copy
  of the object it is about to write: both rely on the copy sharing nothing with the original, which is what is
  proved here for every type. The function of a type is generated from its struct; a field that holds a pointer,
  added without generating again, is exactly what makes \<open>covers\<close> false.
\<close>

text \<open>
  The types of apimachinery the structs embed, with their copy functions, which are not code of the repository.
\<close>

record k8s_meta =
  km_TypeMeta :: ty
  km_ObjectMeta :: ty
  km_ListMeta :: ty
  km_Condition :: ty
  km_RawExtension :: ty
  into_ObjectMeta :: copy
  into_ListMeta :: copy
  into_Condition :: copy
  into_RawExtension :: copy

section \<open>The types and their functions\<close>

text \<open>\<open>RANCell\<close>.\<close>

definition RANCell_ty :: ty where
  "RANCell_ty = TStruct
     [(''Band'', TStr), (''DlArfcn'', TInt), (''BandwidthMHz'', TInt), (''CommonScs'', TInt), (''Pci'', TInt),
      (''Antennas'', TInt)]"

definition DeepCopyInto_RANCell :: copy where
  "DeepCopyInto_RANCell = copy_struct []"

definition DeepCopy_RANCell :: copy where
  "DeepCopy_RANCell = DeepCopy_of RANCell_ty DeepCopyInto_RANCell"

text \<open>\<open>RANOfh\<close>.\<close>

definition RANOfh_ty :: ty where
  "RANOfh_ty = TStruct
     [(''Interface'', TStr), (''RuMac'', TStr), (''DuMac'', TStr), (''VlanTag'', TInt), (''EalArgs'', TStr),
      (''PrachPortId'', TSlice TInt), (''DlPortId'', TSlice TInt), (''UlPortId'', TSlice TInt)]"

definition DeepCopyInto_RANOfh :: copy where
  "DeepCopyInto_RANOfh = copy_struct
     [(''PrachPortId'', make_copy TInt), (''DlPortId'', make_copy TInt), (''UlPortId'', make_copy TInt)]"

definition DeepCopy_RANOfh :: copy where
  "DeepCopy_RANOfh = DeepCopy_of RANOfh_ty DeepCopyInto_RANOfh"

text \<open>\<open>RANSpec\<close>.\<close>

definition RANSpec_ty :: ty where
  "RANSpec_ty = TStruct
     [(''Stack'', TStr), (''Enabled'', TPtr TBool), (''Split'', TStr), (''Device'', TStr), (''Config'', TStr),
      (''LdLibraryPath'', TStr), (''Cpuset'', TStr), (''RadioAddr'', TStr), (''RadioNic'', TStr),
      (''Cell'', RANCell_ty), (''Ofh'', TPtr RANOfh_ty)]"

definition DeepCopyInto_RANSpec :: copy where
  "DeepCopyInto_RANSpec = copy_struct
     [(''Enabled'', new_into TBool assign), (''Cell'', assign), (''Ofh'', new_into RANOfh_ty DeepCopyInto_RANOfh)]"

definition DeepCopy_RANSpec :: copy where
  "DeepCopy_RANSpec = DeepCopy_of RANSpec_ty DeepCopyInto_RANSpec"

text \<open>\<open>EdgeSiteSpec\<close>.\<close>

definition EdgeSiteSpec_ty :: ty where
  "EdgeSiteSpec_ty = TStruct
     [(''Server'', TStr), (''User'', TStr), (''Role'', TStr), (''ControlPlane'', TStr), (''Colocated'', TBool),
      (''PodCIDR'', TStr), (''SliceSD'', TStr), (''UEPool'', TStr), (''AccessCIDR'', TStr), (''CoreCIDR'', TStr),
      (''AccessGw'', TStr), (''CoreGw'', TStr), (''CoreNextHop'', TStr), (''GnbIP'', TStr), (''RanSubnet'', TStr),
      (''N2VIP'', TStr), (''RanNic'', TStr), (''EgressNic'', TStr), (''RAN'', TPtr RANSpec_ty)]"

definition DeepCopyInto_EdgeSiteSpec :: copy where
  "DeepCopyInto_EdgeSiteSpec = copy_struct
     [(''RAN'', new_into RANSpec_ty DeepCopyInto_RANSpec)]"

definition DeepCopy_EdgeSiteSpec :: copy where
  "DeepCopy_EdgeSiteSpec = DeepCopy_of EdgeSiteSpec_ty DeepCopyInto_EdgeSiteSpec"

text \<open>\<open>EdgeSiteStatus\<close>.\<close>

definition EdgeSiteStatus_ty :: "k8s_meta \<Rightarrow> ty" where
  "EdgeSiteStatus_ty X = TStruct
     [(''Phase'', TStr), (''Message'', TStr), (''Cluster'', TStr), (''ObservedGeneration'', TInt),
      (''Conditions'', TSlice (km_Condition X))]"

definition DeepCopyInto_EdgeSiteStatus :: "k8s_meta \<Rightarrow> copy" where
  "DeepCopyInto_EdgeSiteStatus X = copy_struct
     [(''Conditions'', make_into (km_Condition X) (into_Condition X))]"

definition DeepCopy_EdgeSiteStatus :: "k8s_meta \<Rightarrow> copy" where
  "DeepCopy_EdgeSiteStatus X = DeepCopy_of (EdgeSiteStatus_ty X) (DeepCopyInto_EdgeSiteStatus X)"

text \<open>\<open>EdgeSite\<close>.\<close>

definition EdgeSite_ty :: "k8s_meta \<Rightarrow> ty" where
  "EdgeSite_ty X = TStruct
     [(''TypeMeta'', km_TypeMeta X), (''ObjectMeta'', km_ObjectMeta X), (''Spec'', EdgeSiteSpec_ty),
      (''Status'', EdgeSiteStatus_ty X)]"

definition DeepCopyInto_EdgeSite :: "k8s_meta \<Rightarrow> copy" where
  "DeepCopyInto_EdgeSite X = copy_struct
     [(''TypeMeta'', assign), (''ObjectMeta'', into_ObjectMeta X), (''Spec'', DeepCopyInto_EdgeSiteSpec),
      (''Status'', DeepCopyInto_EdgeSiteStatus X)]"

definition DeepCopy_EdgeSite :: "k8s_meta \<Rightarrow> copy" where
  "DeepCopy_EdgeSite X = DeepCopy_of (EdgeSite_ty X) (DeepCopyInto_EdgeSite X)"

definition DeepCopyObject_EdgeSite :: "k8s_meta \<Rightarrow> copy" where
  "DeepCopyObject_EdgeSite X = DeepCopyObject_of (DeepCopy_EdgeSite X)"

text \<open>\<open>EdgeSiteList\<close>.\<close>

definition EdgeSiteList_ty :: "k8s_meta \<Rightarrow> ty" where
  "EdgeSiteList_ty X = TStruct
     [(''TypeMeta'', km_TypeMeta X), (''ListMeta'', km_ListMeta X), (''Items'', TSlice (EdgeSite_ty X))]"

definition DeepCopyInto_EdgeSiteList :: "k8s_meta \<Rightarrow> copy" where
  "DeepCopyInto_EdgeSiteList X = copy_struct
     [(''TypeMeta'', assign), (''ListMeta'', into_ListMeta X),
      (''Items'', make_into (EdgeSite_ty X) (DeepCopyInto_EdgeSite X))]"

definition DeepCopy_EdgeSiteList :: "k8s_meta \<Rightarrow> copy" where
  "DeepCopy_EdgeSiteList X = DeepCopy_of (EdgeSiteList_ty X) (DeepCopyInto_EdgeSiteList X)"

definition DeepCopyObject_EdgeSiteList :: "k8s_meta \<Rightarrow> copy" where
  "DeepCopyObject_EdgeSiteList X = DeepCopyObject_of (DeepCopy_EdgeSiteList X)"

text \<open>\<open>MeshLinkSpec\<close>.\<close>

definition MeshLinkSpec_ty :: ty where
  "MeshLinkSpec_ty = TStruct
     [(''Edge'', TStr), (''ControlPlane'', TStr), (''UPFName'', TStr)]"

definition DeepCopyInto_MeshLinkSpec :: copy where
  "DeepCopyInto_MeshLinkSpec = copy_struct []"

definition DeepCopy_MeshLinkSpec :: copy where
  "DeepCopy_MeshLinkSpec = DeepCopy_of MeshLinkSpec_ty DeepCopyInto_MeshLinkSpec"

text \<open>\<open>MeshLinkStatus\<close>.\<close>

definition MeshLinkStatus_ty :: "k8s_meta \<Rightarrow> ty" where
  "MeshLinkStatus_ty X = TStruct
     [(''Phase'', TStr), (''Message'', TStr), (''Conditions'', TSlice (km_Condition X))]"

definition DeepCopyInto_MeshLinkStatus :: "k8s_meta \<Rightarrow> copy" where
  "DeepCopyInto_MeshLinkStatus X = copy_struct
     [(''Conditions'', make_into (km_Condition X) (into_Condition X))]"

definition DeepCopy_MeshLinkStatus :: "k8s_meta \<Rightarrow> copy" where
  "DeepCopy_MeshLinkStatus X = DeepCopy_of (MeshLinkStatus_ty X) (DeepCopyInto_MeshLinkStatus X)"

text \<open>\<open>MeshLink\<close>.\<close>

definition MeshLink_ty :: "k8s_meta \<Rightarrow> ty" where
  "MeshLink_ty X = TStruct
     [(''TypeMeta'', km_TypeMeta X), (''ObjectMeta'', km_ObjectMeta X), (''Spec'', MeshLinkSpec_ty),
      (''Status'', MeshLinkStatus_ty X)]"

definition DeepCopyInto_MeshLink :: "k8s_meta \<Rightarrow> copy" where
  "DeepCopyInto_MeshLink X = copy_struct
     [(''TypeMeta'', assign), (''ObjectMeta'', into_ObjectMeta X), (''Spec'', assign),
      (''Status'', DeepCopyInto_MeshLinkStatus X)]"

definition DeepCopy_MeshLink :: "k8s_meta \<Rightarrow> copy" where
  "DeepCopy_MeshLink X = DeepCopy_of (MeshLink_ty X) (DeepCopyInto_MeshLink X)"

definition DeepCopyObject_MeshLink :: "k8s_meta \<Rightarrow> copy" where
  "DeepCopyObject_MeshLink X = DeepCopyObject_of (DeepCopy_MeshLink X)"

text \<open>\<open>MeshLinkList\<close>.\<close>

definition MeshLinkList_ty :: "k8s_meta \<Rightarrow> ty" where
  "MeshLinkList_ty X = TStruct
     [(''TypeMeta'', km_TypeMeta X), (''ListMeta'', km_ListMeta X), (''Items'', TSlice (MeshLink_ty X))]"

definition DeepCopyInto_MeshLinkList :: "k8s_meta \<Rightarrow> copy" where
  "DeepCopyInto_MeshLinkList X = copy_struct
     [(''TypeMeta'', assign), (''ListMeta'', into_ListMeta X),
      (''Items'', make_into (MeshLink_ty X) (DeepCopyInto_MeshLink X))]"

definition DeepCopy_MeshLinkList :: "k8s_meta \<Rightarrow> copy" where
  "DeepCopy_MeshLinkList X = DeepCopy_of (MeshLinkList_ty X) (DeepCopyInto_MeshLinkList X)"

definition DeepCopyObject_MeshLinkList :: "k8s_meta \<Rightarrow> copy" where
  "DeepCopyObject_MeshLinkList X = DeepCopyObject_of (DeepCopy_MeshLinkList X)"

text \<open>\<open>FleetSite\<close>.\<close>

definition FleetSite_ty :: ty where
  "FleetSite_ty = TStruct
     [(''Server'', TStr), (''User'', TStr), (''Role'', TStr), (''Name'', TStr), (''RAN'', TPtr RANSpec_ty)]"

definition DeepCopyInto_FleetSite :: copy where
  "DeepCopyInto_FleetSite = copy_struct
     [(''RAN'', new_into RANSpec_ty DeepCopyInto_RANSpec)]"

definition DeepCopy_FleetSite :: copy where
  "DeepCopy_FleetSite = DeepCopy_of FleetSite_ty DeepCopyInto_FleetSite"

text \<open>\<open>FleetSpec\<close>.\<close>

definition FleetSpec_ty :: ty where
  "FleetSpec_ty = TStruct
     [(''Sites'', TSlice FleetSite_ty)]"

definition DeepCopyInto_FleetSpec :: copy where
  "DeepCopyInto_FleetSpec = copy_struct
     [(''Sites'', make_into FleetSite_ty DeepCopyInto_FleetSite)]"

definition DeepCopy_FleetSpec :: copy where
  "DeepCopy_FleetSpec = DeepCopy_of FleetSpec_ty DeepCopyInto_FleetSpec"

text \<open>\<open>FleetStatus\<close>.\<close>

definition FleetStatus_ty :: "k8s_meta \<Rightarrow> ty" where
  "FleetStatus_ty X = TStruct
     [(''Sites'', TInt), (''Message'', TStr), (''Conditions'', TSlice (km_Condition X))]"

definition DeepCopyInto_FleetStatus :: "k8s_meta \<Rightarrow> copy" where
  "DeepCopyInto_FleetStatus X = copy_struct
     [(''Conditions'', make_into (km_Condition X) (into_Condition X))]"

definition DeepCopy_FleetStatus :: "k8s_meta \<Rightarrow> copy" where
  "DeepCopy_FleetStatus X = DeepCopy_of (FleetStatus_ty X) (DeepCopyInto_FleetStatus X)"

text \<open>\<open>Fleet\<close>.\<close>

definition Fleet_ty :: "k8s_meta \<Rightarrow> ty" where
  "Fleet_ty X = TStruct
     [(''TypeMeta'', km_TypeMeta X), (''ObjectMeta'', km_ObjectMeta X), (''Spec'', FleetSpec_ty),
      (''Status'', FleetStatus_ty X)]"

definition DeepCopyInto_Fleet :: "k8s_meta \<Rightarrow> copy" where
  "DeepCopyInto_Fleet X = copy_struct
     [(''TypeMeta'', assign), (''ObjectMeta'', into_ObjectMeta X), (''Spec'', DeepCopyInto_FleetSpec),
      (''Status'', DeepCopyInto_FleetStatus X)]"

definition DeepCopy_Fleet :: "k8s_meta \<Rightarrow> copy" where
  "DeepCopy_Fleet X = DeepCopy_of (Fleet_ty X) (DeepCopyInto_Fleet X)"

definition DeepCopyObject_Fleet :: "k8s_meta \<Rightarrow> copy" where
  "DeepCopyObject_Fleet X = DeepCopyObject_of (DeepCopy_Fleet X)"

text \<open>\<open>FleetList\<close>.\<close>

definition FleetList_ty :: "k8s_meta \<Rightarrow> ty" where
  "FleetList_ty X = TStruct
     [(''TypeMeta'', km_TypeMeta X), (''ListMeta'', km_ListMeta X), (''Items'', TSlice (Fleet_ty X))]"

definition DeepCopyInto_FleetList :: "k8s_meta \<Rightarrow> copy" where
  "DeepCopyInto_FleetList X = copy_struct
     [(''TypeMeta'', assign), (''ListMeta'', into_ListMeta X),
      (''Items'', make_into (Fleet_ty X) (DeepCopyInto_Fleet X))]"

definition DeepCopy_FleetList :: "k8s_meta \<Rightarrow> copy" where
  "DeepCopy_FleetList X = DeepCopy_of (FleetList_ty X) (DeepCopyInto_FleetList X)"

definition DeepCopyObject_FleetList :: "k8s_meta \<Rightarrow> copy" where
  "DeepCopyObject_FleetList X = DeepCopyObject_of (DeepCopy_FleetList X)"

text \<open>\<open>FabricPrefix\<close>.\<close>

definition FabricPrefix_ty :: ty where
  "FabricPrefix_ty = TStruct
     [(''Prefix'', TStr), (''Labels'', TMap TStr)]"

definition DeepCopyInto_FabricPrefix :: copy where
  "DeepCopyInto_FabricPrefix = copy_struct
     [(''Labels'', make_map)]"

definition DeepCopy_FabricPrefix :: copy where
  "DeepCopy_FabricPrefix = DeepCopy_of FabricPrefix_ty DeepCopyInto_FabricPrefix"

text \<open>\<open>NetworkFabricSpec\<close>.\<close>

definition NetworkFabricSpec_ty :: ty where
  "NetworkFabricSpec_ty = TStruct
     [(''Prefixes'', TSlice FabricPrefix_ty)]"

definition DeepCopyInto_NetworkFabricSpec :: copy where
  "DeepCopyInto_NetworkFabricSpec = copy_struct
     [(''Prefixes'', make_into FabricPrefix_ty DeepCopyInto_FabricPrefix)]"

definition DeepCopy_NetworkFabricSpec :: copy where
  "DeepCopy_NetworkFabricSpec = DeepCopy_of NetworkFabricSpec_ty DeepCopyInto_NetworkFabricSpec"

text \<open>\<open>NetworkFabricStatus\<close>.\<close>

definition NetworkFabricStatus_ty :: "k8s_meta \<Rightarrow> ty" where
  "NetworkFabricStatus_ty X = TStruct
     [(''LastReconcile'', TStr), (''Conditions'', TSlice (km_Condition X))]"

definition DeepCopyInto_NetworkFabricStatus :: "k8s_meta \<Rightarrow> copy" where
  "DeepCopyInto_NetworkFabricStatus X = copy_struct
     [(''Conditions'', make_into (km_Condition X) (into_Condition X))]"

definition DeepCopy_NetworkFabricStatus :: "k8s_meta \<Rightarrow> copy" where
  "DeepCopy_NetworkFabricStatus X = DeepCopy_of (NetworkFabricStatus_ty X) (DeepCopyInto_NetworkFabricStatus X)"

text \<open>\<open>NetworkFabric\<close>.\<close>

definition NetworkFabric_ty :: "k8s_meta \<Rightarrow> ty" where
  "NetworkFabric_ty X = TStruct
     [(''TypeMeta'', km_TypeMeta X), (''ObjectMeta'', km_ObjectMeta X), (''Spec'', NetworkFabricSpec_ty),
      (''Status'', NetworkFabricStatus_ty X)]"

definition DeepCopyInto_NetworkFabric :: "k8s_meta \<Rightarrow> copy" where
  "DeepCopyInto_NetworkFabric X = copy_struct
     [(''TypeMeta'', assign), (''ObjectMeta'', into_ObjectMeta X), (''Spec'', DeepCopyInto_NetworkFabricSpec),
      (''Status'', DeepCopyInto_NetworkFabricStatus X)]"

definition DeepCopy_NetworkFabric :: "k8s_meta \<Rightarrow> copy" where
  "DeepCopy_NetworkFabric X = DeepCopy_of (NetworkFabric_ty X) (DeepCopyInto_NetworkFabric X)"

definition DeepCopyObject_NetworkFabric :: "k8s_meta \<Rightarrow> copy" where
  "DeepCopyObject_NetworkFabric X = DeepCopyObject_of (DeepCopy_NetworkFabric X)"

text \<open>\<open>NetworkFabricList\<close>.\<close>

definition NetworkFabricList_ty :: "k8s_meta \<Rightarrow> ty" where
  "NetworkFabricList_ty X = TStruct
     [(''TypeMeta'', km_TypeMeta X), (''ListMeta'', km_ListMeta X), (''Items'', TSlice (NetworkFabric_ty X))]"

definition DeepCopyInto_NetworkFabricList :: "k8s_meta \<Rightarrow> copy" where
  "DeepCopyInto_NetworkFabricList X = copy_struct
     [(''TypeMeta'', assign), (''ListMeta'', into_ListMeta X),
      (''Items'', make_into (NetworkFabric_ty X) (DeepCopyInto_NetworkFabric X))]"

definition DeepCopy_NetworkFabricList :: "k8s_meta \<Rightarrow> copy" where
  "DeepCopy_NetworkFabricList X = DeepCopy_of (NetworkFabricList_ty X) (DeepCopyInto_NetworkFabricList X)"

definition DeepCopyObject_NetworkFabricList :: "k8s_meta \<Rightarrow> copy" where
  "DeepCopyObject_NetworkFabricList X = DeepCopyObject_of (DeepCopy_NetworkFabricList X)"

text \<open>\<open>SDCoreDeploymentSpec\<close>.\<close>

definition SDCoreDeploymentSpec_ty :: "k8s_meta \<Rightarrow> ty" where
  "SDCoreDeploymentSpec_ty X = TStruct
     [(''Component'', TStr), (''Values'', TPtr (km_RawExtension X)), (''TargetNamespace'', TStr)]"

definition DeepCopyInto_SDCoreDeploymentSpec :: "k8s_meta \<Rightarrow> copy" where
  "DeepCopyInto_SDCoreDeploymentSpec X = copy_struct
     [(''Values'', new_into (km_RawExtension X) (into_RawExtension X))]"

definition DeepCopy_SDCoreDeploymentSpec :: "k8s_meta \<Rightarrow> copy" where
  "DeepCopy_SDCoreDeploymentSpec X = DeepCopy_of (SDCoreDeploymentSpec_ty X) (DeepCopyInto_SDCoreDeploymentSpec X)"

text \<open>\<open>SDCoreDeploymentStatus\<close>.\<close>

definition SDCoreDeploymentStatus_ty :: "k8s_meta \<Rightarrow> ty" where
  "SDCoreDeploymentStatus_ty X = TStruct
     [(''Phase'', TStr), (''Message'', TStr), (''ReleaseRevision'', TInt), (''ObservedGeneration'', TInt),
      (''Conditions'', TSlice (km_Condition X))]"

definition DeepCopyInto_SDCoreDeploymentStatus :: "k8s_meta \<Rightarrow> copy" where
  "DeepCopyInto_SDCoreDeploymentStatus X = copy_struct
     [(''Conditions'', make_into (km_Condition X) (into_Condition X))]"

definition DeepCopy_SDCoreDeploymentStatus :: "k8s_meta \<Rightarrow> copy" where
  "DeepCopy_SDCoreDeploymentStatus X = DeepCopy_of (SDCoreDeploymentStatus_ty X) (DeepCopyInto_SDCoreDeploymentStatus X)"

text \<open>\<open>SDCoreDeployment\<close>.\<close>

definition SDCoreDeployment_ty :: "k8s_meta \<Rightarrow> ty" where
  "SDCoreDeployment_ty X = TStruct
     [(''TypeMeta'', km_TypeMeta X), (''ObjectMeta'', km_ObjectMeta X), (''Spec'', SDCoreDeploymentSpec_ty X),
      (''Status'', SDCoreDeploymentStatus_ty X)]"

definition DeepCopyInto_SDCoreDeployment :: "k8s_meta \<Rightarrow> copy" where
  "DeepCopyInto_SDCoreDeployment X = copy_struct
     [(''TypeMeta'', assign), (''ObjectMeta'', into_ObjectMeta X), (''Spec'', DeepCopyInto_SDCoreDeploymentSpec X),
      (''Status'', DeepCopyInto_SDCoreDeploymentStatus X)]"

definition DeepCopy_SDCoreDeployment :: "k8s_meta \<Rightarrow> copy" where
  "DeepCopy_SDCoreDeployment X = DeepCopy_of (SDCoreDeployment_ty X) (DeepCopyInto_SDCoreDeployment X)"

definition DeepCopyObject_SDCoreDeployment :: "k8s_meta \<Rightarrow> copy" where
  "DeepCopyObject_SDCoreDeployment X = DeepCopyObject_of (DeepCopy_SDCoreDeployment X)"

text \<open>\<open>SDCoreDeploymentList\<close>.\<close>

definition SDCoreDeploymentList_ty :: "k8s_meta \<Rightarrow> ty" where
  "SDCoreDeploymentList_ty X = TStruct
     [(''TypeMeta'', km_TypeMeta X), (''ListMeta'', km_ListMeta X), (''Items'', TSlice (SDCoreDeployment_ty X))]"

definition DeepCopyInto_SDCoreDeploymentList :: "k8s_meta \<Rightarrow> copy" where
  "DeepCopyInto_SDCoreDeploymentList X = copy_struct
     [(''TypeMeta'', assign), (''ListMeta'', into_ListMeta X),
      (''Items'', make_into (SDCoreDeployment_ty X) (DeepCopyInto_SDCoreDeployment X))]"

definition DeepCopy_SDCoreDeploymentList :: "k8s_meta \<Rightarrow> copy" where
  "DeepCopy_SDCoreDeploymentList X = DeepCopy_of (SDCoreDeploymentList_ty X) (DeepCopyInto_SDCoreDeploymentList X)"

definition DeepCopyObject_SDCoreDeploymentList :: "k8s_meta \<Rightarrow> copy" where
  "DeepCopyObject_SDCoreDeploymentList X = DeepCopyObject_of (DeepCopy_SDCoreDeploymentList X)"

text \<open>\<open>SubscriberSpec\<close>.\<close>

definition SubscriberSpec_ty :: ty where
  "SubscriberSpec_ty = TStruct
     [(''IMSI'', TStr), (''Key'', TStr), (''Opc'', TStr), (''SliceRef'', TStr), (''SequenceNumber'', TStr)]"

definition DeepCopyInto_SubscriberSpec :: copy where
  "DeepCopyInto_SubscriberSpec = copy_struct []"

definition DeepCopy_SubscriberSpec :: copy where
  "DeepCopy_SubscriberSpec = DeepCopy_of SubscriberSpec_ty DeepCopyInto_SubscriberSpec"

text \<open>\<open>SubscriberStatus\<close>.\<close>

definition SubscriberStatus_ty :: "k8s_meta \<Rightarrow> ty" where
  "SubscriberStatus_ty X = TStruct
     [(''Phase'', TStr), (''Message'', TStr), (''Conditions'', TSlice (km_Condition X))]"

definition DeepCopyInto_SubscriberStatus :: "k8s_meta \<Rightarrow> copy" where
  "DeepCopyInto_SubscriberStatus X = copy_struct
     [(''Conditions'', make_into (km_Condition X) (into_Condition X))]"

definition DeepCopy_SubscriberStatus :: "k8s_meta \<Rightarrow> copy" where
  "DeepCopy_SubscriberStatus X = DeepCopy_of (SubscriberStatus_ty X) (DeepCopyInto_SubscriberStatus X)"

text \<open>\<open>Subscriber\<close>.\<close>

definition Subscriber_ty :: "k8s_meta \<Rightarrow> ty" where
  "Subscriber_ty X = TStruct
     [(''TypeMeta'', km_TypeMeta X), (''ObjectMeta'', km_ObjectMeta X), (''Spec'', SubscriberSpec_ty),
      (''Status'', SubscriberStatus_ty X)]"

definition DeepCopyInto_Subscriber :: "k8s_meta \<Rightarrow> copy" where
  "DeepCopyInto_Subscriber X = copy_struct
     [(''TypeMeta'', assign), (''ObjectMeta'', into_ObjectMeta X), (''Spec'', assign),
      (''Status'', DeepCopyInto_SubscriberStatus X)]"

definition DeepCopy_Subscriber :: "k8s_meta \<Rightarrow> copy" where
  "DeepCopy_Subscriber X = DeepCopy_of (Subscriber_ty X) (DeepCopyInto_Subscriber X)"

definition DeepCopyObject_Subscriber :: "k8s_meta \<Rightarrow> copy" where
  "DeepCopyObject_Subscriber X = DeepCopyObject_of (DeepCopy_Subscriber X)"

text \<open>\<open>SubscriberList\<close>.\<close>

definition SubscriberList_ty :: "k8s_meta \<Rightarrow> ty" where
  "SubscriberList_ty X = TStruct
     [(''TypeMeta'', km_TypeMeta X), (''ListMeta'', km_ListMeta X), (''Items'', TSlice (Subscriber_ty X))]"

definition DeepCopyInto_SubscriberList :: "k8s_meta \<Rightarrow> copy" where
  "DeepCopyInto_SubscriberList X = copy_struct
     [(''TypeMeta'', assign), (''ListMeta'', into_ListMeta X),
      (''Items'', make_into (Subscriber_ty X) (DeepCopyInto_Subscriber X))]"

definition DeepCopy_SubscriberList :: "k8s_meta \<Rightarrow> copy" where
  "DeepCopy_SubscriberList X = DeepCopy_of (SubscriberList_ty X) (DeepCopyInto_SubscriberList X)"

definition DeepCopyObject_SubscriberList :: "k8s_meta \<Rightarrow> copy" where
  "DeepCopyObject_SubscriberList X = DeepCopyObject_of (DeepCopy_SubscriberList X)"

text \<open>\<open>PlmnId\<close>.\<close>

definition PlmnId_ty :: ty where
  "PlmnId_ty = TStruct
     [(''Mcc'', TStr), (''Mnc'', TStr)]"

definition DeepCopyInto_PlmnId :: copy where
  "DeepCopyInto_PlmnId = copy_struct []"

definition DeepCopy_PlmnId :: copy where
  "DeepCopy_PlmnId = DeepCopy_of PlmnId_ty DeepCopyInto_PlmnId"

text \<open>\<open>GnbRef\<close>.\<close>

definition GnbRef_ty :: ty where
  "GnbRef_ty = TStruct
     [(''Name'', TStr), (''Tac'', TInt)]"

definition DeepCopyInto_GnbRef :: copy where
  "DeepCopyInto_GnbRef = copy_struct []"

definition DeepCopy_GnbRef :: copy where
  "DeepCopy_GnbRef = DeepCopy_of GnbRef_ty DeepCopyInto_GnbRef"

text \<open>\<open>SliceQos\<close>.\<close>

definition SliceQos_ty :: ty where
  "SliceQos_ty = TStruct
     [(''MbrUplink'', TInt), (''MbrDownlink'', TInt)]"

definition DeepCopyInto_SliceQos :: copy where
  "DeepCopyInto_SliceQos = copy_struct []"

definition DeepCopy_SliceQos :: copy where
  "DeepCopy_SliceQos = DeepCopy_of SliceQos_ty DeepCopyInto_SliceQos"

text \<open>\<open>NetworkSliceSpec\<close>.\<close>

definition NetworkSliceSpec_ty :: ty where
  "NetworkSliceSpec_ty = TStruct
     [(''Sst'', TStr), (''Sd'', TStr), (''Dnn'', TStr), (''UePool'', TStr), (''UpfName'', TStr),
      (''Plmn'', PlmnId_ty), (''Gnbs'', TSlice GnbRef_ty), (''Qos'', SliceQos_ty)]"

definition DeepCopyInto_NetworkSliceSpec :: copy where
  "DeepCopyInto_NetworkSliceSpec = copy_struct
     [(''Plmn'', assign), (''Gnbs'', make_copy GnbRef_ty), (''Qos'', assign)]"

definition DeepCopy_NetworkSliceSpec :: copy where
  "DeepCopy_NetworkSliceSpec = DeepCopy_of NetworkSliceSpec_ty DeepCopyInto_NetworkSliceSpec"

text \<open>\<open>NetworkSliceStatus\<close>.\<close>

definition NetworkSliceStatus_ty :: "k8s_meta \<Rightarrow> ty" where
  "NetworkSliceStatus_ty X = TStruct
     [(''Phase'', TStr), (''Message'', TStr), (''Provisioned'', TStr), (''Conditions'', TSlice (km_Condition X))]"

definition DeepCopyInto_NetworkSliceStatus :: "k8s_meta \<Rightarrow> copy" where
  "DeepCopyInto_NetworkSliceStatus X = copy_struct
     [(''Conditions'', make_into (km_Condition X) (into_Condition X))]"

definition DeepCopy_NetworkSliceStatus :: "k8s_meta \<Rightarrow> copy" where
  "DeepCopy_NetworkSliceStatus X = DeepCopy_of (NetworkSliceStatus_ty X) (DeepCopyInto_NetworkSliceStatus X)"

text \<open>\<open>NetworkSlice\<close>.\<close>

definition NetworkSlice_ty :: "k8s_meta \<Rightarrow> ty" where
  "NetworkSlice_ty X = TStruct
     [(''TypeMeta'', km_TypeMeta X), (''ObjectMeta'', km_ObjectMeta X), (''Spec'', NetworkSliceSpec_ty),
      (''Status'', NetworkSliceStatus_ty X)]"

definition DeepCopyInto_NetworkSlice :: "k8s_meta \<Rightarrow> copy" where
  "DeepCopyInto_NetworkSlice X = copy_struct
     [(''TypeMeta'', assign), (''ObjectMeta'', into_ObjectMeta X), (''Spec'', DeepCopyInto_NetworkSliceSpec),
      (''Status'', DeepCopyInto_NetworkSliceStatus X)]"

definition DeepCopy_NetworkSlice :: "k8s_meta \<Rightarrow> copy" where
  "DeepCopy_NetworkSlice X = DeepCopy_of (NetworkSlice_ty X) (DeepCopyInto_NetworkSlice X)"

definition DeepCopyObject_NetworkSlice :: "k8s_meta \<Rightarrow> copy" where
  "DeepCopyObject_NetworkSlice X = DeepCopyObject_of (DeepCopy_NetworkSlice X)"

text \<open>\<open>NetworkSliceList\<close>.\<close>

definition NetworkSliceList_ty :: "k8s_meta \<Rightarrow> ty" where
  "NetworkSliceList_ty X = TStruct
     [(''TypeMeta'', km_TypeMeta X), (''ListMeta'', km_ListMeta X), (''Items'', TSlice (NetworkSlice_ty X))]"

definition DeepCopyInto_NetworkSliceList :: "k8s_meta \<Rightarrow> copy" where
  "DeepCopyInto_NetworkSliceList X = copy_struct
     [(''TypeMeta'', assign), (''ListMeta'', into_ListMeta X),
      (''Items'', make_into (NetworkSlice_ty X) (DeepCopyInto_NetworkSlice X))]"

definition DeepCopy_NetworkSliceList :: "k8s_meta \<Rightarrow> copy" where
  "DeepCopy_NetworkSliceList X = DeepCopy_of (NetworkSliceList_ty X) (DeepCopyInto_NetworkSliceList X)"

definition DeepCopyObject_NetworkSliceList :: "k8s_meta \<Rightarrow> copy" where
  "DeepCopyObject_NetworkSliceList X = DeepCopyObject_of (DeepCopy_NetworkSliceList X)"

text \<open>\<open>UPFDataPathSpec\<close>.\<close>

definition UPFDataPathSpec_ty :: ty where
  "UPFDataPathSpec_ty = TStruct
     [(''UEPool'', TStr), (''AccessGateway'', TStr), (''CoreGateway'', TStr), (''CoreNextHop'', TStr),
      (''AccessBridge'', TStr), (''CoreBridge'', TStr), (''GnbIP'', TStr), (''EgressNic'', TStr), (''UPFLabel'', TStr)]"

definition DeepCopyInto_UPFDataPathSpec :: copy where
  "DeepCopyInto_UPFDataPathSpec = copy_struct []"

definition DeepCopy_UPFDataPathSpec :: copy where
  "DeepCopy_UPFDataPathSpec = DeepCopy_of UPFDataPathSpec_ty DeepCopyInto_UPFDataPathSpec"

text \<open>\<open>UPFDataPathStatus\<close>.\<close>

definition UPFDataPathStatus_ty :: "k8s_meta \<Rightarrow> ty" where
  "UPFDataPathStatus_ty X = TStruct
     [(''LastReconcile'', TStr), (''Node'', TStr), (''Conditions'', TSlice (km_Condition X))]"

definition DeepCopyInto_UPFDataPathStatus :: "k8s_meta \<Rightarrow> copy" where
  "DeepCopyInto_UPFDataPathStatus X = copy_struct
     [(''Conditions'', make_into (km_Condition X) (into_Condition X))]"

definition DeepCopy_UPFDataPathStatus :: "k8s_meta \<Rightarrow> copy" where
  "DeepCopy_UPFDataPathStatus X = DeepCopy_of (UPFDataPathStatus_ty X) (DeepCopyInto_UPFDataPathStatus X)"

text \<open>\<open>UPFDataPath\<close>.\<close>

definition UPFDataPath_ty :: "k8s_meta \<Rightarrow> ty" where
  "UPFDataPath_ty X = TStruct
     [(''TypeMeta'', km_TypeMeta X), (''ObjectMeta'', km_ObjectMeta X), (''Spec'', UPFDataPathSpec_ty),
      (''Status'', UPFDataPathStatus_ty X)]"

definition DeepCopyInto_UPFDataPath :: "k8s_meta \<Rightarrow> copy" where
  "DeepCopyInto_UPFDataPath X = copy_struct
     [(''TypeMeta'', assign), (''ObjectMeta'', into_ObjectMeta X), (''Spec'', assign),
      (''Status'', DeepCopyInto_UPFDataPathStatus X)]"

definition DeepCopy_UPFDataPath :: "k8s_meta \<Rightarrow> copy" where
  "DeepCopy_UPFDataPath X = DeepCopy_of (UPFDataPath_ty X) (DeepCopyInto_UPFDataPath X)"

definition DeepCopyObject_UPFDataPath :: "k8s_meta \<Rightarrow> copy" where
  "DeepCopyObject_UPFDataPath X = DeepCopyObject_of (DeepCopy_UPFDataPath X)"

text \<open>\<open>UPFDataPathList\<close>.\<close>

definition UPFDataPathList_ty :: "k8s_meta \<Rightarrow> ty" where
  "UPFDataPathList_ty X = TStruct
     [(''TypeMeta'', km_TypeMeta X), (''ListMeta'', km_ListMeta X), (''Items'', TSlice (UPFDataPath_ty X))]"

definition DeepCopyInto_UPFDataPathList :: "k8s_meta \<Rightarrow> copy" where
  "DeepCopyInto_UPFDataPathList X = copy_struct
     [(''TypeMeta'', assign), (''ListMeta'', into_ListMeta X),
      (''Items'', make_into (UPFDataPath_ty X) (DeepCopyInto_UPFDataPath X))]"

definition DeepCopy_UPFDataPathList :: "k8s_meta \<Rightarrow> copy" where
  "DeepCopy_UPFDataPathList X = DeepCopy_of (UPFDataPathList_ty X) (DeepCopyInto_UPFDataPathList X)"

definition DeepCopyObject_UPFDataPathList :: "k8s_meta \<Rightarrow> copy" where
  "DeepCopyObject_UPFDataPathList X = DeepCopyObject_of (DeepCopy_UPFDataPathList X)"

section \<open>Every function copies deeply\<close>

text \<open>What the functions rely on: the copy functions of the embedded types are deep, and \<open>TypeMeta\<close> holds no pointer.\<close>

locale k8s_deep_copies =
  fixes X :: k8s_meta
  assumes flat_TypeMeta: "flat (km_TypeMeta X)"
    and copies_ObjectMeta: "copies (km_ObjectMeta X) (into_ObjectMeta X)"
    and copies_ListMeta: "copies (km_ListMeta X) (into_ListMeta X)"
    and copies_Condition: "copies (km_Condition X) (into_Condition X)"
    and copies_RawExtension: "copies (km_RawExtension X) (into_RawExtension X)"
begin

lemmas copy_rules = copies_assign copies_new_into copies_make_into copies_make_copy copies_make_map
  copies_ObjectMeta copies_ListMeta copies_Condition copies_RawExtension flat_TypeMeta

lemma copies_RANCell: "copies RANCell_ty DeepCopyInto_RANCell"
  unfolding RANCell_ty_def DeepCopyInto_RANCell_def
  by (rule copies_struct) (simp add: covers_def copy_rules)

lemma copies_RANOfh: "copies RANOfh_ty DeepCopyInto_RANOfh"
  unfolding RANOfh_ty_def DeepCopyInto_RANOfh_def
  by (rule copies_struct) (simp add: covers_def copy_rules)

lemma copies_RANSpec: "copies RANSpec_ty DeepCopyInto_RANSpec"
  unfolding RANSpec_ty_def DeepCopyInto_RANSpec_def
  by (rule copies_struct) (simp add: covers_def copy_rules copies_RANCell copies_RANOfh RANCell_ty_def)

lemma copies_EdgeSiteSpec: "copies EdgeSiteSpec_ty DeepCopyInto_EdgeSiteSpec"
  unfolding EdgeSiteSpec_ty_def DeepCopyInto_EdgeSiteSpec_def
  by (rule copies_struct) (simp add: covers_def copy_rules copies_RANSpec)

lemma copies_EdgeSiteStatus: "copies (EdgeSiteStatus_ty X) (DeepCopyInto_EdgeSiteStatus X)"
  unfolding EdgeSiteStatus_ty_def DeepCopyInto_EdgeSiteStatus_def
  by (rule copies_struct) (simp add: covers_def copy_rules)

lemma copies_EdgeSite: "copies (EdgeSite_ty X) (DeepCopyInto_EdgeSite X)"
  unfolding EdgeSite_ty_def DeepCopyInto_EdgeSite_def
  by (rule copies_struct) (simp add: covers_def copy_rules copies_EdgeSiteSpec copies_EdgeSiteStatus)

lemma copies_EdgeSiteList: "copies (EdgeSiteList_ty X) (DeepCopyInto_EdgeSiteList X)"
  unfolding EdgeSiteList_ty_def DeepCopyInto_EdgeSiteList_def
  by (rule copies_struct) (simp add: covers_def copy_rules copies_EdgeSite)

lemma copies_MeshLinkSpec: "copies MeshLinkSpec_ty DeepCopyInto_MeshLinkSpec"
  unfolding MeshLinkSpec_ty_def DeepCopyInto_MeshLinkSpec_def
  by (rule copies_struct) (simp add: covers_def copy_rules)

lemma copies_MeshLinkStatus: "copies (MeshLinkStatus_ty X) (DeepCopyInto_MeshLinkStatus X)"
  unfolding MeshLinkStatus_ty_def DeepCopyInto_MeshLinkStatus_def
  by (rule copies_struct) (simp add: covers_def copy_rules)

lemma copies_MeshLink: "copies (MeshLink_ty X) (DeepCopyInto_MeshLink X)"
  unfolding MeshLink_ty_def DeepCopyInto_MeshLink_def
  by (rule copies_struct) (simp add: covers_def copy_rules copies_MeshLinkSpec copies_MeshLinkStatus MeshLinkSpec_ty_def)

lemma copies_MeshLinkList: "copies (MeshLinkList_ty X) (DeepCopyInto_MeshLinkList X)"
  unfolding MeshLinkList_ty_def DeepCopyInto_MeshLinkList_def
  by (rule copies_struct) (simp add: covers_def copy_rules copies_MeshLink)

lemma copies_FleetSite: "copies FleetSite_ty DeepCopyInto_FleetSite"
  unfolding FleetSite_ty_def DeepCopyInto_FleetSite_def
  by (rule copies_struct) (simp add: covers_def copy_rules copies_RANSpec)

lemma copies_FleetSpec: "copies FleetSpec_ty DeepCopyInto_FleetSpec"
  unfolding FleetSpec_ty_def DeepCopyInto_FleetSpec_def
  by (rule copies_struct) (simp add: covers_def copy_rules copies_FleetSite)

lemma copies_FleetStatus: "copies (FleetStatus_ty X) (DeepCopyInto_FleetStatus X)"
  unfolding FleetStatus_ty_def DeepCopyInto_FleetStatus_def
  by (rule copies_struct) (simp add: covers_def copy_rules)

lemma copies_Fleet: "copies (Fleet_ty X) (DeepCopyInto_Fleet X)"
  unfolding Fleet_ty_def DeepCopyInto_Fleet_def
  by (rule copies_struct) (simp add: covers_def copy_rules copies_FleetSpec copies_FleetStatus)

lemma copies_FleetList: "copies (FleetList_ty X) (DeepCopyInto_FleetList X)"
  unfolding FleetList_ty_def DeepCopyInto_FleetList_def
  by (rule copies_struct) (simp add: covers_def copy_rules copies_Fleet)

lemma copies_FabricPrefix: "copies FabricPrefix_ty DeepCopyInto_FabricPrefix"
  unfolding FabricPrefix_ty_def DeepCopyInto_FabricPrefix_def
  by (rule copies_struct) (simp add: covers_def copy_rules)

lemma copies_NetworkFabricSpec: "copies NetworkFabricSpec_ty DeepCopyInto_NetworkFabricSpec"
  unfolding NetworkFabricSpec_ty_def DeepCopyInto_NetworkFabricSpec_def
  by (rule copies_struct) (simp add: covers_def copy_rules copies_FabricPrefix)

lemma copies_NetworkFabricStatus: "copies (NetworkFabricStatus_ty X) (DeepCopyInto_NetworkFabricStatus X)"
  unfolding NetworkFabricStatus_ty_def DeepCopyInto_NetworkFabricStatus_def
  by (rule copies_struct) (simp add: covers_def copy_rules)

lemma copies_NetworkFabric: "copies (NetworkFabric_ty X) (DeepCopyInto_NetworkFabric X)"
  unfolding NetworkFabric_ty_def DeepCopyInto_NetworkFabric_def
  by (rule copies_struct) (simp add: covers_def copy_rules copies_NetworkFabricSpec copies_NetworkFabricStatus)

lemma copies_NetworkFabricList: "copies (NetworkFabricList_ty X) (DeepCopyInto_NetworkFabricList X)"
  unfolding NetworkFabricList_ty_def DeepCopyInto_NetworkFabricList_def
  by (rule copies_struct) (simp add: covers_def copy_rules copies_NetworkFabric)

lemma copies_SDCoreDeploymentSpec: "copies (SDCoreDeploymentSpec_ty X) (DeepCopyInto_SDCoreDeploymentSpec X)"
  unfolding SDCoreDeploymentSpec_ty_def DeepCopyInto_SDCoreDeploymentSpec_def
  by (rule copies_struct) (simp add: covers_def copy_rules)

lemma copies_SDCoreDeploymentStatus: "copies (SDCoreDeploymentStatus_ty X) (DeepCopyInto_SDCoreDeploymentStatus X)"
  unfolding SDCoreDeploymentStatus_ty_def DeepCopyInto_SDCoreDeploymentStatus_def
  by (rule copies_struct) (simp add: covers_def copy_rules)

lemma copies_SDCoreDeployment: "copies (SDCoreDeployment_ty X) (DeepCopyInto_SDCoreDeployment X)"
  unfolding SDCoreDeployment_ty_def DeepCopyInto_SDCoreDeployment_def
  by (rule copies_struct) (simp add: covers_def copy_rules copies_SDCoreDeploymentSpec copies_SDCoreDeploymentStatus)

lemma copies_SDCoreDeploymentList: "copies (SDCoreDeploymentList_ty X) (DeepCopyInto_SDCoreDeploymentList X)"
  unfolding SDCoreDeploymentList_ty_def DeepCopyInto_SDCoreDeploymentList_def
  by (rule copies_struct) (simp add: covers_def copy_rules copies_SDCoreDeployment)

lemma copies_SubscriberSpec: "copies SubscriberSpec_ty DeepCopyInto_SubscriberSpec"
  unfolding SubscriberSpec_ty_def DeepCopyInto_SubscriberSpec_def
  by (rule copies_struct) (simp add: covers_def copy_rules)

lemma copies_SubscriberStatus: "copies (SubscriberStatus_ty X) (DeepCopyInto_SubscriberStatus X)"
  unfolding SubscriberStatus_ty_def DeepCopyInto_SubscriberStatus_def
  by (rule copies_struct) (simp add: covers_def copy_rules)

lemma copies_Subscriber: "copies (Subscriber_ty X) (DeepCopyInto_Subscriber X)"
  unfolding Subscriber_ty_def DeepCopyInto_Subscriber_def
  by (rule copies_struct) (simp add: covers_def copy_rules copies_SubscriberSpec copies_SubscriberStatus SubscriberSpec_ty_def)

lemma copies_SubscriberList: "copies (SubscriberList_ty X) (DeepCopyInto_SubscriberList X)"
  unfolding SubscriberList_ty_def DeepCopyInto_SubscriberList_def
  by (rule copies_struct) (simp add: covers_def copy_rules copies_Subscriber)

lemma copies_PlmnId: "copies PlmnId_ty DeepCopyInto_PlmnId"
  unfolding PlmnId_ty_def DeepCopyInto_PlmnId_def
  by (rule copies_struct) (simp add: covers_def copy_rules)

lemma copies_GnbRef: "copies GnbRef_ty DeepCopyInto_GnbRef"
  unfolding GnbRef_ty_def DeepCopyInto_GnbRef_def
  by (rule copies_struct) (simp add: covers_def copy_rules)

lemma copies_SliceQos: "copies SliceQos_ty DeepCopyInto_SliceQos"
  unfolding SliceQos_ty_def DeepCopyInto_SliceQos_def
  by (rule copies_struct) (simp add: covers_def copy_rules)

lemma copies_NetworkSliceSpec: "copies NetworkSliceSpec_ty DeepCopyInto_NetworkSliceSpec"
  unfolding NetworkSliceSpec_ty_def DeepCopyInto_NetworkSliceSpec_def
  by (rule copies_struct) (simp add: covers_def copy_rules copies_PlmnId copies_GnbRef copies_SliceQos PlmnId_ty_def GnbRef_ty_def SliceQos_ty_def)

lemma copies_NetworkSliceStatus: "copies (NetworkSliceStatus_ty X) (DeepCopyInto_NetworkSliceStatus X)"
  unfolding NetworkSliceStatus_ty_def DeepCopyInto_NetworkSliceStatus_def
  by (rule copies_struct) (simp add: covers_def copy_rules)

lemma copies_NetworkSlice: "copies (NetworkSlice_ty X) (DeepCopyInto_NetworkSlice X)"
  unfolding NetworkSlice_ty_def DeepCopyInto_NetworkSlice_def
  by (rule copies_struct) (simp add: covers_def copy_rules copies_NetworkSliceSpec copies_NetworkSliceStatus)

lemma copies_NetworkSliceList: "copies (NetworkSliceList_ty X) (DeepCopyInto_NetworkSliceList X)"
  unfolding NetworkSliceList_ty_def DeepCopyInto_NetworkSliceList_def
  by (rule copies_struct) (simp add: covers_def copy_rules copies_NetworkSlice)

lemma copies_UPFDataPathSpec: "copies UPFDataPathSpec_ty DeepCopyInto_UPFDataPathSpec"
  unfolding UPFDataPathSpec_ty_def DeepCopyInto_UPFDataPathSpec_def
  by (rule copies_struct) (simp add: covers_def copy_rules)

lemma copies_UPFDataPathStatus: "copies (UPFDataPathStatus_ty X) (DeepCopyInto_UPFDataPathStatus X)"
  unfolding UPFDataPathStatus_ty_def DeepCopyInto_UPFDataPathStatus_def
  by (rule copies_struct) (simp add: covers_def copy_rules)

lemma copies_UPFDataPath: "copies (UPFDataPath_ty X) (DeepCopyInto_UPFDataPath X)"
  unfolding UPFDataPath_ty_def DeepCopyInto_UPFDataPath_def
  by (rule copies_struct) (simp add: covers_def copy_rules copies_UPFDataPathSpec copies_UPFDataPathStatus UPFDataPathSpec_ty_def)

lemma copies_UPFDataPathList: "copies (UPFDataPathList_ty X) (DeepCopyInto_UPFDataPathList X)"
  unfolding UPFDataPathList_ty_def DeepCopyInto_UPFDataPathList_def
  by (rule copies_struct) (simp add: covers_def copy_rules copies_UPFDataPath)

end

section \<open>All types at once\<close>

text \<open>Every type of the API group with its \<open>DeepCopyInto\<close> and \<open>DeepCopy\<close>; the objects with their \<open>DeepCopyObject\<close>.\<close>

definition api_types :: "k8s_meta \<Rightarrow> (string \<times> ty \<times> copy \<times> copy) list" where
  "api_types X =
     [(''RANCell'', RANCell_ty, DeepCopyInto_RANCell, DeepCopy_RANCell),
      (''RANOfh'', RANOfh_ty, DeepCopyInto_RANOfh, DeepCopy_RANOfh),
      (''RANSpec'', RANSpec_ty, DeepCopyInto_RANSpec, DeepCopy_RANSpec),
      (''EdgeSiteSpec'', EdgeSiteSpec_ty, DeepCopyInto_EdgeSiteSpec, DeepCopy_EdgeSiteSpec),
      (''EdgeSiteStatus'', EdgeSiteStatus_ty X, DeepCopyInto_EdgeSiteStatus X, DeepCopy_EdgeSiteStatus X),
      (''EdgeSite'', EdgeSite_ty X, DeepCopyInto_EdgeSite X, DeepCopy_EdgeSite X),
      (''EdgeSiteList'', EdgeSiteList_ty X, DeepCopyInto_EdgeSiteList X, DeepCopy_EdgeSiteList X),
      (''MeshLinkSpec'', MeshLinkSpec_ty, DeepCopyInto_MeshLinkSpec, DeepCopy_MeshLinkSpec),
      (''MeshLinkStatus'', MeshLinkStatus_ty X, DeepCopyInto_MeshLinkStatus X, DeepCopy_MeshLinkStatus X),
      (''MeshLink'', MeshLink_ty X, DeepCopyInto_MeshLink X, DeepCopy_MeshLink X),
      (''MeshLinkList'', MeshLinkList_ty X, DeepCopyInto_MeshLinkList X, DeepCopy_MeshLinkList X),
      (''FleetSite'', FleetSite_ty, DeepCopyInto_FleetSite, DeepCopy_FleetSite),
      (''FleetSpec'', FleetSpec_ty, DeepCopyInto_FleetSpec, DeepCopy_FleetSpec),
      (''FleetStatus'', FleetStatus_ty X, DeepCopyInto_FleetStatus X, DeepCopy_FleetStatus X),
      (''Fleet'', Fleet_ty X, DeepCopyInto_Fleet X, DeepCopy_Fleet X),
      (''FleetList'', FleetList_ty X, DeepCopyInto_FleetList X, DeepCopy_FleetList X),
      (''FabricPrefix'', FabricPrefix_ty, DeepCopyInto_FabricPrefix, DeepCopy_FabricPrefix),
      (''NetworkFabricSpec'', NetworkFabricSpec_ty, DeepCopyInto_NetworkFabricSpec, DeepCopy_NetworkFabricSpec),
      (''NetworkFabricStatus'', NetworkFabricStatus_ty X, DeepCopyInto_NetworkFabricStatus X, DeepCopy_NetworkFabricStatus X),
      (''NetworkFabric'', NetworkFabric_ty X, DeepCopyInto_NetworkFabric X, DeepCopy_NetworkFabric X),
      (''NetworkFabricList'', NetworkFabricList_ty X, DeepCopyInto_NetworkFabricList X, DeepCopy_NetworkFabricList X),
      (''SDCoreDeploymentSpec'', SDCoreDeploymentSpec_ty X, DeepCopyInto_SDCoreDeploymentSpec X, DeepCopy_SDCoreDeploymentSpec X),
      (''SDCoreDeploymentStatus'', SDCoreDeploymentStatus_ty X, DeepCopyInto_SDCoreDeploymentStatus X, DeepCopy_SDCoreDeploymentStatus X),
      (''SDCoreDeployment'', SDCoreDeployment_ty X, DeepCopyInto_SDCoreDeployment X, DeepCopy_SDCoreDeployment X),
      (''SDCoreDeploymentList'', SDCoreDeploymentList_ty X, DeepCopyInto_SDCoreDeploymentList X, DeepCopy_SDCoreDeploymentList X),
      (''SubscriberSpec'', SubscriberSpec_ty, DeepCopyInto_SubscriberSpec, DeepCopy_SubscriberSpec),
      (''SubscriberStatus'', SubscriberStatus_ty X, DeepCopyInto_SubscriberStatus X, DeepCopy_SubscriberStatus X),
      (''Subscriber'', Subscriber_ty X, DeepCopyInto_Subscriber X, DeepCopy_Subscriber X),
      (''SubscriberList'', SubscriberList_ty X, DeepCopyInto_SubscriberList X, DeepCopy_SubscriberList X),
      (''PlmnId'', PlmnId_ty, DeepCopyInto_PlmnId, DeepCopy_PlmnId),
      (''GnbRef'', GnbRef_ty, DeepCopyInto_GnbRef, DeepCopy_GnbRef),
      (''SliceQos'', SliceQos_ty, DeepCopyInto_SliceQos, DeepCopy_SliceQos),
      (''NetworkSliceSpec'', NetworkSliceSpec_ty, DeepCopyInto_NetworkSliceSpec, DeepCopy_NetworkSliceSpec),
      (''NetworkSliceStatus'', NetworkSliceStatus_ty X, DeepCopyInto_NetworkSliceStatus X, DeepCopy_NetworkSliceStatus X),
      (''NetworkSlice'', NetworkSlice_ty X, DeepCopyInto_NetworkSlice X, DeepCopy_NetworkSlice X),
      (''NetworkSliceList'', NetworkSliceList_ty X, DeepCopyInto_NetworkSliceList X, DeepCopy_NetworkSliceList X),
      (''UPFDataPathSpec'', UPFDataPathSpec_ty, DeepCopyInto_UPFDataPathSpec, DeepCopy_UPFDataPathSpec),
      (''UPFDataPathStatus'', UPFDataPathStatus_ty X, DeepCopyInto_UPFDataPathStatus X, DeepCopy_UPFDataPathStatus X),
      (''UPFDataPath'', UPFDataPath_ty X, DeepCopyInto_UPFDataPath X, DeepCopy_UPFDataPath X),
      (''UPFDataPathList'', UPFDataPathList_ty X, DeepCopyInto_UPFDataPathList X, DeepCopy_UPFDataPathList X)]"

definition api_objects :: "k8s_meta \<Rightarrow> (string \<times> ty \<times> copy) list" where
  "api_objects X =
     [(''EdgeSite'', EdgeSite_ty X, DeepCopyObject_EdgeSite X),
      (''EdgeSiteList'', EdgeSiteList_ty X, DeepCopyObject_EdgeSiteList X),
      (''MeshLink'', MeshLink_ty X, DeepCopyObject_MeshLink X),
      (''MeshLinkList'', MeshLinkList_ty X, DeepCopyObject_MeshLinkList X),
      (''Fleet'', Fleet_ty X, DeepCopyObject_Fleet X),
      (''FleetList'', FleetList_ty X, DeepCopyObject_FleetList X),
      (''NetworkFabric'', NetworkFabric_ty X, DeepCopyObject_NetworkFabric X),
      (''NetworkFabricList'', NetworkFabricList_ty X, DeepCopyObject_NetworkFabricList X),
      (''SDCoreDeployment'', SDCoreDeployment_ty X, DeepCopyObject_SDCoreDeployment X),
      (''SDCoreDeploymentList'', SDCoreDeploymentList_ty X, DeepCopyObject_SDCoreDeploymentList X),
      (''Subscriber'', Subscriber_ty X, DeepCopyObject_Subscriber X),
      (''SubscriberList'', SubscriberList_ty X, DeepCopyObject_SubscriberList X),
      (''NetworkSlice'', NetworkSlice_ty X, DeepCopyObject_NetworkSlice X),
      (''NetworkSliceList'', NetworkSliceList_ty X, DeepCopyObject_NetworkSliceList X),
      (''UPFDataPath'', UPFDataPath_ty X, DeepCopyObject_UPFDataPath X),
      (''UPFDataPathList'', UPFDataPathList_ty X, DeepCopyObject_UPFDataPathList X)]"

lemmas DeepCopy_defs = DeepCopy_RANCell_def DeepCopy_RANOfh_def DeepCopy_RANSpec_def DeepCopy_EdgeSiteSpec_def
  DeepCopy_EdgeSiteStatus_def DeepCopy_EdgeSite_def DeepCopy_EdgeSiteList_def DeepCopy_MeshLinkSpec_def
  DeepCopy_MeshLinkStatus_def DeepCopy_MeshLink_def DeepCopy_MeshLinkList_def DeepCopy_FleetSite_def
  DeepCopy_FleetSpec_def DeepCopy_FleetStatus_def DeepCopy_Fleet_def DeepCopy_FleetList_def
  DeepCopy_FabricPrefix_def DeepCopy_NetworkFabricSpec_def DeepCopy_NetworkFabricStatus_def
  DeepCopy_NetworkFabric_def DeepCopy_NetworkFabricList_def DeepCopy_SDCoreDeploymentSpec_def
  DeepCopy_SDCoreDeploymentStatus_def DeepCopy_SDCoreDeployment_def DeepCopy_SDCoreDeploymentList_def
  DeepCopy_SubscriberSpec_def DeepCopy_SubscriberStatus_def DeepCopy_Subscriber_def
  DeepCopy_SubscriberList_def DeepCopy_PlmnId_def DeepCopy_GnbRef_def DeepCopy_SliceQos_def
  DeepCopy_NetworkSliceSpec_def DeepCopy_NetworkSliceStatus_def DeepCopy_NetworkSlice_def
  DeepCopy_NetworkSliceList_def DeepCopy_UPFDataPathSpec_def DeepCopy_UPFDataPathStatus_def
  DeepCopy_UPFDataPath_def DeepCopy_UPFDataPathList_def

lemmas DeepCopyObject_defs = DeepCopyObject_EdgeSite_def DeepCopyObject_EdgeSiteList_def DeepCopyObject_MeshLink_def
  DeepCopyObject_MeshLinkList_def DeepCopyObject_Fleet_def DeepCopyObject_FleetList_def
  DeepCopyObject_NetworkFabric_def DeepCopyObject_NetworkFabricList_def DeepCopyObject_SDCoreDeployment_def
  DeepCopyObject_SDCoreDeploymentList_def DeepCopyObject_Subscriber_def DeepCopyObject_SubscriberList_def
  DeepCopyObject_NetworkSlice_def DeepCopyObject_NetworkSliceList_def DeepCopyObject_UPFDataPath_def
  DeepCopyObject_UPFDataPathList_def

context k8s_deep_copies
begin

lemmas copies_all = copies_RANCell copies_RANOfh copies_RANSpec copies_EdgeSiteSpec copies_EdgeSiteStatus copies_EdgeSite
  copies_EdgeSiteList copies_MeshLinkSpec copies_MeshLinkStatus copies_MeshLink copies_MeshLinkList
  copies_FleetSite copies_FleetSpec copies_FleetStatus copies_Fleet copies_FleetList copies_FabricPrefix
  copies_NetworkFabricSpec copies_NetworkFabricStatus copies_NetworkFabric copies_NetworkFabricList
  copies_SDCoreDeploymentSpec copies_SDCoreDeploymentStatus copies_SDCoreDeployment
  copies_SDCoreDeploymentList copies_SubscriberSpec copies_SubscriberStatus copies_Subscriber
  copies_SubscriberList copies_PlmnId copies_GnbRef copies_SliceQos copies_NetworkSliceSpec
  copies_NetworkSliceStatus copies_NetworkSlice copies_NetworkSliceList copies_UPFDataPathSpec
  copies_UPFDataPathStatus copies_UPFDataPath copies_UPFDataPathList

lemma api_types_copies: "(n, t, into, dc) \<in> set (api_types X) \<Longrightarrow> copies t into \<and> dc = DeepCopy_of t into"
proof -
  have "list_all (\<lambda>(n, t, into, dc). copies t into \<and> dc = DeepCopy_of t into) (api_types X)"
    by (simp add: api_types_def DeepCopy_defs copies_all)
  then show "(n, t, into, dc) \<in> set (api_types X) \<Longrightarrow> copies t into \<and> dc = DeepCopy_of t into"
    by (auto simp: list_all_iff)
qed

lemma api_objects_copies: "(n, t, dco) \<in> set (api_objects X) \<Longrightarrow> copies (TPtr t) dco"
proof -
  have "list_all (\<lambda>(n, t, dco). copies (TPtr t) dco) (api_objects X)"
    by (simp add: api_objects_def DeepCopyObject_defs DeepCopy_defs copies_DeepCopy copies_all)
  then show "(n, t, dco) \<in> set (api_objects X) \<Longrightarrow> copies (TPtr t) dco" by (auto simp: list_all_iff)
qed

end

section \<open>An instance of the embedded types\<close>

text \<open>
  The fields of the embedded types that matter for sharing, with copy functions of the same forms. It shows that
  the laws can hold, and the properties below are applied to it.
\<close>

definition lab_OwnerReference_ty :: ty where
  "lab_OwnerReference_ty = TStruct [(''APIVersion'', TStr), (''Kind'', TStr), (''Name'', TStr), (''UID'', TStr),
     (''Controller'', TPtr TBool), (''BlockOwnerDeletion'', TPtr TBool)]"

definition lab_into_OwnerReference :: copy where
  "lab_into_OwnerReference = copy_struct [(''Controller'', new_into TBool assign), (''BlockOwnerDeletion'', new_into TBool assign)]"

definition lab_ObjectMeta_ty :: ty where
  "lab_ObjectMeta_ty = TStruct [(''Name'', TStr), (''Namespace'', TStr), (''Generation'', TInt), (''Labels'', TMap TStr),
     (''OwnerReferences'', TSlice lab_OwnerReference_ty), (''Finalizers'', TSlice TStr), (''DeletionTimestamp'', TPtr TInt)]"

definition lab_into_ObjectMeta :: copy where
  "lab_into_ObjectMeta = copy_struct [(''Labels'', make_map), (''OwnerReferences'', make_into lab_OwnerReference_ty lab_into_OwnerReference),
     (''Finalizers'', make_copy TStr), (''DeletionTimestamp'', new_into TInt assign)]"

definition lab_meta :: k8s_meta where
  "lab_meta = \<lparr>km_TypeMeta = TStruct [(''Kind'', TStr), (''APIVersion'', TStr)], km_ObjectMeta = lab_ObjectMeta_ty,
     km_ListMeta = TStruct [(''ResourceVersion'', TStr), (''RemainingItemCount'', TPtr TInt)],
     km_Condition = TStruct [(''Type'', TStr), (''Status'', TStr), (''Reason'', TStr), (''Message'', TStr)],
     km_RawExtension = TStruct [(''Raw'', TSlice TInt)],
     into_ObjectMeta = lab_into_ObjectMeta,
     into_ListMeta = copy_struct [(''RemainingItemCount'', new_into TInt assign)],
     into_Condition = copy_struct [],
     into_RawExtension = copy_struct [(''Raw'', make_copy TInt)]\<rparr>"

lemma copies_lab_OwnerReference: "copies lab_OwnerReference_ty lab_into_OwnerReference"
  unfolding lab_OwnerReference_ty_def lab_into_OwnerReference_def
  by (rule copies_struct) (simp add: covers_def copies_new_into copies_assign)

lemma copies_lab_ObjectMeta: "copies lab_ObjectMeta_ty lab_into_ObjectMeta"
  unfolding lab_ObjectMeta_ty_def lab_into_ObjectMeta_def
  by (rule copies_struct) (simp add: covers_def copies_new_into copies_assign copies_make_into copies_make_copy copies_make_map
    copies_lab_OwnerReference)

interpretation lab_copies: k8s_deep_copies lab_meta
proof unfold_locales
  show "copies (km_ObjectMeta lab_meta) (into_ObjectMeta lab_meta)" by (simp add: lab_meta_def copies_lab_ObjectMeta)
  show "copies (km_ListMeta lab_meta) (into_ListMeta lab_meta)" "copies (km_Condition lab_meta) (into_Condition lab_meta)"
    "copies (km_RawExtension lab_meta) (into_RawExtension lab_meta)"
    by (auto simp: lab_meta_def covers_def copies_new_into copies_assign copies_make_copy intro!: copies_struct)
qed (simp add: lab_meta_def)

text \<open>A site with a radio, whose memory holds a flag, a list of antenna ports, the fronthaul and the radio.\<close>

definition lab_memory :: mem where
  "lab_memory = [Obj (VBool True), Arr [VInt 0, VInt 1],
     Obj (VStruct [(''Interface'', VStr ''ens1''), (''RuMac'', VStr []), (''DuMac'', VStr []), (''VlanTag'', VInt 3), (''EalArgs'', VStr []),
       (''PrachPortId'', VNil), (''DlPortId'', VRef 1), (''UlPortId'', VRef 1)]),
     Obj (VStruct [(''Stack'', VStr ''ocudu''), (''Enabled'', VRef 0), (''Split'', VStr ''7.2''), (''Device'', VStr []), (''Config'', VStr []),
       (''LdLibraryPath'', VStr []), (''Cpuset'', VStr []), (''RadioAddr'', VStr []), (''RadioNic'', VStr []),
       (''Cell'', VStruct [(''Band'', VStr ''n78''), (''DlArfcn'', VInt 640000), (''BandwidthMHz'', VInt 40), (''CommonScs'', VInt 30),
         (''Pci'', VInt 1), (''Antennas'', VInt 2)]),
       (''Ofh'', VRef 2)])]"

definition lab_tree :: tree where
  "lab_tree = APtr (AStruct [(''Stack'', AStr ''ocudu''), (''Enabled'', APtr (ABool True)), (''Split'', AStr ''7.2''), (''Device'', AStr []),
     (''Config'', AStr []), (''LdLibraryPath'', AStr []), (''Cpuset'', AStr []), (''RadioAddr'', AStr []), (''RadioNic'', AStr []),
     (''Cell'', AStruct [(''Band'', AStr ''n78''), (''DlArfcn'', AInt 640000), (''BandwidthMHz'', AInt 40), (''CommonScs'', AInt 30),
       (''Pci'', AInt 1), (''Antennas'', AInt 2)]),
     (''Ofh'', APtr (AStruct [(''Interface'', AStr ''ens1''), (''RuMac'', AStr []), (''DuMac'', AStr []), (''VlanTag'', AInt 3), (''EalArgs'', AStr []),
       (''PrachPortId'', ANil), (''DlPortId'', ASlice [AInt 0, AInt 1]), (''UlPortId'', ASlice [AInt 0, AInt 1])]))])"

lemma view_lab_memory: "view lab_memory (TPtr RANSpec_ty) (VRef 3) = Some (lab_tree, [3, 0, 2, 1, 1])"
  by (simp add: lab_memory_def lab_tree_def RANSpec_ty_def RANCell_ty_def RANOfh_ty_def cell_at_def under_def both_def)

section \<open>Properties\<close>

text \<open>C18. The generated copy functions refine the identity on trees of values: for every type of the API group,
  \<open>DeepCopy\<close> (and \<open>DeepCopyObject\<close>, for the types that have it) of any pointer, nil included, to a value of that type changes no
  cell that exists, and returns a pointer to a value of the same type that stands for the same tree, occupies
  only new cells, and no cell twice even where the original shares one.\<close>

theorem generated_copies_refine_identity:
  assumes "k8s_deep_copies X"
    and "(n, t, into, dc) \<in> set (api_types X) \<or> (n, t, dc) \<in> set (api_objects X)"
    and "view m (TPtr t) p = Some (x, as)"
  shows "\<exists>q e bs. run_state (dc p) m = (q, m @ e) \<and> view (m @ e) (TPtr t) q = Some (x, bs) \<and> distinct bs
     \<and> set bs \<subseteq> {length m ..< length m + length e}"
proof -
  have "copies (TPtr t) dc"
    using assms(2) k8s_deep_copies.api_types_copies [OF assms(1)] k8s_deep_copies.api_objects_copies [OF assms(1)] copies_DeepCopy
    by metis
  then show ?thesis using assms(3) by (auto elim: copiesE)
qed

theorem generated_copies_refine_identity_witness:
  "\<exists>q e bs. run_state (DeepCopy_RANSpec (VRef 3)) lab_memory = (q, lab_memory @ e)
     \<and> view (lab_memory @ e) (TPtr RANSpec_ty) q = Some (lab_tree, bs) \<and> distinct bs
     \<and> set bs \<subseteq> {length lab_memory ..< length lab_memory + length e}"
  by (rule generated_copies_refine_identity [OF lab_copies.k8s_deep_copies_axioms _ view_lab_memory,
      of "''RANSpec''" DeepCopyInto_RANSpec DeepCopy_RANSpec]) (simp add: api_types_def)

text \<open>C21. An object and its deep copy are isolated. Whatever a program that holds one of them does afterwards (it may write every cell
  it can reach there, and allocate and write new ones), the other still stands for the tree it stood for: a
  reconcile that changes the object it was given cannot change the informer cache, and reading the server's version
  into the copy cannot change the object that is about to be written.\<close>

theorem deep_copies_are_isolated:
  assumes "k8s_deep_copies X" and "(n, t, dco) \<in> set (api_objects X)" and "view m (TPtr t) p = Some (x, as)"
  shows "\<exists>q e bs. run_state (dco p) m = (q, m @ e) \<and> view (m @ e) (TPtr t) q = Some (x, bs) \<and> set as \<inter> set bs = {}
     \<and> (\<forall>m'. writes_within (set bs) (m @ e) m' \<longrightarrow> view m' (TPtr t) p = Some (x, as))
     \<and> (\<forall>m'. writes_within (set as) (m @ e) m' \<longrightarrow> view m' (TPtr t) q = Some (x, bs))"
  by (rule copies_isolated [OF k8s_deep_copies.api_objects_copies [OF assms(1,2)] assms(3)]) blast

text \<open>A subscriber in a slice, and what becomes of it when its copy gets another label.\<close>

definition lab_subscriber :: mem where
  "lab_subscriber = [Entries [(''tier'', VStr ''gold'')],
     Obj (VStruct [(''TypeMeta'', VStruct [(''Kind'', VStr ''Subscriber''), (''APIVersion'', VStr [])]),
       (''ObjectMeta'', VStruct [(''Name'', VStr ''ue1''), (''Namespace'', VStr ''default''), (''Generation'', VInt 1), (''Labels'', VRef 0),
         (''OwnerReferences'', VNil), (''Finalizers'', VNil), (''DeletionTimestamp'', VNil)]),
       (''Spec'', VStruct [(''IMSI'', VStr ''001''), (''Key'', VStr []), (''Opc'', VStr []), (''SliceRef'', VStr ''s1''), (''SequenceNumber'', VStr [])]),
       (''Status'', VStruct [(''Phase'', VStr []), (''Message'', VStr []), (''Conditions'', VNil)])])]"

definition lab_subscriber_tree :: tree where
  "lab_subscriber_tree = APtr (AStruct [(''TypeMeta'', AStruct [(''Kind'', AStr ''Subscriber''), (''APIVersion'', AStr [])]),
     (''ObjectMeta'', AStruct [(''Name'', AStr ''ue1''), (''Namespace'', AStr ''default''), (''Generation'', AInt 1),
       (''Labels'', AMap [(''tier'', AStr ''gold'')]), (''OwnerReferences'', ANil), (''Finalizers'', ANil), (''DeletionTimestamp'', ANil)]),
     (''Spec'', AStruct [(''IMSI'', AStr ''001''), (''Key'', AStr []), (''Opc'', AStr []), (''SliceRef'', AStr ''s1''), (''SequenceNumber'', AStr [])]),
     (''Status'', AStruct [(''Phase'', AStr []), (''Message'', AStr []), (''Conditions'', ANil)])])"

lemma view_lab_subscriber: "view lab_subscriber (TPtr (Subscriber_ty lab_meta)) (VRef 1) = Some (lab_subscriber_tree, [1, 0])"
  by (simp add: lab_subscriber_def lab_subscriber_tree_def Subscriber_ty_def SubscriberSpec_ty_def SubscriberStatus_ty_def lab_meta_def
    lab_ObjectMeta_ty_def cell_at_def under_def both_def)

theorem deep_copies_are_isolated_witness:
  "\<exists>q e bs. run_state (DeepCopyObject_Subscriber lab_meta (VRef 1)) lab_subscriber = (q, lab_subscriber @ e)
     \<and> view (lab_subscriber @ e) (TPtr (Subscriber_ty lab_meta)) q = Some (lab_subscriber_tree, bs) \<and> {1, 0} \<inter> set bs = {}
     \<and> (\<forall>m'. writes_within (set bs) (lab_subscriber @ e) m' \<longrightarrow> view m' (TPtr (Subscriber_ty lab_meta)) (VRef 1) = Some (lab_subscriber_tree, [1, 0]))"
  using deep_copies_are_isolated [OF lab_copies.k8s_deep_copies_axioms _ view_lab_subscriber, of "''Subscriber''" "DeepCopyObject_Subscriber lab_meta"]
  by (simp add: api_objects_def) blast

end
