(* ===== verification/Operator_Main.thy ===== *)
theory Operator_Main
  imports EdgeSite_Controller Slice_Controller
begin

text \<open>
  The operator's entry point: \<open>cmd/main.go\<close>, the scheme of \<open>api/v1alpha1\<close> (\<open>groupversion_info.go\<close> and the
  \<open>init\<close> functions of the type files) and the \<open>SetupWithManager\<close> functions of the controllers. The flag package
  is modelled; the manager, the scheme and the clientset are controller-runtime and client-go, records of
  operations with the laws the entry point relies on. Logging is left out. What a controller asks the manager for
  is a value of \<open>controller\<close>, which \<open>Controller_Events\<close> reads as a function from events to reconcile requests.
\<close>

section \<open>Go types and the scheme\<close>

text \<open>A Go type by package and name. A scheme maps Go types to the kinds they are registered as.\<close>

type_synonym gotype = "string \<times> string"

definition sdcore_type :: "string \<Rightarrow> gotype" where
  "sdcore_type name = (''api/v1alpha1'', name)"

definition nephio_type :: "string \<Rightarrow> gotype" where
  "nephio_type name = (''nephio-project/api/workload/v1alpha1'', name)"

definition meta_package :: string where
  "meta_package = ''k8s.io/apimachinery/pkg/apis/meta/v1''"

text \<open>
  \<open>runtime.Scheme\<close> and the \<open>AddToScheme\<close> functions that are not code of the repository. A function of a
  scheme that can fail returns its error with the scheme as it left it.
\<close>

record 's scheme_api =
  sch_new :: 's
  AddKnownTypes :: "string \<times> string \<Rightarrow> gotype list \<Rightarrow> 's \<Rightarrow> 's"
  AddToGroupVersion :: "string \<times> string \<Rightarrow> 's \<Rightarrow> 's"
  clientgo_AddToScheme :: "'s \<Rightarrow> error option \<times> 's"
  nephio_AddToScheme :: "'s \<Rightarrow> error option \<times> 's"
  sch_kind :: "'s \<Rightarrow> gotype \<Rightarrow> GVK option"

definition sdcore_GroupVersion :: "string \<times> string" where
  "sdcore_GroupVersion = (''sdcore.nephio.io'', ''v1alpha1'')"

definition nephio_GroupVersion :: "string \<times> string" where
  "nephio_GroupVersion = (''workload.nephio.org'', ''v1alpha1'')"

text \<open>The function \<open>NewSchemeBuilder\<close> is given, and those the \<open>init\<close> functions register, in the order Go runs them (files by name).\<close>

definition scheme_group :: "'s scheme_api \<Rightarrow> 's \<Rightarrow> error option \<times> 's" where
  "scheme_group S s = (None, AddToGroupVersion S sdcore_GroupVersion s)"

definition init_edgesite_types :: "'s scheme_api \<Rightarrow> 's \<Rightarrow> error option \<times> 's" where
  "init_edgesite_types S s = (None, AddKnownTypes S sdcore_GroupVersion
     [sdcore_type ''EdgeSite'', sdcore_type ''EdgeSiteList'', sdcore_type ''MeshLink'', sdcore_type ''MeshLinkList''] s)"

definition init_fleet_types :: "'s scheme_api \<Rightarrow> 's \<Rightarrow> error option \<times> 's" where
  "init_fleet_types S s = (None, AddKnownTypes S sdcore_GroupVersion [sdcore_type ''Fleet'', sdcore_type ''FleetList''] s)"

definition init_networkfabric_types :: "'s scheme_api \<Rightarrow> 's \<Rightarrow> error option \<times> 's" where
  "init_networkfabric_types S s = (None, AddKnownTypes S sdcore_GroupVersion
     [sdcore_type ''NetworkFabric'', sdcore_type ''NetworkFabricList''] s)"

definition init_sdcoredeployment_types :: "'s scheme_api \<Rightarrow> 's \<Rightarrow> error option \<times> 's" where
  "init_sdcoredeployment_types S s = (None, AddKnownTypes S sdcore_GroupVersion
     [sdcore_type ''SDCoreDeployment'', sdcore_type ''SDCoreDeploymentList''] s)"

definition init_subscriber_types :: "'s scheme_api \<Rightarrow> 's \<Rightarrow> error option \<times> 's" where
  "init_subscriber_types S s = (None, AddKnownTypes S sdcore_GroupVersion
     [sdcore_type ''Subscriber'', sdcore_type ''SubscriberList'', sdcore_type ''NetworkSlice'', sdcore_type ''NetworkSliceList''] s)"

definition init_upfdatapath_types :: "'s scheme_api \<Rightarrow> 's \<Rightarrow> error option \<times> 's" where
  "init_upfdatapath_types S s = (None, AddKnownTypes S sdcore_GroupVersion
     [sdcore_type ''UPFDataPath'', sdcore_type ''UPFDataPathList''] s)"

definition SchemeBuilder :: "'s scheme_api \<Rightarrow> ('s \<Rightarrow> error option \<times> 's) list" where
  "SchemeBuilder S = [scheme_group S, init_edgesite_types S, init_fleet_types S, init_networkfabric_types S,
     init_sdcoredeployment_types S, init_subscriber_types S, init_upfdatapath_types S]"

text \<open>\<open>SchemeBuilder.AddToScheme\<close>: every stored function, up to the first error.\<close>

fun apply_builders :: "('s \<Rightarrow> error option \<times> 's) list \<Rightarrow> 's \<Rightarrow> error option \<times> 's" where
  "apply_builders [] s = (None, s)"
| "apply_builders (f # fs) s = (case f s of (Some e, s') \<Rightarrow> (Some e, s') | (None, s') \<Rightarrow> apply_builders fs s')"

definition sdcore_AddToScheme :: "'s scheme_api \<Rightarrow> 's \<Rightarrow> error option \<times> 's" where
  "sdcore_AddToScheme S = apply_builders (SchemeBuilder S)"

text \<open>\<open>utilruntime.Must\<close>: a panic, here no scheme at all.\<close>

definition Must :: "error option \<times> 's \<Rightarrow> 's option" where
  "Must r = (case r of (None, s) \<Rightarrow> Some s | (Some e, s) \<Rightarrow> None)"

definition main_init :: "'s scheme_api \<Rightarrow> 's option" where
  "main_init S =
     (case Must (clientgo_AddToScheme S (sch_new S)) of None \<Rightarrow> None
      | Some s1 \<Rightarrow> (case Must (sdcore_AddToScheme S s1) of None \<Rightarrow> None
      | Some s2 \<Rightarrow> (case Must (nephio_AddToScheme S s2) of None \<Rightarrow> None
      | Some s3 \<Rightarrow> Some (AddToGroupVersion S nephio_GroupVersion
          (AddKnownTypes S nephio_GroupVersion [nephio_type ''NFDeployment'', nephio_type ''NFDeploymentList''] s3)))))"

section \<open>Flags\<close>

record options =
  nodeAgent :: bool
  metricsAddr :: string
  probeAddr :: string
  enableLeaderElection :: bool
  secureMetrics :: bool
  webhookCertPath :: string
  webhookCertName :: string
  webhookCertKey :: string
  metricsCertPath :: string
  metricsCertName :: string
  metricsCertKey :: string
  enableHTTP2 :: bool

definition default_options :: options where
  "default_options = \<lparr>nodeAgent = False, metricsAddr = ''0'', probeAddr = '':8081'', enableLeaderElection = False,
     secureMetrics = True, webhookCertPath = '''', webhookCertName = ''tls.crt'', webhookCertKey = ''tls.key'',
     metricsCertPath = '''', metricsCertName = ''tls.crt'', metricsCertKey = ''tls.key'', enableHTTP2 = False\<rparr>"

definition bool_flags :: "(string \<times> (bool \<Rightarrow> options \<Rightarrow> options)) list" where
  "bool_flags = [(''node-agent'', \<lambda>b o'. o'\<lparr>nodeAgent := b\<rparr>), (''leader-elect'', \<lambda>b o'. o'\<lparr>enableLeaderElection := b\<rparr>),
     (''metrics-secure'', \<lambda>b o'. o'\<lparr>secureMetrics := b\<rparr>), (''enable-http2'', \<lambda>b o'. o'\<lparr>enableHTTP2 := b\<rparr>)]"

definition string_flags :: "(string \<times> (string \<Rightarrow> options \<Rightarrow> options)) list" where
  "string_flags = [(''metrics-bind-address'', \<lambda>v o'. o'\<lparr>metricsAddr := v\<rparr>), (''health-probe-bind-address'', \<lambda>v o'. o'\<lparr>probeAddr := v\<rparr>),
     (''webhook-cert-path'', \<lambda>v o'. o'\<lparr>webhookCertPath := v\<rparr>), (''webhook-cert-name'', \<lambda>v o'. o'\<lparr>webhookCertName := v\<rparr>),
     (''webhook-cert-key'', \<lambda>v o'. o'\<lparr>webhookCertKey := v\<rparr>), (''metrics-cert-path'', \<lambda>v o'. o'\<lparr>metricsCertPath := v\<rparr>),
     (''metrics-cert-name'', \<lambda>v o'. o'\<lparr>metricsCertName := v\<rparr>), (''metrics-cert-key'', \<lambda>v o'. o'\<lparr>metricsCertKey := v\<rparr>)]"

text \<open>
  \<open>flag.Parse\<close> on the command line. The flags other packages define (zap's, \<open>kubeconfig\<close>) are a parameter: whether
  the flag is a boolean one, and which values it takes. An error ends the process with status 2, \<open>-help\<close> with 0.
\<close>

datatype extra_flag = ExtraBool "string \<Rightarrow> bool" | ExtraValue "string \<Rightarrow> bool"

datatype flag_token = NotFlag | Terminator | BadSyntax | Flag string "string option"

datatype parsed = Parsed options | Exits int

definition flag_token :: "string \<Rightarrow> flag_token" where
  "flag_token s =
     (if length s < 2 \<or> s ! 0 \<noteq> CHR ''-'' then NotFlag
      else if s = ''--'' then Terminator
      else let name = (if s ! 1 = CHR ''-'' then drop 2 s else drop 1 s) in
        if name = [] \<or> name ! 0 = CHR ''-'' \<or> name ! 0 = CHR ''='' then BadSyntax
        else Flag (takeWhile (\<lambda>c. c \<noteq> CHR ''='') name)
          (if CHR ''='' \<in> set name then Some (tl (dropWhile (\<lambda>c. c \<noteq> CHR ''='') name)) else None))"

definition ParseBool :: "string \<Rightarrow> bool option" where
  "ParseBool s = (if s \<in> {''1'', ''t'', ''T'', ''true'', ''TRUE'', ''True''} then Some True
     else if s \<in> {''0'', ''f'', ''F'', ''false'', ''FALSE'', ''False''} then Some False else None)"

fun flag_Parse :: "(string \<Rightarrow> extra_flag option) \<Rightarrow> string list \<Rightarrow> options \<Rightarrow> parsed" where
  "flag_Parse X [] opts = Parsed opts"
| "flag_Parse X (s # args) opts =
     (case flag_token s of NotFlag \<Rightarrow> Parsed opts | Terminator \<Rightarrow> Parsed opts | BadSyntax \<Rightarrow> Exits 2
      | Flag name val \<Rightarrow>
          (case map_of bool_flags name of
             Some set_ \<Rightarrow> (case val of None \<Rightarrow> flag_Parse X args (set_ True opts)
               | Some v \<Rightarrow> (case ParseBool v of None \<Rightarrow> Exits 2 | Some b \<Rightarrow> flag_Parse X args (set_ b opts)))
           | None \<Rightarrow> (case map_of string_flags name of
             Some set_ \<Rightarrow> (case val of Some v \<Rightarrow> flag_Parse X args (set_ v opts)
               | None \<Rightarrow> (case args of [] \<Rightarrow> Exits 2 | v # rest \<Rightarrow> flag_Parse X rest (set_ v opts)))
           | None \<Rightarrow> (case X name of
             Some (ExtraBool ok) \<Rightarrow> if ok (case val of None \<Rightarrow> ''true'' | Some v \<Rightarrow> v) then flag_Parse X args opts else Exits 2
           | Some (ExtraValue ok) \<Rightarrow> (case val of Some v \<Rightarrow> if ok v then flag_Parse X args opts else Exits 2
               | None \<Rightarrow> (case args of [] \<Rightarrow> Exits 2 | v # rest \<Rightarrow> if ok v then flag_Parse X rest opts else Exits 2))
           | None \<Rightarrow> if name = ''help'' \<or> name = ''h'' then Exits 0 else Exits 2))))"

section \<open>Options of the manager\<close>

record tls_config =
  NextProtos :: "string list"

record server_options =
  srv_TLSOpts :: "(tls_config \<Rightarrow> tls_config) list"
  srv_CertDir :: string
  srv_CertName :: string
  srv_KeyName :: string

record manager_options =
  mo_BindAddress :: string
  mo_SecureServing :: bool
  mo_FilterProvider :: bool
  mo_Metrics :: server_options
  mo_Webhook :: server_options
  mo_ProbeBindAddress :: string
  mo_LeaderElection :: bool
  mo_LeaderElectionID :: string

definition disableHTTP2 :: "tls_config \<Rightarrow> tls_config" where
  "disableHTTP2 c = c\<lparr>NextProtos := [''http/1.1'']\<rparr>"

definition tlsOpts :: "options \<Rightarrow> (tls_config \<Rightarrow> tls_config) list" where
  "tlsOpts opts = (if \<not> enableHTTP2 opts then [disableHTTP2] else [])"

definition webhookServerOptions :: "options \<Rightarrow> server_options" where
  "webhookServerOptions opts = (let base = \<lparr>srv_TLSOpts = tlsOpts opts, srv_CertDir = '''', srv_CertName = '''', srv_KeyName = ''''\<rparr> in
     if length (webhookCertPath opts) > 0
     then base\<lparr>srv_CertDir := webhookCertPath opts, srv_CertName := webhookCertName opts, srv_KeyName := webhookCertKey opts\<rparr>
     else base)"

definition metricsServerOptions :: "options \<Rightarrow> server_options" where
  "metricsServerOptions opts = (let base = \<lparr>srv_TLSOpts = tlsOpts opts, srv_CertDir = '''', srv_CertName = '''', srv_KeyName = ''''\<rparr> in
     if length (metricsCertPath opts) > 0
     then base\<lparr>srv_CertDir := metricsCertPath opts, srv_CertName := metricsCertName opts, srv_KeyName := metricsCertKey opts\<rparr>
     else base)"

definition manager_options_of :: "options \<Rightarrow> manager_options" where
  "manager_options_of opts = \<lparr>mo_BindAddress = metricsAddr opts, mo_SecureServing = secureMetrics opts,
     mo_FilterProvider = secureMetrics opts, mo_Metrics = metricsServerOptions opts, mo_Webhook = webhookServerOptions opts,
     mo_ProbeBindAddress = probeAddr opts, mo_LeaderElection = enableLeaderElection opts, mo_LeaderElectionID = ''c7d4af25.nephio.io''\<rparr>"

section \<open>The controllers and their watches\<close>

text \<open>
  The state of a reconciler that \<open>SetupWithManager\<close> completes: REST configuration and clientset where it has
  them, the repositories of the EdgeSite reconciler, the node of the actuator.
\<close>

datatype ('c, 'k) reconciler =
    RSDCoreDeployment "'c option"
  | RNFDeployment "'c option"
  | REdgeSite string string
  | RFleet
  | RMeshLink
  | RSubscriber
  | RNetworkSlice "'c option" "'k option"
  | RNetwork
  | RUPFDataPath "'c option" string "'k option"

text \<open>
  What a chain \<open>NewControllerManagedBy(mgr).For(...).Owns(...).Watches(...).Named(...)\<close> has collected when
  \<open>Complete\<close> is called: an object is watched by its Go type, or, unstructured, by its kind.
\<close>

datatype watched = Typed gotype | Untyped GVK

record ('c, 'k) controller =
  ct_Reconciler :: "('c, 'k) reconciler"
  ct_For :: gotype
  ct_GenerationChanged :: bool
  ct_Owns :: "watched list"
  ct_Watches :: "(gotype \<times> (kobject \<Rightarrow> (string \<times> string) list)) list"
  ct_Named :: "string option"

definition controller_for :: "('c, 'k) reconciler \<Rightarrow> gotype \<Rightarrow> ('c, 'k) controller" where
  "controller_for r t = \<lparr>ct_Reconciler = r, ct_For = t, ct_GenerationChanged = False, ct_Owns = [], ct_Watches = [], ct_Named = None\<rparr>"

text \<open>
  The manager and what else the entry point calls. \<open>GetConfigOrDie\<close> may end the process; \<open>Start\<close> returns
  when the manager has stopped. \<open>mg_Config\<close> is what \<open>mgr.GetConfig()\<close> gives, \<open>NewClientset\<close> is
  \<open>kubernetes.NewForConfig\<close>, \<open>mg_Getenv\<close> is \<open>os.Getenv\<close>.
\<close>

record ('w, 'c, 'k) manager =
  GetConfigOrDie :: "('w, bool) io"
  NewManager :: "manager_options \<Rightarrow> ('w, error option) io"
  Complete :: "('c, 'k) controller \<Rightarrow> ('w, error option) io"
  mg_Config :: 'c
  NewClientset :: "'c \<Rightarrow> error + 'k"
  mg_Getenv :: "string \<Rightarrow> string"
  AddHealthzCheck :: "string \<Rightarrow> ('w, error option) io"
  AddReadyzCheck :: "string \<Rightarrow> ('w, error option) io"
  Start :: "('w, error option) io"

definition config_or :: "('w, 'c, 'k) manager \<Rightarrow> 'c option \<Rightarrow> 'c" where
  "config_or M cfg = (case cfg of None \<Rightarrow> mg_Config M | Some c \<Rightarrow> c)"

definition SDCoreDeployment_SetupWithManager :: "('w, 'c, 'k) manager \<Rightarrow> 'c option \<Rightarrow> ('w, error option) io" where
  "SDCoreDeployment_SetupWithManager M cfg = Complete M
     ((controller_for (RSDCoreDeployment (Some (config_or M cfg))) (sdcore_type ''SDCoreDeployment''))
        \<lparr>ct_GenerationChanged := True, ct_Named := Some ''sdcoredeployment''\<rparr>)"

definition NFDeployment_SetupWithManager :: "('w, 'c, 'k) manager \<Rightarrow> 'c option \<Rightarrow> ('w, error option) io" where
  "NFDeployment_SetupWithManager M cfg = Complete M
     ((controller_for (RNFDeployment (Some (config_or M cfg))) (nephio_type ''NFDeployment''))
        \<lparr>ct_GenerationChanged := True, ct_Named := Some ''sdcore-nfdeployment''\<rparr>)"

definition EdgeSite_SetupWithManager :: "('w, 'c, 'k) manager \<Rightarrow> string \<Rightarrow> string \<Rightarrow> ('w, error option) io" where
  "EdgeSite_SetupWithManager M blueprintRepo mgmtRepo = (
     let b = (if blueprintRepo = '''' then ''blueprints'' else blueprintRepo);
         g = (if mgmtRepo = '''' then ''mgmt'' else mgmtRepo) in
     Complete M ((controller_for (REdgeSite b g) (sdcore_type ''EdgeSite''))
        \<lparr>ct_Owns := [Typed (sdcore_type ''MeshLink''), Untyped pvGVK]\<rparr>))"

definition Fleet_SetupWithManager :: "('w, 'c, 'k) manager \<Rightarrow> ('w, error option) io" where
  "Fleet_SetupWithManager M = Complete M
     ((controller_for RFleet (sdcore_type ''Fleet''))\<lparr>ct_Owns := [Typed (sdcore_type ''EdgeSite'')]\<rparr>)"

definition MeshLink_SetupWithManager :: "('w, 'c, 'k) manager \<Rightarrow> ('w, error option) io" where
  "MeshLink_SetupWithManager M = Complete M (controller_for RMeshLink (sdcore_type ''MeshLink''))"

definition Subscriber_SetupWithManager :: "('w, 'c, 'k) manager \<Rightarrow> ('w, error option) io" where
  "Subscriber_SetupWithManager M = Complete M (controller_for RSubscriber (sdcore_type ''Subscriber''))"

definition NetworkSlice_SetupWithManager :: "('w, 'c, 'k) manager \<Rightarrow> 'c option \<Rightarrow> ('w, error option) io" where
  "NetworkSlice_SetupWithManager M cfg = (let c = config_or M cfg in
     case NewClientset M c of
       Inl err \<Rightarrow> ret (Some (WrapError ''build clientset for mongo exec: '' err))
     | Inr cs \<Rightarrow> Complete M ((controller_for (RNetworkSlice (Some c) (Some cs)) (sdcore_type ''NetworkSlice''))
          \<lparr>ct_Watches := [(sdcore_type ''Subscriber'', slice_requests)]\<rparr>))"

definition Network_SetupWithManager :: "('w, 'c, 'k) manager \<Rightarrow> ('w, error option) io" where
  "Network_SetupWithManager M = Complete M (controller_for RNetwork (sdcore_type ''NetworkFabric''))"

definition UPFDataPath_SetupWithManager :: "('w, 'c, 'k) manager \<Rightarrow> 'c option \<Rightarrow> string \<Rightarrow> ('w, error option) io" where
  "UPFDataPath_SetupWithManager M cfg nodeName = (let c = config_or M cfg in
     case NewClientset M c of
       Inl err \<Rightarrow> ret (Some err)
     | Inr cs \<Rightarrow> Complete M (controller_for
          (RUPFDataPath (Some c) (if nodeName = '''' then mg_Getenv M ''NODE_NAME'' else nodeName) (Some cs))
          (sdcore_type ''UPFDataPath'')))"

section \<open>main\<close>

datatype exit = Return | Exit int

definition start_manager :: "('w, 'c, 'k) manager \<Rightarrow> ('w, exit) io" where
  "start_manager M = do { e \<leftarrow> Start M; ret (case e of None \<Rightarrow> Return | Some err \<Rightarrow> Exit 1) }"

text \<open>The block of the node agent, and the management controllers in the order they are set up.\<close>

definition node_agent :: "('w, 'c, 'k) manager \<Rightarrow> ('w, exit) io" where
  "node_agent M = do {
     e \<leftarrow> UPFDataPath_SetupWithManager M None '''';
     case e of Some err \<Rightarrow> ret (Exit 1) | None \<Rightarrow> start_manager M }"

definition management_setups :: "('w, 'c, 'k) manager \<Rightarrow> ('w, error option) io list" where
  "management_setups M = [SDCoreDeployment_SetupWithManager M None, NFDeployment_SetupWithManager M None,
     EdgeSite_SetupWithManager M '''' '''', Fleet_SetupWithManager M, MeshLink_SetupWithManager M, Subscriber_SetupWithManager M,
     NetworkSlice_SetupWithManager M None, Network_SetupWithManager M,
     AddHealthzCheck M ''healthz'', AddReadyzCheck M ''readyz'']"

definition management :: "('w, 'c, 'k) manager \<Rightarrow> ('w, exit) io" where
  "management M = do {
     e \<leftarrow> for_until_err (\<lambda>s. s) (management_setups M);
     case e of Some err \<Rightarrow> ret (Exit 1) | None \<Rightarrow> start_manager M }"

definition run_operator :: "('w, 'c, 'k) manager \<Rightarrow> options \<Rightarrow> ('w, exit) io" where
  "run_operator M opts = do {
     ok \<leftarrow> GetConfigOrDie M;
     if \<not> ok then ret (Exit 1)
     else do {
       e \<leftarrow> NewManager M (manager_options_of opts);
       case e of Some err \<Rightarrow> ret (Exit 1)
       | None \<Rightarrow> if nodeAgent opts then node_agent M else management M } }"

definition operator_main :: "('w, 'c, 'k) manager \<Rightarrow> (string \<Rightarrow> extra_flag option) \<Rightarrow> string list \<Rightarrow> ('w, exit) io" where
  "operator_main M X args =
     (case flag_Parse X args default_options of Exits n \<Rightarrow> ret (Exit n) | Parsed opts \<Rightarrow> run_operator M opts)"

section \<open>The scheme the operator runs with\<close>

text \<open>The kinds of the API group, with their lists.\<close>

definition sdcore_kinds :: "string list" where
  "sdcore_kinds = [''EdgeSite'', ''EdgeSiteList'', ''MeshLink'', ''MeshLinkList'', ''Fleet'', ''FleetList'', ''NetworkFabric'',
     ''NetworkFabricList'', ''SDCoreDeployment'', ''SDCoreDeploymentList'', ''Subscriber'', ''SubscriberList'', ''NetworkSlice'',
     ''NetworkSliceList'', ''UPFDataPath'', ''UPFDataPathList'']"

text \<open>
  The laws: registration is by the type's name in the group and version given, registering again keeps what is
  there, and \<open>AddToGroupVersion\<close> adds types of \<open>meta/v1\<close> only. Nephio's \<open>AddToScheme\<close> may add types
  or none.
\<close>

locale scheme_laws =
  fixes S :: "'s scheme_api"
  assumes kind_AddKnownTypes: "sch_kind S (AddKnownTypes S gv ts s) t =
      (if t \<in> set ts then Some \<lparr>gvk_Group = fst gv, gvk_Version = snd gv, gvk_Kind = snd t\<rparr> else sch_kind S s t)"
    and kind_AddToGroupVersion: "fst t \<noteq> meta_package \<Longrightarrow> sch_kind S (AddToGroupVersion S gv s) t = sch_kind S s t"
    and kind_nephio: "nephio_AddToScheme S s = (e, s') \<Longrightarrow> sch_kind S s t = Some g \<Longrightarrow> sch_kind S s' t = Some g"
begin

lemma sdcore_not_meta [simp]: "fst (sdcore_type n) \<noteq> meta_package" "fst (nephio_type n) \<noteq> meta_package"
  "sdcore_type n \<noteq> nephio_type m" "nephio_type m \<noteq> sdcore_type n" "sdcore_type n = sdcore_type m \<longleftrightarrow> n = m"
  "nephio_type n = nephio_type m \<longleftrightarrow> n = m"
  by (simp_all add: sdcore_type_def nephio_type_def meta_package_def)

lemma sdcore_AddToScheme_runs: "sdcore_AddToScheme S s = (None, snd (sdcore_AddToScheme S s))"
  by (simp add: sdcore_AddToScheme_def SchemeBuilder_def scheme_group_def init_edgesite_types_def init_fleet_types_def
    init_networkfabric_types_def init_sdcoredeployment_types_def init_subscriber_types_def init_upfdatapath_types_def)

lemma sdcore_AddToScheme_kinds:
  "n \<in> set sdcore_kinds \<Longrightarrow> sch_kind S (snd (sdcore_AddToScheme S s)) (sdcore_type n) = Some (sdcoreGVK n)"
  by (simp add: sdcore_AddToScheme_def SchemeBuilder_def scheme_group_def init_edgesite_types_def init_fleet_types_def
    init_networkfabric_types_def init_sdcoredeployment_types_def init_subscriber_types_def init_upfdatapath_types_def
    kind_AddKnownTypes kind_AddToGroupVersion sdcore_GroupVersion_def sdcoreGVK_def sdcore_kinds_def)
    (auto simp: sdcore_type_def)

lemma main_init_kinds:
  assumes "main_init S = Some s"
  shows "n \<in> set sdcore_kinds \<Longrightarrow> sch_kind S s (sdcore_type n) = Some (sdcoreGVK n)"
    and "sch_kind S s (nephio_type ''NFDeployment'') = Some nfdGVK"
    and "sch_kind S s (nephio_type ''NFDeploymentList'') = Some (nfdGVK\<lparr>gvk_Kind := ''NFDeploymentList''\<rparr>)"
proof -
  from assms obtain s1 s2 s3 where s1: "sdcore_AddToScheme S s1 = (None, s2)" and s3: "nephio_AddToScheme S s2 = (None, s3)"
    and s: "s = AddToGroupVersion S nephio_GroupVersion
        (AddKnownTypes S nephio_GroupVersion [nephio_type ''NFDeployment'', nephio_type ''NFDeploymentList''] s3)"
    by (auto simp: main_init_def Must_def split: option.splits prod.splits)
  from s1 have s2: "s2 = snd (sdcore_AddToScheme S s1)" by simp
  show "sch_kind S s (sdcore_type n) = Some (sdcoreGVK n)" if "n \<in> set sdcore_kinds"
    using kind_nephio [OF s3 sdcore_AddToScheme_kinds [OF that, of s1, folded s2]]
    by (simp add: s kind_AddToGroupVersion kind_AddKnownTypes)
  show "sch_kind S s (nephio_type ''NFDeployment'') = Some nfdGVK"
    "sch_kind S s (nephio_type ''NFDeploymentList'') = Some (nfdGVK\<lparr>gvk_Kind := ''NFDeploymentList''\<rparr>)"
    by (simp_all add: s kind_AddToGroupVersion kind_AddKnownTypes nfdGVK_def nephio_GroupVersion_def) (simp_all add: nephio_type_def)
qed

end

text \<open>The Go type of an object of the API packages the operator imports.\<close>

fun gotype_of :: "kobject \<Rightarrow> gotype option" where
  "gotype_of (KEdgeSite x) = Some (sdcore_type ''EdgeSite'')"
| "gotype_of (KMeshLink x) = Some (sdcore_type ''MeshLink'')"
| "gotype_of (KNetworkSlice x) = Some (sdcore_type ''NetworkSlice'')"
| "gotype_of (KSubscriber x) = Some (sdcore_type ''Subscriber'')"
| "gotype_of (KFleet x) = Some (sdcore_type ''Fleet'')"
| "gotype_of (KNetworkFabric x) = Some (sdcore_type ''NetworkFabric'')"
| "gotype_of (KUPFDataPath x) = Some (sdcore_type ''UPFDataPath'')"
| "gotype_of (KSDCoreDeployment x) = Some (sdcore_type ''SDCoreDeployment'')"
| "gotype_of (KNFDeployment x) = Some (nephio_type ''NFDeployment'')"
| "gotype_of _ = None"

section \<open>What the entry point establishes\<close>

text \<open>The manager as the entry point leaves it: its options, the controllers and checks it was given, whether it ran.\<close>

record ('c, 'k) managed =
  md_Options :: "manager_options option"
  md_Controllers :: "('c, 'k) controller list"
  md_Checks :: "string list"
  md_Started :: bool

text \<open>The name of a controller: the one given, or the kind of its object in lower case.\<close>

definition lower :: "string \<Rightarrow> string" where
  "lower s = map (\<lambda>c. if of_char c \<in> {65 .. 90::nat} then char_of (of_char c + (32::nat)) else c) s"

lemma lower_kinds:
  "lower ''EdgeSite'' = ''edgesite''" "lower ''Fleet'' = ''fleet''" "lower ''MeshLink'' = ''meshlink''"
  "lower ''Subscriber'' = ''subscriber''" "lower ''NetworkSlice'' = ''networkslice''" "lower ''NetworkFabric'' = ''networkfabric''"
  "lower ''UPFDataPath'' = ''upfdatapath''"
  by code_simp+

definition controller_name :: "('c, 'k) controller \<Rightarrow> string" where
  "controller_name c = (case ct_Named c of Some n \<Rightarrow> n | None \<Rightarrow> lower (snd (ct_For c)))"

text \<open>What \<open>Complete\<close> insists on: types the scheme knows, and a name no controller of the process has.\<close>

definition acceptable :: "(gotype \<Rightarrow> bool) \<Rightarrow> ('c, 'k) controller list \<Rightarrow> ('c, 'k) controller \<Rightarrow> bool" where
  "acceptable known cs c \<longleftrightarrow> known (ct_For c) \<and> (\<forall>x \<in> set (ct_Owns c). case x of Typed t \<Rightarrow> known t | Untyped g \<Rightarrow> True)
     \<and> (\<forall>t \<in> fst ` set (ct_Watches c). known t) \<and> controller_name c \<notin> controller_name ` set cs"

text \<open>The controllers of the two modes, given a clientset.\<close>

definition actuator :: "('w, 'c, 'k) manager \<Rightarrow> 'k \<Rightarrow> ('c, 'k) controller" where
  "actuator M cs = controller_for (RUPFDataPath (Some (mg_Config M)) (mg_Getenv M ''NODE_NAME'') (Some cs)) (sdcore_type ''UPFDataPath'')"

definition managers :: "('w, 'c, 'k) manager \<Rightarrow> 'k \<Rightarrow> ('c, 'k) controller list" where
  "managers M cs = [
     (controller_for (RSDCoreDeployment (Some (mg_Config M))) (sdcore_type ''SDCoreDeployment''))
        \<lparr>ct_GenerationChanged := True, ct_Named := Some ''sdcoredeployment''\<rparr>,
     (controller_for (RNFDeployment (Some (mg_Config M))) (nephio_type ''NFDeployment''))
        \<lparr>ct_GenerationChanged := True, ct_Named := Some ''sdcore-nfdeployment''\<rparr>,
     (controller_for (REdgeSite ''blueprints'' ''mgmt'') (sdcore_type ''EdgeSite''))
        \<lparr>ct_Owns := [Typed (sdcore_type ''MeshLink''), Untyped pvGVK]\<rparr>,
     (controller_for RFleet (sdcore_type ''Fleet''))\<lparr>ct_Owns := [Typed (sdcore_type ''EdgeSite'')]\<rparr>,
     controller_for RMeshLink (sdcore_type ''MeshLink''), controller_for RSubscriber (sdcore_type ''Subscriber''),
     (controller_for (RNetworkSlice (Some (mg_Config M)) (Some cs)) (sdcore_type ''NetworkSlice''))
        \<lparr>ct_Watches := [(sdcore_type ''Subscriber'', slice_requests)]\<rparr>,
     controller_for RNetwork (sdcore_type ''NetworkFabric'')]"

locale operator_manager =
  fixes M :: "('w, 'c, 'k) manager" and mv :: "'w \<Rightarrow> ('c, 'k) managed"
  assumes config_frame: "frame mv (GetConfigOrDie M)"
    and new_ok: "run_state (NewManager M opts) w = (None, w') \<Longrightarrow>
      mv w' = (mv w)\<lparr>md_Options := Some opts, md_Controllers := [], md_Checks := []\<rparr>"
    and new_err: "run_state (NewManager M opts) w = (Some e, w') \<Longrightarrow> mv w' = mv w"
    and complete_ok: "run_state (Complete M c) w = (None, w') \<Longrightarrow> mv w' = (mv w)\<lparr>md_Controllers := md_Controllers (mv w) @ [c]\<rparr>"
    and complete_err: "run_state (Complete M c) w = (Some e, w') \<Longrightarrow> mv w' = mv w"
    and healthz_ok: "run_state (AddHealthzCheck M n) w = (None, w') \<Longrightarrow> mv w' = (mv w)\<lparr>md_Checks := md_Checks (mv w) @ [n]\<rparr>"
    and healthz_err: "run_state (AddHealthzCheck M n) w = (Some e, w') \<Longrightarrow> mv w' = mv w"
    and readyz_ok: "run_state (AddReadyzCheck M n) w = (None, w') \<Longrightarrow> mv w' = (mv w)\<lparr>md_Checks := md_Checks (mv w) @ [n]\<rparr>"
    and readyz_err: "run_state (AddReadyzCheck M n) w = (Some e, w') \<Longrightarrow> mv w' = mv w"
    and start_ok: "run_state (Start M) w = (r, w') \<Longrightarrow> mv w' = (mv w)\<lparr>md_Started := True\<rparr>"
begin

lemmas setup_defs = SDCoreDeployment_SetupWithManager_def NFDeployment_SetupWithManager_def EdgeSite_SetupWithManager_def
  Fleet_SetupWithManager_def MeshLink_SetupWithManager_def Subscriber_SetupWithManager_def NetworkSlice_SetupWithManager_def
  Network_SetupWithManager_def UPFDataPath_SetupWithManager_def config_or_def Let_def

lemma complete_steps:
  "run_state (SDCoreDeployment_SetupWithManager M None) w = (None, w') \<Longrightarrow> mv w' = (mv w)\<lparr>md_Controllers := md_Controllers (mv w) @ [managers M cs ! 0]\<rparr>"
  "run_state (NFDeployment_SetupWithManager M None) w = (None, w') \<Longrightarrow> mv w' = (mv w)\<lparr>md_Controllers := md_Controllers (mv w) @ [managers M cs ! 1]\<rparr>"
  "run_state (EdgeSite_SetupWithManager M [] []) w = (None, w') \<Longrightarrow> mv w' = (mv w)\<lparr>md_Controllers := md_Controllers (mv w) @ [managers M cs ! 2]\<rparr>"
  "run_state (Fleet_SetupWithManager M) w = (None, w') \<Longrightarrow> mv w' = (mv w)\<lparr>md_Controllers := md_Controllers (mv w) @ [managers M cs ! 3]\<rparr>"
  "run_state (MeshLink_SetupWithManager M) w = (None, w') \<Longrightarrow> mv w' = (mv w)\<lparr>md_Controllers := md_Controllers (mv w) @ [managers M cs ! 4]\<rparr>"
  "run_state (Subscriber_SetupWithManager M) w = (None, w') \<Longrightarrow> mv w' = (mv w)\<lparr>md_Controllers := md_Controllers (mv w) @ [managers M cs ! 5]\<rparr>"
  "run_state (Network_SetupWithManager M) w = (None, w') \<Longrightarrow> mv w' = (mv w)\<lparr>md_Controllers := md_Controllers (mv w) @ [managers M cs ! 7]\<rparr>"
  by (auto simp: setup_defs managers_def dest!: complete_ok)

lemma slice_step:
  assumes "run_state (NetworkSlice_SetupWithManager M None) w = (None, w')"
  obtains cs where "NewClientset M (mg_Config M) = Inr cs"
    and "mv w' = (mv w)\<lparr>md_Controllers := md_Controllers (mv w) @ [managers M cs ! 6]\<rparr>"
  using assms by (auto simp: setup_defs managers_def dest!: complete_ok split: sum.splits)

lemma actuator_step:
  assumes "run_state (UPFDataPath_SetupWithManager M None []) w = (None, w')"
  obtains cs where "NewClientset M (mg_Config M) = Inr cs"
    and "mv w' = (mv w)\<lparr>md_Controllers := md_Controllers (mv w) @ [actuator M cs]\<rparr>"
  using assms by (auto simp: setup_defs actuator_def dest!: complete_ok split: sum.splits)

text \<open>A setup that fails leaves the manager as it was.\<close>

lemma setup_stopped:
  "s \<in> set (management_setups M) \<union> {UPFDataPath_SetupWithManager M None []} \<Longrightarrow> run_state s w = (Some e, w') \<Longrightarrow> mv w' = mv w"
  by (auto simp: management_setups_def setup_defs dest: complete_err healthz_err readyz_err split: sum.splits)

lemma setup_started:
  assumes "s \<in> set (management_setups M) \<union> {UPFDataPath_SetupWithManager M None []}" and "run_state s w = (e, w')"
  shows "md_Started (mv w') = md_Started (mv w)"
proof (cases e)
  case None
  with assms show ?thesis
    by (auto simp: management_setups_def setup_defs dest!: complete_ok healthz_ok readyz_ok split: sum.splits)
next
  case (Some err)
  with assms setup_stopped show ?thesis by metis
qed

lemma setups_started:
  "set ss \<subseteq> set (management_setups M) \<Longrightarrow> run_state (for_until_err (\<lambda>s. s) ss) w = (e, w') \<Longrightarrow> md_Started (mv w') = md_Started (mv w)"
proof (induction ss arbitrary: w)
  case (Cons s ss)
  obtain e1 w1 where s: "run_state s w = (e1, w1)" by force
  with Cons.prems(1) have "md_Started (mv w1) = md_Started (mv w)" by (intro setup_started) auto
  with Cons s show ?case by (auto split: option.splits)
qed simp

lemma setups_done:
  assumes "run_state (for_until_err (\<lambda>s. s) (management_setups M)) w = (None, w')"
  obtains cs where "NewClientset M (mg_Config M) = Inr cs"
    and "mv w' = (mv w)\<lparr>md_Controllers := md_Controllers (mv w) @ managers M cs, md_Checks := md_Checks (mv w) @ [''healthz'', ''readyz'']\<rparr>"
proof -
  from assms obtain w1 w2 w3 w4 w5 w6 w7 w8 w9 where r:
    "run_state (SDCoreDeployment_SetupWithManager M None) w = (None, w1)" "run_state (NFDeployment_SetupWithManager M None) w1 = (None, w2)"
    "run_state (EdgeSite_SetupWithManager M [] []) w2 = (None, w3)" "run_state (Fleet_SetupWithManager M) w3 = (None, w4)"
    "run_state (MeshLink_SetupWithManager M) w4 = (None, w5)" "run_state (Subscriber_SetupWithManager M) w5 = (None, w6)"
    "run_state (NetworkSlice_SetupWithManager M None) w6 = (None, w7)" "run_state (Network_SetupWithManager M) w7 = (None, w8)"
    "run_state (AddHealthzCheck M ''healthz'') w8 = (None, w9)" "run_state (AddReadyzCheck M ''readyz'') w9 = (None, w')"
    unfolding management_setups_def for_until_err_None_Cons by auto
  from r(7) obtain cs where cs: "NewClientset M (mg_Config M) = Inr cs"
    "mv w7 = (mv w6)\<lparr>md_Controllers := md_Controllers (mv w6) @ [managers M cs ! 6]\<rparr>" by (rule slice_step)
  note steps = complete_steps(1) [OF r(1), of cs] complete_steps(2) [OF r(2), of cs] complete_steps(3) [OF r(3), of cs]
    complete_steps(4) [OF r(4), of cs] complete_steps(5) [OF r(5), of cs] complete_steps(6) [OF r(6), of cs] cs(2)
    complete_steps(7) [OF r(8), of cs] healthz_ok [OF r(9)] readyz_ok [OF r(10)]
  have l: "managers M cs = [managers M cs ! 0, managers M cs ! 1, managers M cs ! 2, managers M cs ! 3, managers M cs ! 4,
      managers M cs ! 5, managers M cs ! 6, managers M cs ! 7]"
    by (simp add: managers_def)
  have "mv w' = (mv w)\<lparr>md_Controllers := md_Controllers (mv w) @ managers M cs, md_Checks := md_Checks (mv w) @ [''healthz'', ''readyz'']\<rparr>"
    by (subst l) (simp add: steps)
  with cs(1) show ?thesis by (rule that)
qed

text \<open>A run of the operator that reached \<open>Start\<close>, and one that did not.\<close>

lemma operator_runs:
  assumes "run_state (run_operator M opts) w = (x, w')" and "\<not> md_Started (mv w)"
  shows "if md_Started (mv w')
    then md_Options (mv w') = Some (manager_options_of opts) \<and> (\<exists>cs. NewClientset M (mg_Config M) = Inr cs
      \<and> md_Controllers (mv w') = (if nodeAgent opts then [actuator M cs] else managers M cs))
      \<and> md_Checks (mv w') = (if nodeAgent opts then [] else [''healthz'', ''readyz''])
    else x = Exit 1"
proof -
  obtain ok w1 where c: "run_state (GetConfigOrDie M) w = (ok, w1)" by force
  with config_frame have m1: "mv w1 = mv w" by (rule frameD)
  obtain e w2 where n: "run_state (NewManager M (manager_options_of opts)) w1 = (e, w2)" by force
  show ?thesis
  proof (cases "ok \<and> e = None")
    case False
    with assms c n m1 new_err show ?thesis by (auto simp: run_operator_def split: if_splits option.splits)
  next
    case True
    with n have m2: "mv w2 = (mv w)\<lparr>md_Options := Some (manager_options_of opts), md_Controllers := [], md_Checks := []\<rparr>"
      using new_ok m1 by simp
    show ?thesis
    proof (cases "nodeAgent opts")
      case agent: True
      obtain e3 w3 where u: "run_state (UPFDataPath_SetupWithManager M None []) w2 = (e3, w3)" by force
      show ?thesis
      proof (cases e3)
        case None
        with u obtain cs where cs: "NewClientset M (mg_Config M) = Inr cs"
          "mv w3 = (mv w2)\<lparr>md_Controllers := md_Controllers (mv w2) @ [actuator M cs]\<rparr>" by (auto elim: actuator_step)
        obtain e4 w4 where "run_state (Start M) w3 = (e4, w4)" by force
        with assms(1) c n True agent u None cs m2 start_ok [OF this] show ?thesis
          by (auto simp: run_operator_def node_agent_def start_manager_def)
      next
        case (Some err)
        with u setup_stopped have "mv w3 = mv w2" by fastforce
        with assms c n True agent u Some m2 show ?thesis by (simp add: run_operator_def node_agent_def)
      qed
    next
      case manage: False
      obtain e3 w3 where u: "run_state (for_until_err (\<lambda>s. s) (management_setups M)) w2 = (e3, w3)" by force
      show ?thesis
      proof (cases e3)
        case None
        with u obtain cs where cs: "NewClientset M (mg_Config M) = Inr cs"
          "mv w3 = (mv w2)\<lparr>md_Controllers := md_Controllers (mv w2) @ managers M cs, md_Checks := md_Checks (mv w2) @ [''healthz'', ''readyz'']\<rparr>"
          by (auto elim: setups_done)
        obtain e4 w4 where "run_state (Start M) w3 = (e4, w4)" by force
        with assms(1) c n True manage u None cs m2 start_ok [OF this] show ?thesis
          by (auto simp: run_operator_def management_def start_manager_def)
      next
        case (Some err)
        with setups_started [OF subset_refl u] assms c n True manage u m2 show ?thesis
          by (simp add: run_operator_def management_def)
      qed
    qed
  qed
qed

end

section \<open>The entry point gets as far as starting\<close>

text \<open>
  The manager takes every acceptable controller: \<open>Complete\<close> fails for a type that is not in the scheme or a
  name that is taken, and, with the scheme of \<open>main_init\<close>, for no other reason.
\<close>

locale operator_process = operator_manager M mv + scheme_laws S
  for M :: "('w, 'c, 'k) manager" and mv and S :: "'s scheme_api" +
  fixes s :: 's
  assumes init: "main_init S = Some s"
    and accepts: "acceptable (\<lambda>t. sch_kind S s t \<noteq> None) (md_Controllers (mv w)) c \<Longrightarrow> fst (run_state (Complete M c) w) = None"
begin

lemma completes_all:
  assumes "distinct (map controller_name (md_Controllers (mv w) @ cl))"
    and "\<forall>c \<in> set cl. acceptable (\<lambda>t. sch_kind S s t \<noteq> None) [] c"
  shows "\<exists>w'. run_state (for_until_err (\<lambda>s. s) (map (Complete M) cl)) w = (None, w')"
  using assms
proof (induction cl arbitrary: w)
  case (Cons c cl)
  from Cons.prems have "acceptable (\<lambda>t. sch_kind S s t \<noteq> None) (md_Controllers (mv w)) c" by (auto simp: acceptable_def)
  with accepts obtain w1 where c: "run_state (Complete M c) w = (None, w1)" by (metis prod.collapse)
  from complete_ok [OF c] Cons.prems have "\<exists>w'. run_state (for_until_err (\<lambda>s. s) (map (Complete M) cl)) w1 = (None, w')"
    by (intro Cons.IH) auto
  with c show ?case by auto
qed simp

lemma management_setups_complete:
  "NewClientset M (mg_Config M) = Inr cs \<Longrightarrow>
   management_setups M = map (Complete M) (managers M cs) @ [AddHealthzCheck M ''healthz'', AddReadyzCheck M ''readyz'']"
  by (simp add: management_setups_def managers_def setup_defs)

lemma manager_names:
  "map controller_name (managers M cs) = [''sdcoredeployment'', ''sdcore-nfdeployment'', ''edgesite'', ''fleet'', ''meshlink'',
     ''subscriber'', ''networkslice'', ''networkfabric'']"
  by (simp add: managers_def controller_name_def controller_for_def sdcore_type_def nephio_type_def lower_kinds)

lemmas known_types = main_init_kinds(1) [OF init, unfolded sdcore_kinds_def] main_init_kinds(2) [OF init]

lemma acceptable_managers: "c \<in> set (managers M cs) \<Longrightarrow> acceptable (\<lambda>t. sch_kind S s t \<noteq> None) [] c"
proof -
  have "list_all (acceptable (\<lambda>t. sch_kind S s t \<noteq> None) []) (managers M cs)"
    by (simp add: managers_def acceptable_def controller_for_def known_types)
  then show "c \<in> set (managers M cs) \<Longrightarrow> acceptable (\<lambda>t. sch_kind S s t \<noteq> None) [] c" by (simp add: list_all_iff)
qed

lemma acceptable_actuator: "acceptable (\<lambda>t. sch_kind S s t \<noteq> None) [] (actuator M cs)"
  by (simp add: acceptable_def actuator_def controller_for_def known_types)

lemma operator_starts:
  assumes run: "run_state (run_operator M opts) w = (x, w')" and calm: "\<not> md_Started (mv w)"
    and config: "fst (run_state (GetConfigOrDie M) w) = True" and new: "\<And>v. fst (run_state (NewManager M (manager_options_of opts)) v) = None"
    and cs: "NewClientset M (mg_Config M) = Inr cs"
    and checks: "\<And>n v. fst (run_state (AddHealthzCheck M n) v) = None" "\<And>n v. fst (run_state (AddReadyzCheck M n) v) = None"
  shows "md_Started (mv w')"
proof -
  from config obtain w1 where c: "run_state (GetConfigOrDie M) w = (True, w1)" by (metis prod.collapse)
  from new obtain w2 where n: "run_state (NewManager M (manager_options_of opts)) w1 = (None, w2)" by (metis prod.collapse)
  have m2: "md_Controllers (mv w2) = []" using new_ok [OF n] by simp
  show ?thesis
  proof (cases "nodeAgent opts")
    case True
    have "acceptable (\<lambda>t. sch_kind S s t \<noteq> None) (md_Controllers (mv w2)) (actuator M cs)" using acceptable_actuator m2 by simp
    with accepts obtain w3 where "run_state (Complete M (actuator M cs)) w2 = (None, w3)" by (metis prod.collapse)
    then have "run_state (UPFDataPath_SetupWithManager M None []) w2 = (None, w3)" by (simp add: setup_defs actuator_def cs)
    moreover obtain e4 w4 where s: "run_state (Start M) w3 = (e4, w4)" by force
    ultimately have "w' = w4" using run c n True by (simp add: run_operator_def node_agent_def start_manager_def)
    with start_ok [OF s] show ?thesis by simp
  next
    case False
    have "distinct (map controller_name (md_Controllers (mv w2) @ managers M cs))" by (simp only: m2 append_Nil manager_names) simp
    from completes_all [OF this] acceptable_managers obtain w3 where
      "run_state (for_until_err (\<lambda>s. s) (map (Complete M) (managers M cs))) w2 = (None, w3)" by blast
    moreover obtain w4 where "run_state (AddHealthzCheck M ''healthz'') w3 = (None, w4)" using checks(1) by (metis prod.collapse)
    moreover obtain w5 where "run_state (AddReadyzCheck M ''readyz'') w4 = (None, w5)" using checks(2) by (metis prod.collapse)
    ultimately have "run_state (for_until_err (\<lambda>s. s) (management_setups M)) w2 = (None, w5)"
      by (simp add: management_setups_complete [OF cs] for_until_err_append)
    moreover obtain e6 w6 where s: "run_state (Start M) w5 = (e6, w6)" by force
    ultimately have "w' = w6" using run c n False by (simp add: run_operator_def management_def start_manager_def)
    with start_ok [OF s] show ?thesis by simp
  qed
qed

end

section \<open>Reading back a command line\<close>

text \<open>A setting of a flag of the operator, as an argument and as a change of the options.\<close>

datatype setting = SetBool string bool | SetString string string

fun setting_arg :: "setting \<Rightarrow> string" where
  "setting_arg (SetBool n b) = ''--'' @ n @ ''='' @ (if b then ''true'' else ''false'')"
| "setting_arg (SetString n v) = ''--'' @ n @ ''='' @ v"

fun setting_ok :: "setting \<Rightarrow> bool" where
  "setting_ok (SetBool n b) = (n \<in> fst ` set bool_flags)"
| "setting_ok (SetString n v) = (n \<in> fst ` set string_flags)"

fun apply_setting :: "setting \<Rightarrow> options \<Rightarrow> options" where
  "apply_setting (SetBool n b) opts = (case map_of bool_flags n of Some f \<Rightarrow> f b opts | None \<Rightarrow> opts)"
| "apply_setting (SetString n v) opts = (case map_of string_flags n of Some f \<Rightarrow> f v opts | None \<Rightarrow> opts)"

lemma flag_token_setting:
  assumes "n \<noteq> []" and "hd n \<noteq> CHR ''-''" and "CHR ''='' \<notin> set n"
  shows "flag_token (''--'' @ n @ ''='' @ v) = Flag n (Some v)"
proof -
  from assms(1) obtain c cs where n: "n = c # cs" by (cases n) auto
  with assms(3) have "c \<noteq> CHR ''=''" by auto
  moreover have "takeWhile (\<lambda>c. c \<noteq> CHR ''='') (n @ ''='' @ v) = n" "dropWhile (\<lambda>c. c \<noteq> CHR ''='') (n @ ''='' @ v) = ''='' @ v"
    using assms(3) by (auto simp: takeWhile_append dropWhile_append)
  ultimately show ?thesis using assms n by (simp add: flag_token_def Let_def)
qed

lemma flag_names: "n \<in> fst ` set bool_flags \<union> fst ` set string_flags \<Longrightarrow> n \<noteq> [] \<and> hd n \<noteq> CHR ''-'' \<and> CHR ''='' \<notin> set n"
  by (auto simp: bool_flags_def string_flags_def)

lemma string_not_bool: "n \<in> fst ` set string_flags \<Longrightarrow> map_of bool_flags n = None"
  by (auto simp: bool_flags_def string_flags_def)

section \<open>An in-memory manager\<close>

text \<open>A scheme as a list of registrations, and a manager that insists on what \<open>acceptable\<close> says.\<close>

definition lab_scheme :: "(gotype \<times> GVK) list scheme_api" where
  "lab_scheme = \<lparr>sch_new = [],
     AddKnownTypes = (\<lambda>gv ts s. map (\<lambda>t. (t, \<lparr>gvk_Group = fst gv, gvk_Version = snd gv, gvk_Kind = snd t\<rparr>)) ts @ s),
     AddToGroupVersion = (\<lambda>gv s. ((meta_package, ''WatchEvent''), \<lparr>gvk_Group = fst gv, gvk_Version = snd gv, gvk_Kind = ''WatchEvent''\<rparr>) # s),
     clientgo_AddToScheme = (\<lambda>s. (None, ((''k8s.io/api/core/v1'', ''Pod''), coreGVK ''Pod'') # s)),
     nephio_AddToScheme = (\<lambda>s. (None, s)),
     sch_kind = map_of\<rparr>"

interpretation lab_scheme: scheme_laws lab_scheme
proof
  fix gv :: "string \<times> string" and ts :: "gotype list" and s :: "(gotype \<times> GVK) list" and t
  have "map_of (map (\<lambda>t. (t, \<lparr>gvk_Group = fst gv, gvk_Version = snd gv, gvk_Kind = snd t\<rparr>)) ts @ s) t
     = (if t \<in> set ts then Some \<lparr>gvk_Group = fst gv, gvk_Version = snd gv, gvk_Kind = snd t\<rparr> else map_of s t)"
    by (induction ts) auto
  then show "sch_kind lab_scheme (AddKnownTypes lab_scheme gv ts s) t =
      (if t \<in> set ts then Some \<lparr>gvk_Group = fst gv, gvk_Version = snd gv, gvk_Kind = snd t\<rparr> else sch_kind lab_scheme s t)"
    by (simp add: lab_scheme_def)
qed (auto simp: lab_scheme_def)

definition lab_sch :: "(gotype \<times> GVK) list" where
  "lab_sch = (case main_init lab_scheme of Some s \<Rightarrow> s | None \<Rightarrow> [])"

lemma lab_init: "main_init lab_scheme = Some lab_sch"
proof -
  have "main_init lab_scheme \<noteq> None" by code_simp
  then show ?thesis by (auto simp: lab_sch_def)
qed

definition lab_manager :: "((string, string) managed, string, string) manager" where
  "lab_manager = \<lparr>GetConfigOrDie = ret True,
     NewManager = (\<lambda>opts. State (\<lambda>w. (None, w\<lparr>md_Options := Some opts, md_Controllers := [], md_Checks := []\<rparr>))),
     Complete = (\<lambda>c. State (\<lambda>w. if acceptable (\<lambda>t. sch_kind lab_scheme lab_sch t \<noteq> None) (md_Controllers w) c
        then (None, w\<lparr>md_Controllers := md_Controllers w @ [c]\<rparr>) else (Some (ErrorString ''cannot start the controller''), w))),
     mg_Config = ''in-cluster'', NewClientset = (\<lambda>c. Inr c), mg_Getenv = (\<lambda>n. if n = ''NODE_NAME'' then ''edge-1'' else ''''),
     AddHealthzCheck = (\<lambda>n. State (\<lambda>w. (None, w\<lparr>md_Checks := md_Checks w @ [n]\<rparr>))),
     AddReadyzCheck = (\<lambda>n. State (\<lambda>w. (None, w\<lparr>md_Checks := md_Checks w @ [n]\<rparr>))),
     Start = State (\<lambda>w. (None, w\<lparr>md_Started := True\<rparr>))\<rparr>"

definition lab_idle :: "(string, string) managed" where
  "lab_idle = \<lparr>md_Options = None, md_Controllers = [], md_Checks = [], md_Started = False\<rparr>"

interpretation lab_op: operator_process lab_manager "\<lambda>w. w" lab_scheme lab_sch
  by unfold_locales (auto simp: lab_manager_def lab_init frame_def split: if_splits)

section \<open>Properties\<close>

text \<open>C19. One binary, two modes, never mixed. Whatever the command line: an operator that gets as far as starting its
  manager has given it the options of the flags and, with \<open>-node-agent\<close>, exactly the datapath actuator, bound to the
  node \<open>NODE_NAME\<close> names, and no health checks; without it exactly the eight management controllers, the EdgeSite
  one with its default repositories, and both checks. HTTP/2 is off on both servers unless it was enabled. An operator
  that meets any error before that exits with a status other than 0 and starts nothing.\<close>

theorem operator_main_correct:
  assumes "operator_manager M mv" and "run_state (operator_main M X args) w = (x, w')" and "\<not> md_Started (mv w)"
  shows "if md_Started (mv w')
    then \<exists>opts cs. flag_Parse X args default_options = Parsed opts \<and> NewClientset M (mg_Config M) = Inr cs
      \<and> md_Options (mv w') = Some (manager_options_of opts)
      \<and> map ct_Reconciler (md_Controllers (mv w')) = (if nodeAgent opts
          then [RUPFDataPath (Some (mg_Config M)) (mg_Getenv M ''NODE_NAME'') (Some cs)]
          else [RSDCoreDeployment (Some (mg_Config M)), RNFDeployment (Some (mg_Config M)), REdgeSite ''blueprints'' ''mgmt'', RFleet, RMeshLink,
            RSubscriber, RNetworkSlice (Some (mg_Config M)) (Some cs), RNetwork])
      \<and> md_Checks (mv w') = (if nodeAgent opts then [] else [''healthz'', ''readyz''])
      \<and> (\<forall>srv \<in> {mo_Metrics (manager_options_of opts), mo_Webhook (manager_options_of opts)}. \<forall>c.
           NextProtos (fold (\<lambda>f. f) (srv_TLSOpts srv) c) = (if enableHTTP2 opts then NextProtos c else [''http/1.1'']))
    else x \<noteq> Return \<and> (flag_Parse X args default_options \<noteq> Exits 0 \<longrightarrow> x \<noteq> Exit 0)"
proof (cases "flag_Parse X args default_options")
  case (Exits n)
  with assms(2,3) show ?thesis by (auto simp: operator_main_def)
next
  case (Parsed opts)
  with assms(2) have run: "run_state (run_operator M opts) w = (x, w')" by (simp add: operator_main_def)
  have tls: "\<forall>srv \<in> {mo_Metrics (manager_options_of opts), mo_Webhook (manager_options_of opts)}. \<forall>c.
       NextProtos (fold (\<lambda>f. f) (srv_TLSOpts srv) c) = (if enableHTTP2 opts then NextProtos c else [''http/1.1''])"
    by (simp add: manager_options_of_def metricsServerOptions_def webhookServerOptions_def tlsOpts_def disableHTTP2_def Let_def)
  show ?thesis
  proof (cases "md_Started (mv w')")
    case True
    with operator_manager.operator_runs [OF assms(1) run assms(3)] obtain cs where "NewClientset M (mg_Config M) = Inr cs"
      "md_Options (mv w') = Some (manager_options_of opts)"
      "md_Controllers (mv w') = (if nodeAgent opts then [actuator M cs] else managers M cs)"
      "md_Checks (mv w') = (if nodeAgent opts then [] else [''healthz'', ''readyz''])" by auto
    with True Parsed tls show ?thesis by (auto simp: actuator_def managers_def controller_for_def)
  next
    case False
    with operator_manager.operator_runs [OF assms(1) run assms(3)] show ?thesis by simp
  qed
qed

text \<open>The command lines of \<open>blueprints/datapath-actuator/daemonset.yaml\<close> and \<open>config/manager/manager.yaml\<close>.\<close>

definition daemonset_args :: "string list" where
  "daemonset_args = [''--node-agent'']"

definition deployment_args :: "string list" where
  "deployment_args = [''--leader-elect'', ''--health-probe-bind-address=:8081'']"

lemma lab_parses:
  "flag_Parse X daemonset_args default_options = Parsed (default_options\<lparr>nodeAgent := True\<rparr>)"
  "flag_Parse X deployment_args default_options = Parsed (default_options\<lparr>enableLeaderElection := True\<rparr>)"
  by (simp_all add: daemonset_args_def deployment_args_def flag_token_def bool_flags_def string_flags_def default_options_def)

theorem operator_main_correct_witness:
  "\<exists>w'. run_state (operator_main lab_manager (\<lambda>n. None) daemonset_args) lab_idle = (Return, w')
     \<and> map ct_Reconciler (md_Controllers w') = [RUPFDataPath (Some ''in-cluster'') ''edge-1'' (Some ''in-cluster'')]"
proof -
  have "operator_main lab_manager (\<lambda>n. None) daemonset_args = run_operator lab_manager (default_options\<lparr>nodeAgent := True\<rparr>)"
    by (simp add: operator_main_def lab_parses)
  moreover have "map_prod (\<lambda>x. x) md_Started (run_state (run_operator lab_manager (default_options\<lparr>nodeAgent := True\<rparr>)) lab_idle) = (Return, True)"
    by code_simp
  ultimately obtain w' where run: "run_state (operator_main lab_manager (\<lambda>n. None) daemonset_args) lab_idle = (Return, w')" "md_Started w'"
    by (metis (no_types, lifting) map_prod_simp prod.collapse prod.inject)
  with operator_main_correct [OF lab_op.operator_manager_axioms run(1)] show ?thesis
    by (auto simp: lab_idle_def lab_parses lab_manager_def)
qed

text \<open>C20. Nothing in the operator itself keeps it from starting. With the scheme \<open>init\<close> builds, every type a
  controller is for, owns or watches is registered (NFDeployment by the explicit call, as Nephio's own \<open>AddToScheme\<close>
  may add nothing), and the names of the controllers differ, so when the configuration, the manager, the clientset and
  the checks are to be had, both modes reach \<open>Start\<close>.\<close>

theorem operator_main_starts:
  assumes "operator_process M mv S s" and "run_state (run_operator M opts) w = (x, w')" and "\<not> md_Started (mv w)"
    and "fst (run_state (GetConfigOrDie M) w) = True" and "\<And>v. fst (run_state (NewManager M (manager_options_of opts)) v) = None"
    and "NewClientset M (mg_Config M) = Inr cs"
    and "\<And>n v. fst (run_state (AddHealthzCheck M n) v) = None" and "\<And>n v. fst (run_state (AddReadyzCheck M n) v) = None"
  shows "md_Started (mv w')"
  by (rule operator_process.operator_starts [OF assms(1), OF assms(2), OF assms(3), OF assms(4), OF assms(5), OF assms(6), OF assms(7), OF assms(8)])

theorem operator_main_starts_witness:
  "md_Started (snd (run_state (run_operator lab_manager (default_options\<lparr>enableLeaderElection := True\<rparr>)) lab_idle))"
  by (rule operator_main_starts [OF lab_op.operator_process_axioms prod.collapse [symmetric]])
    (simp_all add: lab_idle_def lab_manager_def)

text \<open>C39. The kinds the operator reads and writes are those its scheme registers: every typed object of the two API
  packages is, in the scheme \<open>init\<close> builds, of the group, version and kind the client addresses it by, and so is the
  list type the informers decode it from.\<close>

theorem registered_kinds_agree:
  assumes "scheme_laws S" and "main_init S = Some s" and "gotype_of x = Some t"
  shows "sch_kind S s t = Some (gvk_of x)
    \<and> sch_kind S s (fst t, snd t @ ''List'') = Some ((gvk_of x)\<lparr>gvk_Kind := gvk_Kind (gvk_of x) @ ''List''\<rparr>)"
proof -
  note kinds = scheme_laws.main_init_kinds [OF assms(1,2)]
  note k = kinds(1) [unfolded sdcore_kinds_def] and l = kinds(1) [unfolded sdcore_kinds_def sdcore_type_def] kinds(2,3) [unfolded nephio_type_def nfdGVK_def]
  from assms(3) show ?thesis
    by (cases x) (auto simp: k l sdcoreGVK_def nfdGVK_def sdcore_type_def nephio_type_def)
qed

theorem registered_kinds_agree_witness:
  "map_of lab_sch (nephio_type ''NFDeployment'') = Some nfdGVK"
proof -
  fix nf :: NFDeployment
  have "sch_kind lab_scheme lab_sch (nephio_type ''NFDeployment'') = Some (gvk_of (KNFDeployment nf))"
    using registered_kinds_agree [OF lab_scheme.scheme_laws_axioms lab_init, of "KNFDeployment nf"] by simp
  then show ?thesis by (simp add: lab_scheme_def)
qed

text \<open>A command line of settings \<open>--flag=value\<close> is read back as those settings: parsing it gives the defaults changed
  by each in turn, the last one winning, whatever flags other packages define.\<close>

theorem flag_Parse_settings:
  assumes "\<forall>s \<in> set ss. setting_ok s"
  shows "flag_Parse X (map setting_arg ss) opts = Parsed (fold apply_setting ss opts)"
  using assms
proof (induction ss arbitrary: opts)
  case (Cons s ss)
  show ?case
  proof (cases s)
    case (SetBool n b)
    with Cons.prems have n: "n \<in> fst ` set bool_flags" by simp
    then obtain f where f: "map_of bool_flags n = Some f" by (metis map_of_eq_None_iff option.exhaust)
    have "flag_token (setting_arg s) = Flag n (Some (if b then ''true'' else ''false''))"
      using flag_names [of n] n flag_token_setting [of n] SetBool by simp
    with Cons f SetBool show ?thesis by (simp add: ParseBool_def)
  next
    case (SetString n v)
    with Cons.prems have n: "n \<in> fst ` set string_flags" by simp
    then obtain f where f: "map_of string_flags n = Some f" by (metis map_of_eq_None_iff option.exhaust)
    have "flag_token (setting_arg s) = Flag n (Some v)"
      using flag_names [of n] n flag_token_setting [of n] SetString by simp
    with Cons f string_not_bool [OF n] SetString show ?thesis by simp
  qed
qed simp

theorem flag_Parse_settings_witness:
  "flag_Parse (\<lambda>n. None) [''--metrics-bind-address=:8443'', ''--enable-http2=true''] default_options
     = Parsed (default_options\<lparr>metricsAddr := '':8443'', enableHTTP2 := True\<rparr>)"
  using flag_Parse_settings [of "[SetString ''metrics-bind-address'' '':8443'', SetBool ''enable-http2'' True]" "\<lambda>n. None" default_options]
  by (simp add: bool_flags_def string_flags_def default_options_def)

end
