(* ===== verification/Controller_Events.thy ===== *)
theory Controller_Events
  imports Operator_Main Fleet_Controller MeshLink_Controller
begin

text \<open>
  How the controllers wake each other. \<open>Operator_Main\<close> says what each controller watches; controller-runtime turns
  the change of an object into reconcile requests, a parameter with the laws of \<open>event_routing\<close>. On top of it a
  step relation: the reconciles of one site and of its MeshLink, the queue of requests, and everything else that
  happens. It shows which changes of a site's children reach the site again, and that the EdgeSite and the
  MeshLink controller, both writing the finalizers of the MeshLink, never let each other rest.
\<close>

section \<open>Events\<close>

datatype event = Created kobject | Updated kobject kobject | Deleted kobject

fun event_objects :: "event \<Rightarrow> kobject list" where
  "event_objects (Created x) = [x]"
| "event_objects (Updated x y) = [x, y]"
| "event_objects (Deleted x) = [x]"

fun event_between :: "kobject option \<Rightarrow> kobject option \<Rightarrow> event option" where
  "event_between None None = None"
| "event_between None (Some y) = Some (Created y)"
| "event_between (Some x) None = Some (Deleted x)"
| "event_between (Some x) (Some y) = (if x = y then None else Some (Updated x y))"

text \<open>What \<open>GenerationChangedPredicate\<close> filters out.\<close>

fun same_generation :: "event \<Rightarrow> bool" where
  "same_generation (Updated x y) = (om_Generation (meta_of x) = om_Generation (meta_of y))"
| "same_generation _ = False"

section \<open>Requests\<close>

text \<open>The controller reference of an object, and the group of an \<open>apiVersion\<close>.\<close>

definition controller_ref :: "kobject \<Rightarrow> OwnerReference option" where
  "controller_ref x = find (\<lambda>ref. or_Controller ref = Some True) (om_OwnerReferences (meta_of x))"

definition group_of :: "string \<Rightarrow> string" where
  "group_of v = (if CHR ''/'' \<in> set v then takeWhile (\<lambda>c. c \<noteq> CHR ''/'') v else '''')"

definition request_of :: "kobject \<Rightarrow> string \<times> string" where
  "request_of x = (om_Namespace (meta_of x), om_Name (meta_of x))"

definition owner_request :: "GVK \<Rightarrow> kobject \<Rightarrow> (string \<times> string) option" where
  "owner_request g x = (case controller_ref x of None \<Rightarrow> None
     | Some ref \<Rightarrow> if or_Kind ref = gvk_Kind g \<and> group_of (or_APIVersion ref) = gvk_Group g
         then Some (om_Namespace (meta_of x), or_Name ref) else None)"

fun watched_kind :: "(gotype \<Rightarrow> GVK option) \<Rightarrow> watched \<Rightarrow> GVK option" where
  "watched_kind K (Typed t) = K t"
| "watched_kind K (Untyped g) = Some g"

text \<open>
  What a controller takes from an object an event is about: itself, when the controller is for its kind; its
  controller owner, when the controller owns its kind; what the controller's map function makes of it.
\<close>

definition takes_self :: "(gotype \<Rightarrow> GVK option) \<Rightarrow> ('c, 'k) controller \<Rightarrow> event \<Rightarrow> kobject \<Rightarrow> bool" where
  "takes_self K c ev x \<longleftrightarrow> K (ct_For c) = Some (gvk_of x) \<and> \<not> (ct_GenerationChanged c \<and> same_generation ev)"

definition takes_owner :: "(gotype \<Rightarrow> GVK option) \<Rightarrow> ('c, 'k) controller \<Rightarrow> kobject \<Rightarrow> string \<times> string \<Rightarrow> bool" where
  "takes_owner K c x q \<longleftrightarrow> Some (gvk_of x) \<in> watched_kind K ` set (ct_Owns c)
     \<and> (case K (ct_For c) of Some g \<Rightarrow> owner_request g x = Some q | None \<Rightarrow> False)"

definition takes_mapped :: "(gotype \<Rightarrow> GVK option) \<Rightarrow> ('c, 'k) controller \<Rightarrow> kobject \<Rightarrow> string \<times> string \<Rightarrow> bool" where
  "takes_mapped K c x q \<longleftrightarrow> (\<exists>(t, f) \<in> set (ct_Watches c). K t = Some (gvk_of x) \<and> q \<in> set (f x))"

locale event_routing =
  fixes K :: "gotype \<Rightarrow> GVK option" and requests :: "('c, 'k) controller \<Rightarrow> event \<Rightarrow> (string \<times> string) set"
  assumes self_requested: "x \<in> set (event_objects ev) \<Longrightarrow> takes_self K c ev x \<Longrightarrow> request_of x \<in> requests c ev"
    and owner_requested: "x \<in> set (event_objects ev) \<Longrightarrow> takes_owner K c x q \<Longrightarrow> q \<in> requests c ev"
    and mapped_requested: "x \<in> set (event_objects ev) \<Longrightarrow> takes_mapped K c x q \<Longrightarrow> q \<in> requests c ev"
    and only_requested: "q \<in> requests c ev \<Longrightarrow> \<exists>x \<in> set (event_objects ev).
      takes_self K c ev x \<and> q = request_of x \<or> takes_owner K c x q \<or> takes_mapped K c x q"

text \<open>The controllers of the management process, with the scheme it has.\<close>

locale operator_events = event_routing K requests
  for K :: "gotype \<Rightarrow> GVK option" and requests :: "('c, 'k) controller \<Rightarrow> event \<Rightarrow> (string \<times> string) set" +
  assumes kinds: "n \<in> set sdcore_kinds \<Longrightarrow> K (sdcore_type n) = Some (sdcoreGVK n)"

definition site_controller :: "('w, 'c, 'k) manager \<Rightarrow> 'k \<Rightarrow> ('c, 'k) controller" where
  "site_controller M cs = managers M cs ! 2"

definition fleet_controller :: "('w, 'c, 'k) manager \<Rightarrow> 'k \<Rightarrow> ('c, 'k) controller" where
  "fleet_controller M cs = managers M cs ! 3"

definition mesh_controller :: "('w, 'c, 'k) manager \<Rightarrow> 'k \<Rightarrow> ('c, 'k) controller" where
  "mesh_controller M cs = managers M cs ! 4"

lemma controllers_eq:
  "site_controller M cs = (controller_for (REdgeSite ''blueprints'' ''mgmt'') (sdcore_type ''EdgeSite''))
     \<lparr>ct_Owns := [Typed (sdcore_type ''MeshLink''), Untyped pvGVK]\<rparr>"
  "fleet_controller M cs = (controller_for RFleet (sdcore_type ''Fleet''))\<lparr>ct_Owns := [Typed (sdcore_type ''EdgeSite'')]\<rparr>"
  "mesh_controller M cs = controller_for RMeshLink (sdcore_type ''MeshLink'')"
  by (simp_all add: site_controller_def fleet_controller_def mesh_controller_def managers_def)

lemma group_sdcore: "group_of SchemeGroupVersion = ''sdcore.nephio.io''"
  by (simp add: group_of_def SchemeGroupVersion_def)

context operator_events
begin

lemma sdcore_K [simp]:
  "K (sdcore_type ''EdgeSite'') = Some (sdcoreGVK ''EdgeSite'')" "K (sdcore_type ''MeshLink'') = Some (sdcoreGVK ''MeshLink'')"
  "K (sdcore_type ''Fleet'') = Some (sdcoreGVK ''Fleet'')"
  by (rule kinds; simp add: sdcore_kinds_def)+

text \<open>What reaches the EdgeSite controller: its sites, and their MeshLinks and PackageVariants. Nothing else.\<close>

lemma site_requests:
  "q \<in> requests (site_controller M cs) ev \<longleftrightarrow>
     (\<exists>x \<in> set (event_objects ev). gvk_of x = sdcoreGVK ''EdgeSite'' \<and> q = request_of x
        \<or> gvk_of x \<in> {sdcoreGVK ''MeshLink'', pvGVK} \<and> owner_request (sdcoreGVK ''EdgeSite'') x = Some q)"
proof -
  have self: "takes_self K (site_controller M cs) ev x \<longleftrightarrow> gvk_of x = sdcoreGVK ''EdgeSite''" for x
    by (auto simp: takes_self_def controllers_eq controller_for_def)
  have owner: "takes_owner K (site_controller M cs) x q
      \<longleftrightarrow> gvk_of x \<in> {sdcoreGVK ''MeshLink'', pvGVK} \<and> owner_request (sdcoreGVK ''EdgeSite'') x = Some q" for x
    by (auto simp: takes_owner_def controllers_eq controller_for_def)
  have none: "\<not> takes_mapped K (site_controller M cs) x q" for x
    by (simp add: takes_mapped_def controllers_eq controller_for_def)
  show ?thesis
    using self_requested [of _ ev "site_controller M cs"] owner_requested [of _ ev "site_controller M cs" q]
      only_requested [of q "site_controller M cs" ev] unfolding self owner by (auto simp: none)
qed

lemma fleet_requests:
  "q \<in> requests (fleet_controller M cs) ev \<longleftrightarrow>
     (\<exists>x \<in> set (event_objects ev). gvk_of x = sdcoreGVK ''Fleet'' \<and> q = request_of x
        \<or> gvk_of x = sdcoreGVK ''EdgeSite'' \<and> owner_request (sdcoreGVK ''Fleet'') x = Some q)"
proof -
  have self: "takes_self K (fleet_controller M cs) ev x \<longleftrightarrow> gvk_of x = sdcoreGVK ''Fleet''" for x
    by (auto simp: takes_self_def controllers_eq controller_for_def)
  have owner: "takes_owner K (fleet_controller M cs) x q
      \<longleftrightarrow> gvk_of x = sdcoreGVK ''EdgeSite'' \<and> owner_request (sdcoreGVK ''Fleet'') x = Some q" for x
    by (auto simp: takes_owner_def controllers_eq controller_for_def)
  have none: "\<not> takes_mapped K (fleet_controller M cs) x q" for x
    by (simp add: takes_mapped_def controllers_eq controller_for_def)
  show ?thesis
    using self_requested [of _ ev "fleet_controller M cs"] owner_requested [of _ ev "fleet_controller M cs" q]
      only_requested [of q "fleet_controller M cs" ev] unfolding self owner by (auto simp: none)
qed

lemma mesh_requests:
  "q \<in> requests (mesh_controller M cs) ev \<longleftrightarrow> (\<exists>x \<in> set (event_objects ev). gvk_of x = sdcoreGVK ''MeshLink'' \<and> q = request_of x)"
proof -
  have self: "takes_self K (mesh_controller M cs) ev x \<longleftrightarrow> gvk_of x = sdcoreGVK ''MeshLink''" for x
    by (auto simp: takes_self_def controllers_eq controller_for_def)
  have none: "\<not> takes_mapped K (mesh_controller M cs) x q" "\<not> takes_owner K (mesh_controller M cs) x q" for x
    by (simp_all add: takes_mapped_def takes_owner_def controllers_eq controller_for_def)
  show ?thesis
    using self_requested [of _ ev "mesh_controller M cs"] only_requested [of q "mesh_controller M cs" ev]
    unfolding self by (auto simp: none)
qed

end

section \<open>Routing in memory\<close>

definition lab_requests :: "(gotype \<Rightarrow> GVK option) \<Rightarrow> ('c, 'k) controller \<Rightarrow> event \<Rightarrow> (string \<times> string) set" where
  "lab_requests K c ev = set (concat (map (\<lambda>x.
     (if takes_self K c ev x then [request_of x] else [])
     @ (if Some (gvk_of x) \<in> watched_kind K ` set (ct_Owns c)
        then (case K (ct_For c) of None \<Rightarrow> [] | Some g \<Rightarrow> (case owner_request g x of None \<Rightarrow> [] | Some q \<Rightarrow> [q])) else [])
     @ concat (map (\<lambda>(t, f). if K t = Some (gvk_of x) then f x else []) (ct_Watches c))) (event_objects ev)))"

lemma lab_requests_iff:
  "q \<in> lab_requests K c ev \<longleftrightarrow> (\<exists>x \<in> set (event_objects ev).
     takes_self K c ev x \<and> q = request_of x \<or> takes_owner K c x q \<or> takes_mapped K c x q)"
proof -
  have o: "q \<in> set (if Some (gvk_of x) \<in> watched_kind K ` set (ct_Owns c)
        then (case K (ct_For c) of None \<Rightarrow> [] | Some g \<Rightarrow> (case owner_request g x of None \<Rightarrow> [] | Some q \<Rightarrow> [q])) else [])
     \<longleftrightarrow> takes_owner K c x q" for x
    unfolding takes_owner_def
    by (cases q; cases "Some (gvk_of x) \<in> watched_kind K ` set (ct_Owns c)"; simp split: option.split; metis)
  have m: "q \<in> set (concat (map (\<lambda>(t, f). if K t = Some (gvk_of x) then f x else []) (ct_Watches c))) \<longleftrightarrow> takes_mapped K c x q" for x
    unfolding takes_mapped_def by (auto split: if_splits)
  have s: "q \<in> set (if takes_self K c ev x then [request_of x] else []) \<longleftrightarrow> takes_self K c ev x \<and> q = request_of x" for x
    by auto
  show ?thesis
    unfolding lab_requests_def set_concat set_map UN_iff image_image set_append Un_iff o s m [unfolded set_concat set_map UN_iff image_image]
    by blast
qed

interpretation lab_events: operator_events "sch_kind lab_scheme lab_sch" "lab_requests (sch_kind lab_scheme lab_sch)"
proof (intro operator_events.intro event_routing.intro operator_events_axioms.intro)
  show "sch_kind lab_scheme lab_sch (sdcore_type n) = Some (sdcoreGVK n)" if "n \<in> set sdcore_kinds" for n
    using lab_scheme.main_init_kinds(1) [OF lab_init that] .
qed (unfold lab_requests_iff, blast+)

section \<open>A site and its MeshLink\<close>

text \<open>The MeshLink of a site as the EdgeSite controller leaves it: without finalizers, controlled by the site.\<close>

definition unguarded :: "('w \<Rightarrow> ObjectKey \<Rightarrow> kobject option) \<Rightarrow> 'w \<Rightarrow> string \<Rightarrow> string \<Rightarrow> bool" where
  "unguarded view w ns n \<longleftrightarrow> (\<exists>ml. view w (meshKey ns n) = Some (KMeshLink ml) \<and> om_DeletionTimestamp (ml_Meta ml) = None
     \<and> om_Finalizers (ml_Meta ml) = [] \<and> owner_request (sdcoreGVK ''EdgeSite'') (KMeshLink ml) = Some (ns, n))"

lemma owned_request:
  assumes "same_intent (owned_by es x) y"
  shows "owner_request (sdcoreGVK ''EdgeSite'') y = Some (om_Namespace (meta_of x), om_Name (es_Meta es))"
proof -
  have own: "om_OwnerReferences (meta_of y) = [site_owner es]" and key: "key_of y = key_of x"
    using same_intentD(2,3) [OF assms] by simp_all
  have "controller_ref y = Some (site_owner es)" by (simp add: controller_ref_def own site_owner_def)
  moreover have "om_Namespace (meta_of y) = om_Namespace (meta_of x)" using key by (simp add: key_of_mk_key)
  moreover have "or_Kind (site_owner es) = gvk_Kind (sdcoreGVK ''EdgeSite'')" "or_Name (site_owner es) = om_Name (es_Meta es)"
    "group_of (or_APIVersion (site_owner es)) = gvk_Group (sdcoreGVK ''EdgeSite'')"
    by (simp_all add: site_owner_def sdcoreGVK_def group_sdcore)
  ultimately show ?thesis by (simp add: owner_request_def)
qed

lemma package_unchanged:
  assumes "same_intent (owned_by es (pkg_variant b s n up rp dn i)) y"
  shows "spec_unchanged (pkg_variant b s n up rp dn i) y"
proof -
  obtain u where u: "pkg_variant b s n up rp dn i = KUnstructured u" by (simp add: pkg_variant_def)
  have wf: "json_wf (u_Spec u)" using u by (auto simp: pkg_variant_def)
  have "settled es (KUnstructured u) y" using assms same_intentD(3) [OF assms] by (simp add: settled_def u)
  with settled_unchanged [OF wf] u show ?thesis by simp
qed

lemma plan_mesh:
  "Child x \<in> set (site_plan r es) \<Longrightarrow> key_of x = meshKey ns n \<Longrightarrow>
     x = mesh_link es (if es_ControlPlane (es_Spec es) = '''' then ''mgmt'' else es_ControlPlane (es_Spec es))"
  by (auto simp: site_plan_def Let_def meshKey_def split: if_splits option.splits)

lemma plan_namespace: "Child x \<in> set (site_plan r es) \<Longrightarrow> om_Namespace (meta_of x) = om_Namespace (es_Meta es)"
  by (auto simp: site_plan_def Let_def child_defs named_meta_def split: if_splits option.splits)

context edgesite_delivery
begin

lemma mesh_item:
  assumes p: "p \<in> set (site_plan r es)" and nm: "om_Namespace (es_Meta es) = ns" "om_Name (es_Meta es) = n"
    and run: "run_state (run_item r es p) w = (e, w')"
    and y: "view w (meshKey ns n) = Some y" "om_DeletionTimestamp (meta_of y) = None"
  shows "unguarded view w' ns n
    \<or> view w' (meshKey ns n) = view w (meshKey ns n) \<and> (e = None \<longrightarrow> (\<forall>x. p = Child x \<longrightarrow> key_of x \<noteq> meshKey ns n))"
proof (cases p)
  case (Files fs)
  with run frameD [OF gitPut_all_view] show ?thesis by simp
next
  case (Child x)
  show ?thesis
  proof (cases "key_of x = meshKey ns n")
    case False
    with run Child applyOwned_effect [of es x w e w'] show ?thesis by auto
  next
    case True
    obtain cp where x: "x = mesh_link es cp" using plan_mesh p Child True by blast
    have spec: "\<not> spec_unchanged x y" by (simp add: x spec_unchanged_def mesh_link_def)
    from applyOwned_found [OF run [unfolded Child run_item.simps] y(1) [folded True]] spec
    consider "e \<noteq> None" "view w' = view w"
      | z where "e = None" "same_intent (owned_by es x) z" "om_Finalizers (meta_of z) = om_Finalizers (meta_of x)"
        "om_DeletionTimestamp (meta_of z) = None" "view w' (meshKey ns n) = Some z"
      using y(2) True by (fastforce simp: live_def)
    then show ?thesis
    proof cases
      case (2 z)
      from same_intentD(1) [OF 2(2)] have "spec_of z = spec_of x" by simp
      then obtain ml where "z = KMeshLink ml" by (cases z) (auto simp: x mesh_link_def)
      with 2 owned_request [OF 2(2)] nm show ?thesis
        by (auto simp: unguarded_def x mesh_link_def named_meta_def)
    qed (use Child in auto)
  qed
qed

lemma run_item_site:
  assumes "p \<in> set (site_plan r es)" and "run_state (run_item r es p) w = (e, w')"
  shows "view w' (site_key ns n) = view w (site_key ns n)"
proof (cases p)
  case (Child x)
  with assms site_key_fresh [of x r es ns n] applyOwned_effect [of es x w e w'] show ?thesis by simp
next
  case (Files fs)
  with assms frameD [OF gitPut_all_view] show ?thesis by simp
qed

text \<open>All the steps, whether they succeed or not.\<close>

lemma mesh_steps:
  assumes run: "run_state (for_until_err (site_step r es) (site_steps r es)) w = (e, w')"
    and vip: "es_N2VIP (es_Spec es) \<noteq> ''''" and role: "es_Role (es_Spec es) = ''upf-only''"
    and nm: "om_Namespace (es_Meta es) = ns" "om_Name (es_Meta es) = n"
    and y: "view w (meshKey ns n) = Some y" "om_DeletionTimestamp (meta_of y) = None"
  shows "map_option lasting (view w' (site_key ns n)) = map_option lasting (view w (site_key ns n))
    \<and> (unguarded view w' ns n \<or> e \<noteq> None \<and> view w' (meshKey ns n) = view w (meshKey ns n))"
proof -
  let ?I = "\<lambda>v. map_option lasting (view v (site_key ns n)) = map_option lasting (view w (site_key ns n))
    \<and> (unguarded view v ns n \<or> view v (meshKey ns n) = view w (meshKey ns n))"
  have item: "?I v' \<and> (e = None \<longrightarrow> (\<forall>x. p = Child x \<longrightarrow> key_of x = meshKey ns n \<longrightarrow> unguarded view v' ns n))"
    if p: "p \<in> set (site_plan r es)" and I: "?I v" and r: "run_state (run_item r es p) v = (e, v')" for p v e v'
  proof -
    from I y obtain z where z: "view v (meshKey ns n) = Some z" "om_DeletionTimestamp (meta_of z) = None"
      by (auto simp: unguarded_def)
    from mesh_item [OF p nm r z] I run_item_site [OF p r, of ns n] show ?thesis by (auto simp: unguarded_def)
  qed
  have step: "?I v'" if p: "p \<in> set (site_steps r es)" and I: "?I v" and r: "run_state (site_step r es p) v = (e, v')" for p v e v'
  proof -
    have "snd p \<in> run_item r es ` set (site_plan r es)"
      using imageI [OF p, of snd] site_steps_plan [OF vip, of r] by (metis list.set_map)
    then obtain q where q: "q \<in> set (site_plan r es)" "snd p = run_item r es q" by blast
    obtain e1 v1 where r1: "run_state (run_item r es q) v = (e1, v1)" by force
    from item [OF q(1) I r1] have I1: "?I v1" by blast
    show ?thesis
    proof (cases e1)
      case None
      with r r1 q(2) I1 show ?thesis by (auto simp: site_step_def step_def)
    next
      case (Some err)
      obtain u v2 where u: "run_state (kStatusUpdate (esr_Client r) (KEdgeSite (failed_site r (fst p) err es))) v1 = (u, v2)" by force
      with r r1 q(2) Some have v2: "v' = v2" by (simp add: site_step_def step_def Let_def)
      have "meshKey ns n \<noteq> key_of (KEdgeSite x)" for x by (simp add: meshKey_def key_of_mk_key)
      with status_other [OF u] frameD [OF status_lasting u] I1 show ?thesis unfolding v2 by (simp add: unguarded_def)
    qed
  qed
  from for_until_err_inv [OF run, of ?I] step have I: "?I w'" by blast
  moreover have "unguarded view w' ns n" if "e = None"
  proof -
    note loop = run [unfolded that site_steps_ok site_steps_plan [OF vip] for_until_err_map]
    let ?m = "mesh_link es (if es_ControlPlane (es_Spec es) = '''' then ''mgmt'' else es_ControlPlane (es_Spec es))"
    have m: "Child ?m \<in> set (site_plan r es)" "key_of ?m = meshKey ns n"
      using role nm by (simp_all add: site_plan_def Let_def meshKey_def)
    let ?Q = "\<lambda>p v. p = Child ?m \<longrightarrow> unguarded view v ns n"
    have "?I w' \<and> (\<forall>p \<in> set (site_plan r es). ?Q p w')"
    proof (rule for_until_err_all [OF loop])
      fix p q v v'
      assume p: "p \<in> set (site_plan r es)" and I: "?I v" and r: "run_state (run_item r es p) v = (None, v')"
      show "?I v' \<and> ?Q p v'" using item [OF p I r] m(2) by blast
    next
      fix p q v v'
      assume q: "q \<in> set (site_plan r es)" and I: "?I v" and P: "?Q p v" and r: "run_state (run_item r es q) v = (None, v')"
      from I y obtain z where z: "view v (meshKey ns n) = Some z" "om_DeletionTimestamp (meta_of z) = None"
        by (auto simp: unguarded_def)
      from mesh_item [OF q nm r z] P show "?Q p v'" by (auto simp: unguarded_def)
    qed simp
    with m show ?thesis by blast
  qed
  ultimately show ?thesis by blast
qed

end

text \<open>The site is stored and has the user plane only.\<close>

definition upf_only :: "('w \<Rightarrow> ObjectKey \<Rightarrow> kobject option) \<Rightarrow> 'w \<Rightarrow> string \<Rightarrow> string \<Rightarrow> bool" where
  "upf_only view w ns n \<longleftrightarrow> (\<exists>s. view w (site_key ns n) = Some (KEdgeSite s) \<and> es_Role (es_Spec s) = ''upf-only'')"

lemma upf_only_lasting:
  assumes "map_option lasting (view w' (site_key ns n)) = map_option lasting (view w (site_key ns n))" and "upf_only view w ns n"
  shows "upf_only view w' ns n"
proof -
  from assms(2) obtain s where s: "view w (site_key ns n) = Some (KEdgeSite s)" "es_Role (es_Spec s) = ''upf-only''"
    by (auto simp: upf_only_def)
  with assms(1) obtain z where z: "view w' (site_key ns n) = Some z" "spec_of z = SEdgeSite (es_Spec s)"
    by (auto simp: lasting_def)
  then show ?thesis using s(2) by (cases z) (auto simp: upf_only_def)
qed

context edgesite_delivery
begin

lemma site_pass:
  assumes run: "run_state (EdgeSite_Reconcile r ns n) w = ((res, e), w')" and site: "upf_only view w ns n"
    and y: "view w (meshKey ns n) = Some y" "om_DeletionTimestamp (meta_of y) = None"
  shows "upf_only view w' ns n \<and> (unguarded view w' ns n \<or> e \<noteq> None \<and> view w' (meshKey ns n) = view w (meshKey ns n))"
proof -
  from site obtain s where s: "view w (site_key ns n) = Some (KEdgeSite s)" "es_Role (es_Spec s) = ''upf-only''"
    by (auto simp: upf_only_def)
  have key: "key_of (KEdgeSite s) = site_key ns n" using view_key [OF s(1)] .
  have mk: "meshKey ns n \<noteq> site_key ns n" "meshKey ns n \<noteq> key_of (KEdgeSite x)" for x
    by (simp_all add: meshKey_def site_key_def key_of_mk_key)
  have status: "upf_only view v' ns n \<and> view v' (meshKey ns n) = view v (meshKey ns n)"
    if "run_state (kStatusUpdate (esr_Client r) (KEdgeSite x)) v = (u, v')" and "upf_only view v ns n" for x u v v'
    using upf_only_lasting [OF frameD [OF status_lasting that(1)] that(2)] status_other [OF that(1)] mk by simp
  obtain g w0 where g: "run_state (get_as (esr_Client r) as_EdgeSite (site_key ns n)) w = (g, w0)" by force
  have v0: "view w0 = view w" using frameD [OF get_as_frame g] .
  show ?thesis
  proof (cases g)
    case (Inl err)
    have "\<not> IsNotFound err" using get_as_missing [OF g [unfolded Inl]] s by auto
    with run g Inl v0 site show ?thesis by (auto simp: EdgeSite_Reconcile_def IgnoreNotFound_def upf_only_def)
  next
    case (Inr s1)
    with get_as_ok [OF g [unfolded Inr]] s have s1: "s1 = s" by (auto simp: as_simps)
    obtain e0 es wd where d: "run_state (deriveAddressing r s) w0 = ((e0, es), wd)" by (metis surj_pair)
    have is0: "is_site view w0 s" using s key v0 by (simp add: is_site_def)
    show ?thesis
    proof (cases e0)
      case (Some err)
      obtain u w1 where u: "run_state (kStatusUpdate (esr_Client r) (KEdgeSite (failed_site r ''DeriveAddressing'' err es))) wd = (u, w1)" by force
      have vd: "view wd = view w" using is0 d [unfolded Some] v0 by (cases rule: derive_effect) simp_all
      with site have "upf_only view wd ns n" by (simp add: upf_only_def)
      from status [OF u this] run g Inr s1 d Some u vd show ?thesis by (auto simp: EdgeSite_Reconcile_def step_def Let_def)
    next
      case None
      note d = d [unfolded None]
      from derive_ok [OF is0 d] obtain base vip where spec: "es_Spec es = fill_spec (itoa (siteIndex (om_Name (es_Meta s)))) base vip (es_Spec s)"
        and full: "\<not> needs_fill (es_Spec es)" and is1: "is_site view wd es" and k1: "key_of (KEdgeSite es) = site_key ns n"
        and vd: "\<And>k. k \<noteq> site_key ns n \<Longrightarrow> view wd k = view w k" unfolding key v0 by blast
      have role: "es_Role (es_Spec es) = ''upf-only''" using s(2) by (simp add: spec fill_spec_def fill_ran_def fill_site_def)
      have vip: "es_N2VIP (es_Spec es) \<noteq> ''''" using full by (auto simp: needs_fill_def)
      have nm: "om_Namespace (es_Meta es) = ns" "om_Name (es_Meta es) = n" using k1 by (simp_all add: site_key_of site_key_def)
      have site1: "upf_only view wd ns n" using is1 k1 role by (auto simp: upf_only_def is_site_def)
      have y1: "view wd (meshKey ns n) = Some y" using vd mk(1) y(1) by simp
      obtain e1 w2 where l: "run_state (for_until_err (site_step r es) (site_steps r es)) wd = (e1, w2)" by force
      from mesh_steps [OF l vip role nm y1 y(2)] upf_only_lasting [OF _ site1] y1 y(1)
      have mid: "upf_only view w2 ns n" "unguarded view w2 ns n \<or> e1 \<noteq> None \<and> view w2 (meshKey ns n) = view w (meshKey ns n)" by auto
      show ?thesis
      proof (cases e1)
        case (Some err)
        with run g Inr s1 d l mid show ?thesis by (simp add: EdgeSite_Reconcile_def step_def)
      next
        case None
        obtain u w3 where u: "run_state (kStatusUpdate (esr_Client r) (KEdgeSite (emitted_site r es))) w2 = (u, w3)" by force
        with run g Inr s1 d l None have "w' = w3" by (simp add: EdgeSite_Reconcile_def step_def Let_def)
        with status [OF u mid(1)] mid(2) None show ?thesis by (auto simp: unguarded_def)
      qed
    qed
  qed
qed

end

section \<open>The two controllers together\<close>

text \<open>
  The requests of one process that wait: a set of controller names and requests. A reconcile takes its request out;
  an error (or a panic, which controller-runtime recovers from) puts it back; every object a step has changed adds
  the requests of the controllers that watch it. Requests may appear for other reasons (a resync, a timer), so the
  rules bound the queue from below.
\<close>

type_synonym work = "(string \<times> string \<times> string) set"

definition woken ::
    "(('c, 'k) controller \<Rightarrow> event \<Rightarrow> (string \<times> string) set) \<Rightarrow> ('c, 'k) controller list \<Rightarrow> kobject option \<Rightarrow> kobject option \<Rightarrow> work" where
  "woken requests cs x y = (case event_between x y of None \<Rightarrow> {}
     | Some ev \<Rightarrow> {(controller_name c, q) | c q. c \<in> set cs \<and> q \<in> requests c ev})"

text \<open>The request of a site, and the one of its MeshLink, which has the site's name.\<close>

definition site_work :: "string \<Rightarrow> string \<Rightarrow> string \<times> string \<times> string" where
  "site_work ns n = (''edgesite'', ns, n)"

definition mesh_work :: "string \<Rightarrow> string \<Rightarrow> string \<times> string \<times> string" where
  "mesh_work ns n = (''meshlink'', ns, n)"

text \<open>
  The steps that matter to a site: a reconcile of the site, a reconcile of its MeshLink, and anything else that
  happens, as long as it leaves these two objects to the two controllers.
\<close>

inductive site_system ::
    "(('c, 'k) controller \<Rightarrow> event \<Rightarrow> (string \<times> string) set) \<Rightarrow> ('c, 'k) controller list \<Rightarrow> ('w \<Rightarrow> ObjectKey \<Rightarrow> kobject option)
     \<Rightarrow> 'w EdgeSiteReconciler \<Rightarrow> ('w, 'd) MeshLinkReconciler \<Rightarrow> string \<Rightarrow> string \<Rightarrow> 'w \<times> work \<Rightarrow> 'w \<times> work \<Rightarrow> bool"
  for requests :: "('c, 'k) controller \<Rightarrow> event \<Rightarrow> (string \<times> string) set" and cs view r rm ns n where
  site_runs: "site_work ns n \<in> Q \<Longrightarrow> run_state (EdgeSite_Reconcile r ns n) w = ((res, e), w') \<Longrightarrow>
    (\<And>k. woken requests cs (view w k) (view w' k) \<subseteq> Q') \<Longrightarrow> Q - {site_work ns n} \<subseteq> Q' \<Longrightarrow> (e \<noteq> None \<Longrightarrow> site_work ns n \<in> Q') \<Longrightarrow>
    site_system requests cs view r rm ns n (w, Q) (w', Q')"
| mesh_runs: "mesh_work ns n \<in> Q \<Longrightarrow> run_state (MeshLink_Reconcile rm ns n) w = (res, w') \<Longrightarrow>
    (\<And>k. woken requests cs (view w k) (view w' k) \<subseteq> Q') \<Longrightarrow> Q - {mesh_work ns n} \<subseteq> Q' \<Longrightarrow>
    ((\<exists>p. res = Inl p) \<or> (\<exists>a e. res = Inr (a, Some e)) \<Longrightarrow> mesh_work ns n \<in> Q') \<Longrightarrow>
    site_system requests cs view r rm ns n (w, Q) (w', Q')"
| elsewhere: "view w' (site_key ns n) = view w (site_key ns n) \<Longrightarrow> view w' (meshKey ns n) = view w (meshKey ns n) \<Longrightarrow>
    Q \<inter> {site_work ns n, mesh_work ns n} \<subseteq> Q' \<Longrightarrow> site_system requests cs view r rm ns n (w, Q) (w', Q')"

text \<open>Whose turn it is: the MeshLink controller's when the finalizer is missing, else the EdgeSite controller's.\<close>

definition restless :: "('w \<Rightarrow> ObjectKey \<Rightarrow> kobject option) \<Rightarrow> string \<Rightarrow> string \<Rightarrow> 'w \<times> work \<Rightarrow> bool" where
  "restless view ns n st \<longleftrightarrow> upf_only view (fst st) ns n
     \<and> (\<exists>ml. view (fst st) (meshKey ns n) = Some (KMeshLink ml) \<and> om_DeletionTimestamp (ml_Meta ml) = None
          \<and> owner_request (sdcoreGVK ''EdgeSite'') (KMeshLink ml) = Some (ns, n)
          \<and> (if meshFinalizer \<in> set (om_Finalizers (ml_Meta ml)) then site_work ns n else mesh_work ns n) \<in> snd st)"

lemma controllers_of_process:
  "site_controller M cs \<in> set (managers M cs)" "controller_name (site_controller M cs) = ''edgesite''"
  "mesh_controller M cs \<in> set (managers M cs)" "controller_name (mesh_controller M cs) = ''meshlink''"
  by (simp_all add: controllers_eq controller_name_def controller_for_def sdcore_type_def lower_kinds)
    (simp_all add: managers_def controller_for_def sdcore_type_def)

lemma owner_request_cong:
  "om_OwnerReferences (meta_of x) = om_OwnerReferences (meta_of y) \<Longrightarrow> om_Namespace (meta_of x) = om_Namespace (meta_of y) \<Longrightarrow>
     owner_request g x = owner_request g y"
  by (simp add: owner_request_def controller_ref_def split: option.split)

lemma wokenI:
  "event_between x y = Some ev \<Longrightarrow> c \<in> set cs \<Longrightarrow> q \<in> requests c ev \<Longrightarrow> (controller_name c, q) \<in> woken requests cs x y"
  by (cases q) (auto simp: woken_def)

context operator_events
begin

text \<open>A change of the MeshLink wakes both controllers.\<close>

lemma mesh_change_wakes:
  assumes "view w (meshKey ns n) = Some (KMeshLink a)" and b: "view w' (meshKey ns n) = Some (KMeshLink b)" and "a \<noteq> b"
    and key: "key_of (KMeshLink b) = meshKey ns n"
    and all: "\<And>k. woken requests (managers M cs) (view w k) (view w' k) \<subseteq> Q'"
  shows "mesh_work ns n \<in> Q'" and "owner_request (sdcoreGVK ''EdgeSite'') (KMeshLink b) = Some (ns, n) \<Longrightarrow> site_work ns n \<in> Q'"
proof -
  let ?ev = "Updated (KMeshLink a) (KMeshLink b)"
  have ev: "event_between (view w (meshKey ns n)) (view w' (meshKey ns n)) = Some ?ev" using assms(1-3) by simp
  have rq: "request_of (KMeshLink b) = (ns, n)" using key by (simp add: request_of_def meshKey_def key_of_mk_key)
  have "(ns, n) \<in> requests (mesh_controller M cs) ?ev" unfolding mesh_requests using rq by auto
  from wokenI [of _ _ _ _ _ _ requests, OF ev controllers_of_process(3) this]
  have "mesh_work ns n \<in> woken requests (managers M cs) (view w (meshKey ns n)) (view w' (meshKey ns n))"
    by (simp add: mesh_work_def controllers_of_process)
  with all show "mesh_work ns n \<in> Q'" by blast
  assume "owner_request (sdcoreGVK ''EdgeSite'') (KMeshLink b) = Some (ns, n)"
  then have "(ns, n) \<in> requests (site_controller M cs) ?ev" unfolding site_requests by auto
  from wokenI [of _ _ _ _ _ _ requests, OF ev controllers_of_process(1) this]
  have "site_work ns n \<in> woken requests (managers M cs) (view w (meshKey ns n)) (view w' (meshKey ns n))"
    by (simp add: site_work_def controllers_of_process)
  with all show "site_work ns n \<in> Q'" by blast
qed

lemma works_differ: "site_work ns n \<noteq> mesh_work ns n"
  by (simp add: site_work_def mesh_work_def)

lemma restlessE:
  assumes "restless view ns n (w, Q)"
  obtains ml where "upf_only view w ns n" "view w (meshKey ns n) = Some (KMeshLink ml)" "om_DeletionTimestamp (ml_Meta ml) = None"
    "owner_request (sdcoreGVK ''EdgeSite'') (KMeshLink ml) = Some (ns, n)"
    "(if meshFinalizer \<in> set (om_Finalizers (ml_Meta ml)) then site_work ns n else mesh_work ns n) \<in> Q"
  using assms by (auto simp: restless_def)

lemma restless_site_run:
  assumes site: "edgesite_delivery r view repo" and rest: "restless view ns n (w, Q)"
    and run: "run_state (EdgeSite_Reconcile r ns n) w = ((res, e), w')"
    and wake: "\<And>k. woken requests (managers M cs) (view w k) (view w' k) \<subseteq> Q'"
    and keep: "Q - {site_work ns n} \<subseteq> Q'" and again: "e \<noteq> None \<Longrightarrow> site_work ns n \<in> Q'"
  shows "restless view ns n (w', Q')"
proof (rule restlessE [OF rest])
  fix ml
  assume up: "upf_only view w ns n" and ml: "view w (meshKey ns n) = Some (KMeshLink ml)" "om_DeletionTimestamp (ml_Meta ml) = None"
    "owner_request (sdcoreGVK ''EdgeSite'') (KMeshLink ml) = Some (ns, n)"
    and turn: "(if meshFinalizer \<in> set (om_Finalizers (ml_Meta ml)) then site_work ns n else mesh_work ns n) \<in> Q"
  have "om_DeletionTimestamp (meta_of (KMeshLink ml)) = None" using ml(2) by simp
  from edgesite_delivery.site_pass [OF site run up ml(1) this]
  have up': "upf_only view w' ns n" and "unguarded view w' ns n \<or> e \<noteq> None \<and> view w' (meshKey ns n) = view w (meshKey ns n)" by blast+
  then consider b where "view w' (meshKey ns n) = Some (KMeshLink b)" "om_DeletionTimestamp (ml_Meta b) = None"
      "om_Finalizers (ml_Meta b) = []" "owner_request (sdcoreGVK ''EdgeSite'') (KMeshLink b) = Some (ns, n)"
    | "e \<noteq> None" "view w' (meshKey ns n) = view w (meshKey ns n)" by (auto simp: unguarded_def)
  then show ?thesis
  proof cases
    case (1 b)
    have "mesh_work ns n \<in> Q'"
    proof (cases "meshFinalizer \<in> set (om_Finalizers (ml_Meta ml))")
      case True
      then have "ml \<noteq> b" using 1(3) by auto
      have "key_of (KMeshLink b) = meshKey ns n"
        using 1(1) kube_api.view_key [OF delivery_world.axioms(1)] site by (auto simp: edgesite_delivery_def)
      from mesh_change_wakes(1) [of view w ns n _ w', OF ml(1) 1(1) \<open>ml \<noteq> b\<close> this wake] show ?thesis .
    qed (use turn keep works_differ [of ns n] in auto)
    with 1 up' show ?thesis by (auto simp: restless_def)
  next
    case 2
    with ml up' turn keep again works_differ [of ns n] show ?thesis by (auto simp: restless_def split: if_splits)
  qed
qed

lemma restless_mesh_run:
  assumes mesh: "mesh_world rm view repo" and rest: "restless view ns n (w, Q)"
    and run: "run_state (MeshLink_Reconcile rm ns n) w = (res, w')"
    and wake: "\<And>k. woken requests (managers M cs) (view w k) (view w' k) \<subseteq> Q'"
    and keep: "Q - {mesh_work ns n} \<subseteq> Q'" and again: "\<exists>a e. res = Inr (a, Some e) \<Longrightarrow> mesh_work ns n \<in> Q'"
  shows "restless view ns n (w', Q')"
proof (rule restlessE [OF rest])
  fix ml
  assume up: "upf_only view w ns n" and ml: "view w (meshKey ns n) = Some (KMeshLink ml)" "om_DeletionTimestamp (ml_Meta ml) = None"
    "owner_request (sdcoreGVK ''EdgeSite'') (KMeshLink ml) = Some (ns, n)"
    and turn: "(if meshFinalizer \<in> set (om_Finalizers (ml_Meta ml)) then site_work ns n else mesh_work ns n) \<in> Q"
  note key = kube_api.view_key [OF mesh_world.axioms(2) [OF mesh, THEN delivery_world.axioms(1)]]
  have "map_option lasting (view w' (site_key ns n)) = map_option lasting (view w (site_key ns n))"
    using frameD [OF mesh_world.mesh_pass_other [OF mesh, of "''EdgeSite''"] run] by (simp add: site_key_def)
  from upf_only_lasting [OF this up] have up': "upf_only view w' ns n" .
  from mesh_world.mesh_pass [OF mesh ml(1,2) run] obtain fs z where z: "view w' (meshKey ns n) = Some z"
    "lasting z = (SMeshLink (ml_Spec ml), fs, om_OwnerReferences (ml_Meta ml), None)"
    and fs: "if meshFinalizer \<in> set (om_Finalizers (ml_Meta ml)) then fs = om_Finalizers (ml_Meta ml)
       else fs = om_Finalizers (ml_Meta ml) @ [meshFinalizer]
         \<or> view w' (meshKey ns n) = view w (meshKey ns n) \<and> (\<exists>q e. res = Inr (q, Some e))" by auto
  from z(2) obtain b where b: "z = KMeshLink b" "om_Finalizers (ml_Meta b) = fs" "om_OwnerReferences (ml_Meta b) = om_OwnerReferences (ml_Meta ml)"
    "om_DeletionTimestamp (ml_Meta b) = None" by (cases z) (auto simp: lasting_def)
  note z1 = z(1) [unfolded b(1)]
  from key [OF z1] key [OF ml(1)] have "om_Namespace (ml_Meta b) = om_Namespace (ml_Meta ml)" by (simp add: meshKey_def key_of_mk_key)
  with b(3) ml(3) owner_request_cong [of "KMeshLink b" "KMeshLink ml"] have own: "owner_request (sdcoreGVK ''EdgeSite'') (KMeshLink b) = Some (ns, n)" by simp
  have "(if meshFinalizer \<in> set fs then site_work ns n else mesh_work ns n) \<in> Q'"
  proof (cases "meshFinalizer \<in> set (om_Finalizers (ml_Meta ml))")
    case False
    with fs consider "fs = om_Finalizers (ml_Meta ml) @ [meshFinalizer]" | "b = ml" "\<exists>q e. res = Inr (q, Some e)"
      using z1 ml(1) by auto
    then show ?thesis
    proof cases
      case 1
      with False b(2) have "ml \<noteq> b" by auto
      from mesh_change_wakes(2) [of view w ns n _ w', OF ml(1) z1 this key [OF z1] wake own] 1 show ?thesis by simp
    qed (use False b(2) again in auto)
  qed (use fs turn keep works_differ [of ns n] in auto)
  with up' z1 b own show ?thesis by (auto simp: restless_def)
qed

lemma restless_step:
  assumes "edgesite_delivery r view repo" and "mesh_world rm view repo'"
    and "site_system requests (managers M cs) view r rm ns n st st'" and "restless view ns n st"
  shows "restless view ns n st'"
  using assms(3)
proof cases
  case (site_runs Q w res e w' Q')
  with restless_site_run [OF assms(1), of ns n w Q res e w' M cs Q'] assms(4) show ?thesis by blast
next
  case (mesh_runs Q w res w' Q')
  with restless_mesh_run [OF assms(2), of ns n w Q res w' M cs Q'] assms(4) show ?thesis by blast
next
  case (elsewhere w' w Q Q')
  with assms(4) show ?thesis by (auto simp: restless_def upf_only_def split: if_splits)
qed

lemma restless_reachable:
  assumes "edgesite_delivery r view repo" and "mesh_world rm view repo'"
    and "(site_system requests (managers M cs) view r rm ns n)\<^sup>*\<^sup>* st st'" and "restless view ns n st"
  shows "restless view ns n st'"
  using assms(3,4) by (induction rule: rtranclp_induct) (use restless_step [OF assms(1,2)] in blast)+

end

section \<open>A site and its MeshLink in memory\<close>

definition lab_sites :: "mesh_lab EdgeSiteReconciler" where
  "lab_sites = \<lparr>esr_Client = mem_client, esr_Env = lab_env, BlueprintRepo = ''blueprints'', MgmtRepo = ''mgmt''\<rparr>"

interpretation lab_sites: edgesite_delivery lab_sites cl_view lab_repo
  using lab.delivery_world_axioms by (simp add: edgesite_delivery_def lab_sites_def)

definition demo_upf :: EdgeSite where
  "demo_upf = new_EdgeSite ''default'' ''e'' ''192.168.1.7'' ''upf-only''"

text \<open>The MeshLink without its finalizer, and the request of its controller.\<close>

definition demo_pair :: mesh_lab where
  "demo_pair = (let w = demo_mesh [] None [] in
     w\<lparr>cl_objects := [KEdgeSite demo_upf, owned_by demo_upf (KMeshLink (demo_link [] None))] @ tl (cl_objects w)\<rparr>)"

lemma demo_pair_runs:
  "case run_state (MeshLink_Reconcile (lab_mesh (Inr [])) ''default'' ''e'') demo_pair of (res, w') \<Rightarrow>
     res = Inr (requeueMesh, None)
     \<and> (case cl_view w' (meshKey ''default'' ''e'') of Some (KMeshLink ml) \<Rightarrow> meshFinalizer \<in> set (om_Finalizers (ml_Meta ml)) | _ \<Rightarrow> False)"
  by code_simp

section \<open>Properties\<close>

text \<open>C4. The EdgeSite and the MeshLink controller never come to rest on a UPF-only site. The EdgeSite controller owns
  the MeshLink and writes it without finalizers on every pass, the MeshLink controller adds its finalizer on every pass,
  and each change wakes the other: once the MeshLink of a site is in place and the controller whose turn it is has its
  request, then, whatever else happens that leaves the two objects alone and however the passes end, in every state
  the system reaches the request that will undo the other's last write is waiting.\<close>

theorem controllers_never_rest:
  assumes "operator_events K requests" and "edgesite_delivery r view repo" and "mesh_world rm view repo'"
    and "upf_only view w ns n" and "view w (meshKey ns n) = Some (KMeshLink ml)" and "om_DeletionTimestamp (ml_Meta ml) = None"
    and "owner_request (sdcoreGVK ''EdgeSite'') (KMeshLink ml) = Some (ns, n)"
    and "(if meshFinalizer \<in> set (om_Finalizers (ml_Meta ml)) then site_work ns n else mesh_work ns n) \<in> Q"
    and "(site_system requests (managers M cs) view r rm ns n)\<^sup>*\<^sup>* (w, Q) (w', Q')"
  shows "\<exists>ml'. view w' (meshKey ns n) = Some (KMeshLink ml')
    \<and> (if meshFinalizer \<in> set (om_Finalizers (ml_Meta ml')) then site_work ns n else mesh_work ns n) \<in> Q'"
proof -
  have "restless view ns n (w, Q)" using assms(4-8) by (simp add: restless_def)
  from operator_events.restless_reachable [OF assms(1-3,9) this] show ?thesis by (auto simp: restless_def)
qed

theorem controllers_never_rest_witness:
  "\<exists>w' ml. snd (run_state (MeshLink_Reconcile (lab_mesh (Inr [])) ''default'' ''e'') demo_pair) = w'
     \<and> cl_view w' (meshKey ''default'' ''e'') = Some (KMeshLink ml) \<and> meshFinalizer \<in> set (om_Finalizers (ml_Meta ml))
     \<and> site_work ''default'' ''e'' \<in> (\<Union>k. woken (lab_requests (sch_kind lab_scheme lab_sch)) (managers lab_manager ''cs'')
         (cl_view demo_pair k) (cl_view w' k))"
proof -
  let ?R = "lab_requests (sch_kind lab_scheme lab_sch) :: (string, string) controller \<Rightarrow> _" and ?w = demo_pair and ?k = "meshKey ''default'' ''e''"
  obtain w' where run: "run_state (MeshLink_Reconcile (lab_mesh (Inr [])) ''default'' ''e'') ?w = (Inr (requeueMesh, None), w')"
    using demo_pair_runs by (auto split: prod.splits)
  define Q' where "Q' = (\<Union>k. woken ?R (managers lab_manager ''cs'') (cl_view ?w k) (cl_view w' k))"
  have view: "cl_view ?w ?k = Some (KMeshLink ((demo_link [] None)\<lparr>ml_Meta := (ml_Meta (demo_link [] None))\<lparr>om_OwnerReferences := [site_owner demo_upf]\<rparr>\<rparr>))"
    "upf_only cl_view ?w ''default'' ''e''"
    by (simp_all add: upf_only_def demo_pair_def demo_mesh_def Let_def cl_view_def site_key_def key_of_mk_key owned_by_def meshKey_def demo_link_def
      demo_upf_def new_EdgeSite_def named_meta_def live_def)
  have step: "site_system ?R (managers lab_manager ''cs'') cl_view lab_sites (lab_mesh (Inr [])) ''default'' ''e'' (?w, {mesh_work ''default'' ''e''}) (w', Q')"
    by (rule site_system.mesh_runs [OF _ run]) (auto simp: Q'_def)
  have own: "owner_request (sdcoreGVK ''EdgeSite'') (owned_by demo_upf (KMeshLink (demo_link [] None))) = Some (''default'', ''e'')"
    using owned_request [of demo_upf "KMeshLink (demo_link [] None)"] by (simp add: demo_link_def demo_upf_def new_EdgeSite_def named_meta_def)
  have steps: "(site_system ?R (managers lab_manager ''cs'') cl_view lab_sites (lab_mesh (Inr [])) ''default'' ''e'')\<^sup>*\<^sup>*
      (?w, {mesh_work ''default'' ''e''}) (w', Q')" using step by blast
  have "\<exists>ml'. cl_view w' ?k = Some (KMeshLink ml')
    \<and> (if meshFinalizer \<in> set (om_Finalizers (ml_Meta ml')) then site_work ''default'' ''e'' else mesh_work ''default'' ''e'') \<in> Q'"
    by (rule controllers_never_rest [OF lab_events.operator_events_axioms lab_sites.edgesite_delivery_axioms lab_mesh.mesh_world_axioms view(2) view(1)
      _ _ _ steps]) (use own in \<open>simp_all add: demo_link_def owned_by_def\<close>)
  with demo_pair_runs run show ?thesis by (auto simp: Q'_def)
qed

text \<open>C23. What of a site's children reaches the site again: every event about a PackageVariant or the MeshLink the site
  owns requests exactly the site, so a package deleted by hand is emitted again; no event about an IPClaim or the
  NetworkSlice of the site requests anything, so their loss stays unnoticed until something else wakes the site.\<close>

theorem site_children_watched:
  assumes "operator_events K requests" and "Child x \<in> set (site_plan r es)"
    and "\<forall>y \<in> set (event_objects ev). same_intent (owned_by es x) y"
  shows "requests (site_controller M cs) ev = (if gvk_of x = pvGVK \<or> gvk_of x = sdcoreGVK ''MeshLink''
    then {(om_Namespace (es_Meta es), om_Name (es_Meta es))} else {})"
proof -
  have key: "key_of x \<noteq> site_key a b" for a b using site_key_fresh [OF assms(2)] .
  have ns: "om_Namespace (meta_of x) = om_Namespace (es_Meta es)" by (rule plan_namespace [OF assms(2)])
  have gvk: "gvk_of x \<noteq> sdcoreGVK ''EdgeSite''" using key [of "om_Namespace (meta_of x)" "om_Name (meta_of x)"]
    by (auto simp: site_key_def key_of_mk_key)
  have obj: "gvk_of y = gvk_of x \<and> owner_request (sdcoreGVK ''EdgeSite'') y = Some (om_Namespace (es_Meta es), om_Name (es_Meta es))"
    if "y \<in> set (event_objects ev)" for y
  proof -
    from assms(3) that have s: "same_intent (owned_by es x) y" by blast
    from same_intentD(3) [OF s] have "gvk_of y = gvk_of x" by (simp add: key_of_mk_key)
    with owned_request [OF s] ns show ?thesis by simp
  qed
  have "event_objects ev \<noteq> []" by (cases ev) simp_all
  then obtain y where y: "y \<in> set (event_objects ev)" by (cases "event_objects ev") auto
  have each: "gvk_of z = sdcoreGVK ''EdgeSite'' \<and> q = request_of z
      \<or> gvk_of z \<in> {sdcoreGVK ''MeshLink'', pvGVK} \<and> owner_request (sdcoreGVK ''EdgeSite'') z = Some q
    \<longleftrightarrow> (gvk_of x = pvGVK \<or> gvk_of x = sdcoreGVK ''MeshLink'') \<and> q = (om_Namespace (es_Meta es), om_Name (es_Meta es))"
    if "z \<in> set (event_objects ev)" for z q
    using obj [OF that] gvk by auto
  have "q \<in> requests (site_controller M cs) ev \<longleftrightarrow>
      (gvk_of x = pvGVK \<or> gvk_of x = sdcoreGVK ''MeshLink'') \<and> q = (om_Namespace (es_Meta es), om_Name (es_Meta es))" for q
    unfolding operator_events.site_requests [OF assms(1)] using each y by blast
  then show ?thesis by auto
qed

theorem site_children_watched_witness:
  "lab_requests (sch_kind lab_scheme lab_sch) (site_controller lab_manager ''cs'')
     (Deleted (owned_by demo_upf (ip_claim demo_upf ''e-pod'' ''network''))) = {}"
proof -
  have "Child (ip_claim demo_upf ''e-pod'' ''network'') \<in> set (site_plan lab_sites demo_upf)"
    by (simp add: site_plan_def Let_def demo_upf_def new_EdgeSite_def named_meta_def)
  moreover have "\<forall>y \<in> set (event_objects (Deleted (owned_by demo_upf (ip_claim demo_upf ''e-pod'' ''network'')))).
      same_intent (owned_by demo_upf (ip_claim demo_upf ''e-pod'' ''network'')) y" by simp
  moreover have "gvk_of (ip_claim demo_upf ''e-pod'' ''network'') = ipClaimGVK" by (simp add: ip_claim_def)
  ultimately show ?thesis
    using site_children_watched [OF lab_events.operator_events_axioms, of "ip_claim demo_upf ''e-pod'' ''network''" lab_sites demo_upf
      "Deleted (owned_by demo_upf (ip_claim demo_upf ''e-pod'' ''network''))" lab_manager "''cs''"] by simp
qed


text \<open>Two colocated sites, and the package as the first of them created it.\<close>

definition demo_colocated :: "string \<Rightarrow> EdgeSite" where
  "demo_colocated n = (let s = new_EdgeSite ''default'' n ''10.0.0.7'' ''upf-only'' in s\<lparr>es_Spec := (es_Spec s)\<lparr>es_Colocated := True\<rparr>\<rparr>)"

definition demo_multus :: "EdgeSite \<Rightarrow> kobject" where
  "demo_multus s = pkg_variant ''blueprints'' s ''multus-mgmt'' ''multus'' ''mgmt'' ''multus-mgmt'' False"

definition demo_packages :: mesh_lab where
  "demo_packages = (demo_mesh [] None [])\<lparr>cl_objects := [owned_by (demo_colocated ''a'') (demo_multus (demo_colocated ''a''))]\<rparr>"



text \<open>The Fleet alone: its site is gone.\<close>

definition demo_fleet_empty :: cluster where
  "demo_fleet_empty = \<lparr>cl_objects = [KFleet demo_fleet], cl_revision = 1\<rparr>"

lemma demo_fleet_empty_runs:
  "fst (run_state (Fleet_Reconcile demo_fleet_reconciler ''default'' ''f'') demo_fleet_empty) = (NoRequeue, None)"
  "cl_view demo_fleet_empty (fleetKey ''default'' ''f'') = Some (KFleet demo_fleet)"
  "cl_view demo_fleet_empty (fleet_key demo_fleet ''a'') = None"
  "map fst (fleet_order demo_fleet) = [''a'']"
  by code_simp+


end
