(* ===== verification/Site_Convergence.thy ===== *)
theory Site_Convergence
  imports Controller_Events
begin

text \<open>
  The counterpart of \<open>Controller_Events\<close>: the reconcile loop of a site without a MeshLink of its own comes to rest.
  One pass that succeeds brings the site into a state (\<open>at_rest\<close>) in which a further pass writes nothing the API
  server would notice, so no controller is woken and the chain of requests ends. This needs two more promises of the
  libraries: a status write of what is stored already changes nothing, and setting the same condition twice is
  setting it once.
\<close>

section \<open>A server that ignores writes without content\<close>

locale quiet_server = kube_api +
  assumes same_status: "run_state (kStatusUpdate c x) w = (Inr y, w') \<Longrightarrow> view w (key_of x) = Some z \<Longrightarrow> put_status z x = z \<Longrightarrow> view w' = view w"
    and status_generation: "run_state (kStatusUpdate c x) w = (Inr y, w') \<Longrightarrow> view w (key_of x) = Some z \<Longrightarrow>
      om_Generation (meta_of y) = om_Generation (meta_of z)"

locale stable_conditions = status_conditions set_cond for set_cond +
  assumes set_cond_same: "set_cond (set_cond cs x) x = set_cond cs x"

interpretation put_condition: stable_conditions put_condition
proof
  show "put_condition (put_condition cs x) x = put_condition cs x" for cs x
    by (induction cs) auto
qed

locale quiet_site = edgesite_delivery r view repo + quiet_server "esr_Client r" view + stable_conditions "SetStatusCondition (esr_Env r)"
  for r :: "'w EdgeSiteReconciler" and view and repo

section \<open>Children without a MeshLink\<close>

text \<open>Without the user-plane-only role every child is unstructured, and depends on the name, the namespace and the spec only.\<close>

lemma plan_unstructured:
  assumes "es_Role (es_Spec es) \<noteq> ''upf-only''" and "Child x \<in> set (site_plan r es)"
  obtains u where "x = KUnstructured u" and "json_wf (u_Spec u)"
proof -
  define U where "U y = (case y of KUnstructured u \<Rightarrow> json_wf (u_Spec u) | _ \<Rightarrow> False)" for y
  have "U (pkg_variant b es n up rp dn i)" "U (ip_claim es n k)" for b n up rp dn i k
    by (auto simp: U_def pkg_variant_def ip_claim_def)
  with assms have "U x" by (auto simp: site_plan_def Let_def split: if_splits option.splits)
  then show thesis using that by (simp add: U_def split: kobject.splits)
qed

lemma plan_child_cong:
  assumes "es_Spec a = es_Spec b" and "om_Name (es_Meta a) = om_Name (es_Meta b)" and "om_Namespace (es_Meta a) = om_Namespace (es_Meta b)"
    and "es_Role (es_Spec a) \<noteq> ''upf-only''" and "Child x \<in> set (site_plan r a)"
  shows "Child x \<in> set (site_plan r b)"
proof -
  have pv: "pkg_variant bp a n up rp dn i = pkg_variant bp b n up rp dn i" for bp n up rp dn i
    using assms(2,3) by (simp add: pkg_variant_def)
  have ic: "ip_claim a n k = ip_claim b n k" for n k using assms(2,3) by (simp add: ip_claim_def)
  have dr: "deploy_repo r a = deploy_repo r b" using assms(1,2) by (simp add: deploy_repo_def)
  show ?thesis
    using assms(4,5) unfolding site_plan_def Let_def assms(1,2) pv ic dr
    by (cases "es_RAN (es_Spec b)"; cases "es_Role (es_Spec b) = ''cp+upf''") auto
qed

section \<open>At rest\<close>

definition at_rest :: "'w EdgeSiteReconciler \<Rightarrow> ('w \<Rightarrow> ObjectKey \<Rightarrow> kobject option) \<Rightarrow> string \<Rightarrow> string \<Rightarrow> 'w \<Rightarrow> bool" where
  "at_rest r view ns n w \<longleftrightarrow> (\<exists>s. view w (site_key ns n) = Some (KEdgeSite s) \<and> es_Role (es_Spec s) \<noteq> ''upf-only''
     \<and> \<not> needs_fill (es_Spec s) \<and> es_Status (emitted_site r s) = es_Status s
     \<and> (\<forall>x. Child x \<in> set (site_plan r s) \<longrightarrow> (\<exists>y. view w (key_of x) = Some y \<and> spec_unchanged x y)))"

lemma at_rest_cong: "view w' = view w \<Longrightarrow> at_rest r view ns n w' = at_rest r view ns n w"
  by (simp add: at_rest_def)

context quiet_site
begin

text \<open>The status a pass emits is the one it finds when it emitted it before.\<close>

lemma emitted_again:
  assumes "es_Status s = es_Status (emitted_site r es)" and "es_Spec s = es_Spec es" and "om_Name (es_Meta s) = om_Name (es_Meta es)"
    and "om_Generation (es_Meta s) = om_Generation (es_Meta es)"
  shows "es_Status (emitted_site r s) = es_Status s"
  using assms by (simp add: emitted_site_def setCondition_def set_cond_same)

lemma pass_comes_to_rest:
  assumes run: "run_state (EdgeSite_Reconcile r ns n) w = ((res, None), w')"
    and site: "view w (site_key ns n) = Some (KEdgeSite es0)" and role: "es_Role (es_Spec es0) \<noteq> ''upf-only''"
    and calm: "\<And>k. \<not> terminating view w k"
  shows "at_rest r view ns n w'"
proof -
  from Reconcile_emitted [OF run site calm] obtain es w2 y where
    f: "\<exists>base vip. es_Spec es = fill_spec (itoa (siteIndex n)) base vip (es_Spec es0)" and k: "key_of (KEdgeSite es) = site_key ns n"
    and full: "\<not> needs_fill (es_Spec es)" and e: "view w2 (site_key ns n) = Some (KEdgeSite es)"
    and place: "\<forall>p \<in> set (site_plan r es). in_place view repo (user_at view w) (deploy_repo r es) es p w2"
    and u: "run_state (kStatusUpdate (esr_Client r) (KEdgeSite (emitted_site r es))) w2 = (Inr y, w')" by blast
  from emitted_status [OF u k e place] obtain s where y: "y = KEdgeSite s"
    and s: "view w' (site_key ns n) = Some (KEdgeSite s)" "es_Spec s = es_Spec es" "es_Status s = es_Status (emitted_site r es)"
    and place': "\<forall>p \<in> set (site_plan r es). in_place view repo (user_at view w) (deploy_repo r es) es p w'" by auto
  have ek: "view w2 (key_of (KEdgeSite (emitted_site r es))) = Some (KEdgeSite es)" using k e by (simp add: emitted_site_def key_of_def)
  have gen: "om_Generation (es_Meta s) = om_Generation (es_Meta es)" using status_generation [OF u ek] by (simp add: y)
  have nm: "om_Name (es_Meta s) = om_Name (es_Meta es)" "om_Namespace (es_Meta s) = om_Namespace (es_Meta es)"
    using view_key [OF s(1)] k by (simp_all add: site_key_of site_key_def)
  have role': "es_Role (es_Spec s) \<noteq> ''upf-only''" using f role by (auto simp: s(2) fill_spec_def fill_ran_def fill_site_def)
  have "\<exists>y. view w' (key_of x) = Some y \<and> spec_unchanged x y" if x: "Child x \<in> set (site_plan r s)" for x
  proof -
    from plan_unstructured [OF role' x] obtain v where v: "x = KUnstructured v" "json_wf (u_Spec v)" .
    from plan_child_cong [OF s(2) nm role' x] place' obtain z where "view w' (key_of x) = Some z" "settled es x z" by force
    with settled_unchanged [OF v(2), of es z] v(1) show ?thesis by blast
  qed
  with s role' full emitted_again [OF s(3,2) nm(1) gen] show ?thesis by (auto simp: at_rest_def)
qed

text \<open>A pass over a site at rest changes no object.\<close>

lemma pass_at_rest:
  assumes rest: "at_rest r view ns n w" and run: "run_state (EdgeSite_Reconcile r ns n) w = ((res, None), w')"
  shows "view w' = view w"
proof -
  from rest obtain s where s: "view w (site_key ns n) = Some (KEdgeSite s)" "\<not> needs_fill (es_Spec s)"
    "es_Status (emitted_site r s) = es_Status s"
    and child: "\<And>x. Child x \<in> set (site_plan r s) \<Longrightarrow> \<exists>y. view w (key_of x) = Some y \<and> spec_unchanged x y"
    by (auto simp: at_rest_def)
  have k: "key_of (KEdgeSite s) = site_key ns n" using view_key [OF s(1)] .
  obtain g w0 where g: "run_state (get_as (esr_Client r) as_EdgeSite (site_key ns n)) w = (g, w0)" by force
  have v0: "view w0 = view w" using frameD [OF get_as_frame g] .
  have gi: "g = Inr s"
  proof (cases g)
    case (Inl e)
    with run g have "IsNotFound e" by (auto simp: EdgeSite_Reconcile_def IgnoreNotFound_def split: if_splits)
    with get_as_missing [OF g [unfolded Inl]] s(1) show ?thesis by simp
  next
    case (Inr s1)
    with get_as_ok [OF g [unfolded Inr]] s(1) show ?thesis by (auto simp: as_simps)
  qed
  from EdgeSite_Reconcile_parts [OF run g [unfolded gi]] obtain es w1 w2 y where
    d: "run_state (deriveAddressing r s) w0 = ((None, es), w1)" and
    l: "run_state (for_until_err (site_step r es) (site_steps r es)) w1 = (None, w2)" and
    u: "run_state (kStatusUpdate (esr_Client r) (KEdgeSite (emitted_site r es))) w2 = (Inr y, w')" .
  have "is_site view w0 s" using s(1) k v0 by (simp add: is_site_def)
  from this d s(2) have es: "es = s" and v1: "view w1 = view w" by (cases rule: derive_effect; simp add: v0)+
  have vip: "es_N2VIP (es_Spec s) \<noteq> ''''" using s(2) by (auto simp: needs_fill_def)
  note loop = l [unfolded es site_steps_ok site_steps_plan [OF vip] for_until_err_map]
  have v2: "view w2 = view w"
  proof (rule for_until_err_inv [OF loop, of "\<lambda>v. view v = view w"])
    show "view w1 = view w" by (rule v1)
  next
    fix p v e v'
    assume p: "p \<in> set (site_plan r s)" and v: "view v = view w" and r: "run_state (run_item r s p) v = (e, v')"
    show "view v' = view w"
    proof (cases p)
      case (Files fs)
      with r frameD [OF gitPut_all_view] v show ?thesis by simp
    next
      case (Child x)
      with child p obtain z where z: "view v (key_of x) = Some z" "spec_unchanged x z" unfolding v by blast
      from applyOwned_found [OF r [unfolded Child run_item.simps] z(1)] z(2) v show ?thesis by auto
    qed
  qed
  have "view w2 (key_of (KEdgeSite (emitted_site r s))) = Some (KEdgeSite s)"
    using k s(1) v2 by (simp add: emitted_site_def key_of_def)
  moreover have "put_status (KEdgeSite s) (KEdgeSite (emitted_site r s)) = KEdgeSite s" using s(3) by (simp add: put_status_def)
  ultimately show ?thesis using same_status [OF u [unfolded es]] v2 by simp
qed

lemma passes_at_rest:
  assumes "(\<lambda>v v'. \<exists>res. run_state (EdgeSite_Reconcile r ns n) v = ((res, None), v'))\<^sup>*\<^sup>* w w'" and "at_rest r view ns n w"
  shows "view w' = view w"
  using assms
proof (induction rule: rtranclp_induct)
  case (step v v')
  then have "at_rest r view ns n v" using at_rest_cong [of view v w r ns n] by simp
  with step pass_at_rest show ?case by metis
qed simp

end

section \<open>The credentials\<close>

context edgesite_delivery
begin

lemma pass_keeps_secret:
  assumes run: "run_state (EdgeSite_Reconcile r ns n) w = ((res, None), w')" and site: "view w (site_key ns n) = Some (KEdgeSite es0)"
  shows "view w' gitea_auth_key = view w gitea_auth_key"
proof -
  obtain g w0 where g: "run_state (get_as (esr_Client r) as_EdgeSite (site_key ns n)) w = (g, w0)" by force
  have v0: "view w0 = view w" using frameD [OF get_as_frame g] .
  show ?thesis
  proof (cases g)
    case (Inl e)
    with run g v0 show ?thesis by (auto simp: EdgeSite_Reconcile_def split: if_splits)
  next
    case (Inr es1)
    with get_as_ok [OF g [unfolded Inr]] site have "es1 = es0" by (auto simp: as_simps)
    note g = g [unfolded Inr this]
    have key: "key_of (KEdgeSite es0) = site_key ns n" using view_key [OF site] .
    from EdgeSite_Reconcile_parts [OF run g] obtain es w1 w2 y where
      d: "run_state (deriveAddressing r es0) w0 = ((None, es), w1)" and
      l: "run_state (for_until_err (site_step r es) (site_steps r es)) w1 = (None, w2)" and
      u: "run_state (kStatusUpdate (esr_Client r) (KEdgeSite (emitted_site r es))) w2 = (Inr y, w')" .
    have "is_site view w0 es0" using site key v0 by (simp add: is_site_def)
    from derive_ok [OF this d] have full: "\<not> needs_fill (es_Spec es)" and k1: "key_of (KEdgeSite es) = site_key ns n"
      and v1: "\<And>x. x \<noteq> site_key ns n \<Longrightarrow> view w1 x = view w x" unfolding key v0 by blast+
    have vip: "es_N2VIP (es_Spec es) \<noteq> ''''" using full by (auto simp: needs_fill_def)
    have "run_state (for_until_err (run_item r es) (site_plan r es)) w1 = (None, w2)"
      using l unfolding site_steps_ok site_steps_plan [OF vip] for_until_err_map .
    from for_until_err_all [OF this, of "\<lambda>v. view v gitea_auth_key = view w1 gitea_auth_key" "\<lambda>_ _. True"]
    have "view w2 gitea_auth_key = view w1 gitea_auth_key"
      using run_item_frame site_plan_ok [of r es] unfolding plan_ok_def by metis
    moreover have "key_of (KEdgeSite (emitted_site r es)) = site_key ns n" using k1 by (simp add: emitted_site_def key_of_def)
    ultimately show ?thesis using status_other [OF u] v1 gitea_key_site by metis
  qed
qed

end

section \<open>A quiet server in memory\<close>

text \<open>A client whose server skips a status write that would change nothing.\<close>

definition quiet_writes :: "'w kclient \<Rightarrow> 'w kclient" where
  "quiet_writes c = c\<lparr>kStatusUpdate := \<lambda>x. do {
     g \<leftarrow> kGet c (key_of x);
     case g of Inl e \<Rightarrow> ret (Inl e) | Inr z \<Rightarrow> if put_status z x = z then ret (Inr z) else kStatusUpdate c x}\<rparr>"

lemma quiet_writes_simps [simp]:
  "kGet (quiet_writes c) = kGet c" "kList (quiet_writes c) = kList c" "kCreate (quiet_writes c) = kCreate c"
  "kUpdate (quiet_writes c) = kUpdate c" "kDelete (quiet_writes c) = kDelete c"
  by (simp_all add: quiet_writes_def)

lemma quiet_status:
  "run_state (kStatusUpdate (quiet_writes mem_client) x) w = (case cl_view w (key_of x) of None \<Rightarrow> (Inl notFound, w)
     | Some z \<Rightarrow> if put_status z x = z then (Inr z, w) else run_state (kStatusUpdate mem_client x) w)"
  by (simp add: quiet_writes_def mem_client_defs split: option.splits)

lemma mem_status_generation:
  "run_state (kStatusUpdate mem_client x) w = (Inr y, w') \<Longrightarrow> cl_view w (key_of x) = Some z \<Longrightarrow>
     om_Generation (meta_of y) = om_Generation (meta_of z)"
  by (auto simp: mem_client_def mem_status_def Let_def stamp_def)

interpretation quiet_mem: quiet_server "quiet_writes mem_client" cl_view
proof
  fix x w y w'
  assume u: "run_state (kStatusUpdate (quiet_writes mem_client) x) w = (Inr y, w')"
  show "(\<exists>z. cl_view w (key_of x) = Some z \<and> same_intent z y \<and> om_Finalizers (meta_of y) = om_Finalizers (meta_of z)
         \<and> om_DeletionTimestamp (meta_of y) = om_DeletionTimestamp (meta_of z)) \<and> put_status y x = y \<and> cl_view w' = (cl_view w)(key_of x \<mapsto> y)"
    using u mem.status_ok [of x w y w'] by (auto simp: quiet_status same_intent_refl split: option.splits if_splits)
next
  fix x w e w'
  assume "run_state (kStatusUpdate (quiet_writes mem_client) x) w = (Inl e, w')"
  then show "cl_view w' = cl_view w"
    using mem.status_err [of x w e w'] by (auto simp: quiet_status split: option.splits if_splits)
next
  fix x w y w' z
  assume u: "run_state (kStatusUpdate (quiet_writes mem_client) x) w = (Inr y, w')" and z: "cl_view w (key_of x) = Some z"
  show "om_Generation (meta_of y) = om_Generation (meta_of z)"
    using u z mem_status_generation [of x w y w' z] by (auto simp: quiet_status split: if_splits)
  assume "put_status z x = z"
  with u z show "cl_view w' = cl_view w" by (simp add: quiet_status)
qed (unfold quiet_writes_simps, (rule mem.get_frame mem.list_frame
  | rule mem.view_key mem.view_live mem.get_ok mem.get_missing mem.list_ok mem.create_ok mem.create_err mem.update_ok mem.update_err
      mem.delete_ok mem.delete_err mem.delete_missing; assumption)+)

definition quiet_lab :: "lab EdgeSiteReconciler" where
  "quiet_lab = lab_reconciler\<lparr>esr_Client := quiet_writes mem_client\<rparr>"

lemma quiet_lab_simps [simp]:
  "esr_Client quiet_lab = quiet_writes mem_client" "esr_Env quiet_lab = lab_env"
  "BlueprintRepo quiet_lab = BlueprintRepo lab_reconciler" "MgmtRepo quiet_lab = MgmtRepo lab_reconciler"
  by (simp_all add: quiet_lab_def)

interpretation quiet_delivery: delivery_world "quiet_writes mem_client" cl_view lab_env lab_repo
proof
  show "frame lab_repo (kStatusUpdate (quiet_writes mem_client) x)" for x
    using lab.kstatus_repo [of x] by (auto simp: frame_def quiet_status split: option.splits)
qed (simp_all add: lab.kget_repo lab.klist_repo lab.kcreate_repo lab.kupdate_repo lab.kdelete_repo lab.http_view)

interpretation quiet_lab: quiet_site quiet_lab cl_view lab_repo
  unfolding quiet_site_def edgesite_delivery_def
  using quiet_delivery.delivery_world_axioms quiet_mem.quiet_server_axioms put_condition.stable_conditions_axioms by (simp add: lab_env_def)

text \<open>Against this server a pass does what it does against the other one, but for the write of the status.\<close>

lemma quiet_runs:
  "run_item quiet_lab es p = run_item lab_reconciler es p" "deriveAddressing quiet_lab es = deriveAddressing lab_reconciler es"
  "get_as (quiet_writes mem_client) f k = get_as mem_client f k" "site_plan quiet_lab es = site_plan lab_reconciler es"
  "emitted_site quiet_lab es = emitted_site lab_reconciler es"
proof -
  have g: "get_as (quiet_writes mem_client) f k = get_as mem_client f k" for f k by (simp add: get_as_def)
  show "get_as (quiet_writes mem_client) f k = get_as mem_client f k" by (rule g)
  have put: "gitPut E (quiet_writes mem_client) = gitPut E mem_client" for E :: "lab env"
    by (intro ext) (simp add: gitPut_def g)
  have "run_item quiet_lab es (Files fs) = run_item lab_reconciler es (Files fs)" for fs
    unfolding run_item.simps quiet_lab_simps lab_reconciler_simps put by (simp add: deploy_repo_def)
  moreover have "applyOwned quiet_lab es x = applyOwned lab_reconciler es x" for x
    unfolding applyOwned_def quiet_lab_simps quiet_writes_simps lab_reconciler_simps ..
  ultimately show "run_item quiet_lab es p = run_item lab_reconciler es p" by (cases p) simp_all
  show "site_plan quiet_lab es = site_plan lab_reconciler es" unfolding site_plan_def deploy_repo_def quiet_lab_simps ..
  show "emitted_site quiet_lab es = emitted_site lab_reconciler es" by (simp add: emitted_site_def)
  have l: "list_as (quiet_writes mem_client) f gk os = list_as mem_client f gk os" for f gk os by (simp add: list_as_def)
  show "deriveAddressing quiet_lab es = deriveAddressing lab_reconciler es"
    unfolding deriveAddressing_def ranBase_def allocateRanVIP_def mgmtNodeIP_def quiet_lab_simps quiet_writes_simps lab_reconciler_simps l ..
qed

lemma quiet_Reconcile_ok:
  assumes site: "cl_view w (site_key ns name) = Some (KEdgeSite es0)" and sec: "cl_view w gitea_auth_key = Some (KSecret sec)"
  shows "\<exists>w'. run_state (EdgeSite_Reconcile quiet_lab ns name) w = ((NoRequeue, None), w')"
proof -
  have g: "run_state (get_as mem_client as_EdgeSite (site_key ns name)) w = (Inr es0, w)"
    using site by (simp add: get_as_def mem_client_def mem_get_def decode_as_def)
  obtain w4 where "run_state (EdgeSite_Reconcile lab_reconciler ns name) w = ((NoRequeue, None), w4)"
    using lab_Reconcile_ok [OF site sec] by blast
  from EdgeSite_Reconcile_parts [OF this, unfolded lab_reconciler_simps, OF g] obtain es w1 w2 y where
    d: "run_state (deriveAddressing lab_reconciler es0) w = ((None, es), w1)" and
    l: "run_state (for_until_err (site_step lab_reconciler es) (site_steps lab_reconciler es)) w1 = (None, w2)" and
    u: "run_state (kStatusUpdate mem_client (KEdgeSite (emitted_site lab_reconciler es))) w2 = (Inr y, w4)" .
  have "is_site cl_view w es0" using site cl_view_key [OF site] by (simp add: is_site_def)
  from lab_site.derive_ok [OF this d] have vip: "es_N2VIP (es_Spec es) \<noteq> ''''" by (auto simp: needs_fill_def)
  have l': "run_state (for_until_err (site_step quiet_lab es) (site_steps quiet_lab es)) w1 = (None, w2)"
    using l unfolding site_steps_ok site_steps_plan [OF vip] for_until_err_map quiet_runs by simp
  let ?e = "KEdgeSite (emitted_site lab_reconciler es)"
  obtain z where "cl_view w2 (key_of ?e) = Some z" using mem.status_ok [OF u] by blast
  with u obtain z w3 where "run_state (kStatusUpdate (quiet_writes mem_client) ?e) w2 = (Inr z, w3)"
    by (cases "put_status z ?e = z") (simp_all add: quiet_status)
  with g d l' step_ok [of quiet_lab "''DeriveAddressing''" "deriveAddressing lab_reconciler es0" w es w1] show ?thesis
    by (simp add: EdgeSite_Reconcile_def quiet_runs Let_def)
qed

definition cp_lab :: lab where
  "cp_lab = lab0\<lparr>cl_objects := KEdgeSite (new_EdgeSite ''default'' ''edge1'' ''192.168.1.7'' ''cp+upf'') # cl_objects lab0\<rparr>"

lemma cp_lab_facts:
  "cl_view cp_lab (site_key ''default'' ''edge1'') = Some (KEdgeSite (new_EdgeSite ''default'' ''edge1'' ''192.168.1.7'' ''cp+upf''))"
  "\<exists>sec. cl_view cp_lab gitea_auth_key = Some (KSecret sec)" "list_all alive (cl_objects cp_lab)"
proof -
  show "cl_view cp_lab (site_key ''default'' ''edge1'') = Some (KEdgeSite (new_EdgeSite ''default'' ''edge1'' ''192.168.1.7'' ''cp+upf''))"
    by code_simp
  have "(case cl_view cp_lab gitea_auth_key of Some (KSecret s) \<Rightarrow> True | _ \<Rightarrow> False)" by code_simp
  then show "\<exists>sec. cl_view cp_lab gitea_auth_key = Some (KSecret sec)" by (auto split: option.splits kobject.splits)
  show "list_all alive (cl_objects cp_lab)" by code_simp
qed

section \<open>Properties\<close>



end
