(* ===== verification/Spec2Isabelle.thy ===== *)
theory Spec2Isabelle
  imports EdgeSite_Controller Fleet_Controller Network_Controller MeshLink_Controller Slice_Controller
    Datapath_Controller Helm_Controllers Deep_Copies Operator_Main Controller_Events Site_Convergence
begin

text \<open>
  A verification development for the Kubernetes operator of Nephio-Stack (\<open>src/operator\<close>, Go), which turns
  declared 5G sites into clusters, networks, radio and core deployments. This theory imports the others and
  says what they hold.

  \<^bold>\<open>The program.\<close> A user declares a \<open>Fleet\<close> of servers; the Fleet reconciler keeps one \<open>EdgeSite\<close> per
  server. The EdgeSite reconciler derives the addresses of a site, creates the packages, address claims, the
  \<open>MeshLink\<close> and the \<open>NetworkSlice\<close> it needs, and delivers files (N2 exposure, slice and subscribers, the
  gNB) to a Git repository from which the site's cluster is synchronised. The MeshLink reconciler wires the N2
  and N4 interfaces between the site's cluster and its control plane; the Subscriber and NetworkSlice
  reconcilers provision SIMs and slices in the webconsole and the database of the core; the NetworkFabric
  reconciler declares prefixes to Nephio's backend; the UPFDataPath reconciler programs the host of a user plane
  and heals the UPF pods on it; the SDCoreDeployment and NFDeployment reconcilers deploy Helm charts.
  Reconcilers interact only through the API server, the Git repositories and the host. The entry point reads the
  flags and starts either the node agent, with the UPFDataPath reconciler only, or the management operator, with
  the others; each reconciler says what it watches, and a change of a watched object requests a reconcile.

  \<^bold>\<open>Modelling conventions.\<close> A Go string is a list of bytes, an \<open>int\<close> a mathematical integer whose range is
  checked or wrapped where the code's result depends on it (\<open>strconv\<close>, \<open>Sscanf\<close>, the hash of a site name, the
  \<open>int32\<close> sum of restart counts). An error is a value of \<^typ>\<open>error\<close>; a call that returns a value or an
  error is a sum. Code with effects is a computation of the state monad over a world \<open>'w\<close> that stays a
  parameter. Everything that is not code of the repository (the API server client, HTTP, Helm, netlink,
  iptables, \<open>/proc\<close>, YAML and kubeconfig decoding, clocks, the iteration order of maps) is a field of a record
  of operations; any of them may fail at any call. What the code relies on is stated as the laws of locales,
  and every locale is interpreted on an in-memory implementation (\<open>mem_client\<close> and the \<open>lab\<close> worlds), which
  also makes the witnesses concrete. A reconcile is one definition, composed of one definition per function or
  step of the source, under the source's name where it is free.

  \<^bold>\<open>Theories and sources\<close> (paths under \<open>operator/\<close>).
  \<^item> \<open>Prelude\<close>: errors, the world monad, the loop shapes and their rules, frames (what a computation leaves alone).
  \<^item> \<open>Go_Strings\<close>, \<open>Go_Scan\<close>, \<open>Go_Text\<close>, \<open>Go_Net\<close>: the parts of the Go library the operator uses (UTF-8,
    printing and reading numbers, \<open>strings\<close>, base64, IP addresses and CIDR texts), with round trips.
  \<^item> \<open>Api_Types\<close>: the structs of \<open>api/v1alpha1/*_types.go\<close> as records.
  \<^item> \<open>Kube_Client\<close>, \<open>Kube_Laws\<close>, \<open>Clientset\<close>, \<open>Upsert\<close>: the API server as an interface with laws, the in-memory
    server that satisfies them, and the contract of a create-or-update several controllers share.
  \<^item> \<open>Addressing\<close>, \<open>Vip_Pool\<close>, \<open>Site_Networks\<close>: address derivation and N2 address allocation of
    \<open>internal/controller/edgesite_controller.go\<close>; the pool as a state machine with an invariant; derived
    texts as sets of addresses.
  \<^item> \<open>Git_Delivery\<close>: \<open>mesh_gitops.go\<close>, files in the Gitea repositories.
  \<^item> \<open>Ran_Render\<close>: the gNB delivery of \<open>edgesite_controller.go\<close>, every text character by character.
  \<^item> \<open>EdgeSite_Controller\<close>: the reconcile of \<open>edgesite_controller.go\<close> as a plan of steps, refined by the code.
  \<^item> \<open>Fleet_Controller\<close>, \<open>Network_Controller\<close>: \<open>fleet_controller.go\<close>, \<open>network_controller.go\<close>.
  \<^item> \<open>MeshLink_Controller\<close>: \<open>meshlink_controller.go\<close>, \<open>mesh_clustermesh.go\<close>, \<open>mesh_helpers.go\<close>, with a
    pair of clusters beside the management cluster.
  \<^item> \<open>Slice_Controller\<close>: \<open>subscriber_controller.go\<close>, \<open>mongo_helpers.go\<close>.
  \<^item> \<open>Host_Datapath\<close>, \<open>Datapath_Controller\<close>: \<open>upfdatapath_controller.go\<close>, the host steps and the reconcile
    with the steps in the pods.
  \<^item> \<open>Helm_Controllers\<close>: \<open>sdcoredeployment_controller.go\<close>, \<open>nfdeployment_controller.go\<close>.
  \<^item> \<open>Go_Memory\<close>, \<open>Deep_Copies\<close>: Go values with pointers, slices and maps on an explicit memory, and on it every
    function of \<open>api/v1alpha1/zz_generated.deepcopy.go\<close> over the types of \<open>api/v1alpha1\<close>.
  \<^item> \<open>Operator_Main\<close>: \<open>cmd/main.go\<close> with its flags, options and two modes, the registration of the API types
    (\<open>groupversion_info.go\<close> and the \<open>init\<close> functions), and the \<open>SetupWithManager\<close> of every controller.
  \<^item> \<open>Controller_Events\<close>: what an event about an object requests of the controllers that were set up, and the
    EdgeSite and the MeshLink controller with their queue as one step relation (\<open>site_system\<close>).
  \<^item> \<open>Site_Convergence\<close>: the reconcile loop of a site that has a control plane, up to its fixed point (\<open>at_rest\<close>).

  \<^bold>\<open>What the lemmas show.\<close> For each reconciler: what the cluster, the repositories, the webconsole, the host or
  the releases hold after a reconcile that succeeded, what a failing step leaves and reports, and what is never
  touched (frames, foreign packet filter rules, other releases, other sites). Beyond that: the derived networks
  of sites with different indices are disjoint, and sites with equal indices collide; no two sites hold one N2
  address in any interleaving of single reconciles with the changes of others, for at most fourteen sites (the
  size of the pool); repeated reconciles write nothing; finalizers precede what they guard; the actuator runs
  every step whatever the others return, deletes no healthy pod and removes no wanted address; the addresses the
  EdgeSite controller derives parse back to the networks the actuator routes. Every generated copy function
  refines the identity on the value it copies and returns memory the original does not reach, whatever is written
  to the copy later. The scheme that \<open>init\<close> builds knows every type the controllers read, so both modes of the
  operator start; a start that fails exits with a status other than 0. Across controllers: the requests of a site
  with a control plane end, because a pass after a successful one changes no object; those of a UPF-only site
  never end, because its controller and that of its MeshLink undo each other's finalizers; a deleted site of a
  Fleet comes back; which children of a site are watched and which are not. Some theorems state what the code
  does against its comments (the N4 status without a UPF, the shared packages of colocated sites, the service one
  deleted MeshLink takes from the others, the NAT step without a packet filter).

  \<^bold>\<open>Bounds and termination.\<close> No fuel is used: every loop of the sources runs over a finite list and is a structural
  recursion, the decoders and the directory walk terminate by a measure. The laws describe a server whose
  objects are changed by the calls of one reconciler at a time between a read and the write that follows it;
  interleavings of whole reconciles are the steps of \<open>Vip_Pool\<close>.

  \<^bold>\<open>Not modelled.\<close> The REST client getter the Helm library asks for (\<open>restClientGetter\<close>, four methods that hand on a
  configuration), logging, contexts and timeouts; two reconciles running at the same instant; what the delivered
  scripts do when they run. The manager, its caches and work queues, the flag types of zap and the scheme are
  library code: parameters with laws.

  \<^bold>\<open>Plan.\<close> Next: convergence of a Fleet, whose sites each come to rest; the interleaving of two reconciles of the
  actuator with the Service controller; the slice controller and its thirty-second timer in the step relation.
\<close>

end
